theory Spec2Isabelle
  imports
    Main
    "HOL-Library.AList"
    "HOL-Library.Sublist"
    "HOL-Library.Char_ord"
    "HOL-Library.List_Lexorder"
begin

section \<open>Data model\<close>

text \<open>
  Values thrown by the JavaScript code (the string rejected by \<open>execPromise\<close>, the
  \<open>Error\<close> objects of the git, file-system and object-store clients) are represented by
  their diagnostic text.
\<close>

type_synonym thrown = string

subsection \<open>The scratch directory\<close>

text \<open>
  A directory is the list of its entries as \<open>fs.readdirSync\<close> returns them; an entry is a
  regular file with its content or a directory.
\<close>

datatype fsnode = File string | Dir "(string \<times> fsnode) list"

type_synonym dirents = "(string \<times> fsnode) list"

definition existsSync :: "dirents \<Rightarrow> string \<Rightarrow> bool" where
  "existsSync folder entry = (map_of folder entry \<noteq> None)"

subsection \<open>The manifest\<close>

text \<open>
  \<open>package.json\<close> after \<open>JSON.parse\<close>: each dependency group is absent (\<open>undefined\<close>)
  or an object from package names to version strings.
\<close>

record pkgJson =
  dependencies :: "(string \<times> string) list option"
  devDependencies :: "(string \<times> string) list option"

text \<open>
  The truthiness of \<open>group?.dep\<close>: false when the group is absent, when the package is
  not a key of the group, and when its value is the empty string.
\<close>

definition declared :: "(string \<times> string) list option \<Rightarrow> string \<Rightarrow> bool" where
  "declared grp dep =
     (case grp of
        None \<Rightarrow> False
      | Some obj \<Rightarrow> (case map_of obj dep of None \<Rightarrow> False | Some v \<Rightarrow> v \<noteq> []))"

record framework =
  name :: string
  buildCommand :: string
  outDir :: string

section \<open>Toolchain detector\<close>

text \<open>\<open>detectFramework\<close> of \<open>src/index.ts\<close>: four rules in order, then the fallback.\<close>

definition detectFramework :: "pkgJson \<Rightarrow> dirents \<Rightarrow> framework" where
  "detectFramework pkg folder =
     (if declared (dependencies pkg) ''next'' \<or> declared (devDependencies pkg) ''next''
      then \<lparr>name = ''Next.js'', buildCommand = ''npm run build'', outDir = ''.next''\<rparr>
      else if declared (dependencies pkg) ''vite'' \<or> existsSync folder ''vite.config.js''
      then \<lparr>name = ''Vite'', buildCommand = ''npm run build'', outDir = ''dist''\<rparr>
      else if declared (dependencies pkg) ''react'' \<and> existsSync folder ''public''
      then \<lparr>name = ''CRA'', buildCommand = ''npm run build'', outDir = ''dist''\<rparr>
      else if declared (dependencies pkg) ''vue'' \<and> existsSync folder ''vue.config.js''
      then \<lparr>name = ''Vue'', buildCommand = ''npm run build'', outDir = ''dist''\<rparr>
      else \<lparr>name = ''Unknown'', buildCommand = ''npm run build'', outDir = ''dist''\<rparr>)"

text \<open>
  The detector of the earlier revision of the server (\<open>src/unnamed/part_002\<close>), which has
  two more rules before the fallback.
\<close>

definition detectFramework_part002 :: "pkgJson \<Rightarrow> dirents \<Rightarrow> framework" where
  "detectFramework_part002 pkg folder =
     (if declared (dependencies pkg) ''next'' \<or> declared (devDependencies pkg) ''next''
      then \<lparr>name = ''Next.js'', buildCommand = ''npm run build'', outDir = ''.next''\<rparr>
      else if declared (dependencies pkg) ''vite'' \<or> existsSync folder ''vite.config.js''
      then \<lparr>name = ''Vite'', buildCommand = ''npm run build'', outDir = ''dist''\<rparr>
      else if declared (dependencies pkg) ''react'' \<and> existsSync folder ''public''
      then \<lparr>name = ''CRA'', buildCommand = ''npm run build'', outDir = ''dist''\<rparr>
      else if declared (dependencies pkg) ''vue'' \<and> existsSync folder ''vue.config.js''
      then \<lparr>name = ''Vue'', buildCommand = ''npm run build'', outDir = ''dist''\<rparr>
      else if declared (dependencies pkg) ''astro'' \<and> existsSync folder ''astro.config.mjs''
      then \<lparr>name = ''Astro'', buildCommand = ''npm run build'', outDir = ''dist''\<rparr>
      else if declared (dependencies pkg) ''svelte'' \<and> existsSync folder ''svelte.config.js''
      then \<lparr>name = ''Svelte'', buildCommand = ''npm run build'', outDir = ''dist''\<rparr>
      else \<lparr>name = ''Unknown'', buildCommand = ''npm run build'', outDir = ''dist''\<rparr>)"

definition fallback :: framework where
  "fallback = \<lparr>name = ''Unknown'', buildCommand = ''npm run build'', outDir = ''dist''\<rparr>"

section \<open>Build executor\<close>

text \<open>
  What \<open>child_process.exec\<close> hands to its callback: \<open>err\<close> is \<open>null\<close> when the child
  exited with code 0 and its output stayed within \<open>maxBuffer\<close>, and otherwise an
  \<open>Error\<close> with a message and, for a child that ran to its end, its exit code;
  \<open>stdout\<close> and \<open>stderr\<close> are what was captured of what the child wrote.
\<close>

record exec_error =
  message :: string
  code :: "int option"

record exec_result =
  err :: "exec_error option"
  stdout :: string
  stderr :: string

text \<open>
  The callback of \<open>execPromise\<close>: \<open>reject(stderr || err.message)\<close> when \<open>err\<close> is set
  (an empty \<open>stderr\<close> is falsy), \<open>resolve(stdout)\<close> otherwise.
\<close>

definition execCallback :: "exec_result \<Rightarrow> thrown + string" where
  "execCallback r =
     (case err r of
        Some e \<Rightarrow> Inl (if stderr r \<noteq> [] then stderr r else message e)
      | None \<Rightarrow> Inr (stdout r))"

section \<open>The environment of a pipeline run\<close>

text \<open>
  What a run reads from outside the program: the clock, the configured URL suffix, the
  result of cloning a repository (the entries of the fresh scratch directory), the
  result of \<open>JSON.parse\<close> on a file's text, how a shell command answers and what it
  leaves in the scratch directory, the extension table of \<open>mime.lookup\<close>, and what
  \<open>fs.rmSync\<close> of a directory throws, if it throws.
  Every call to the outside returns or throws; a child process that never exits is
  outside this model (the program sets no timeout).
\<close>

record world =
  now :: string
  BASE_URL :: string
  git_clone :: "string \<Rightarrow> thrown + dirents"
  JSON_parse :: "string \<Rightarrow> thrown + pkgJson"
  exec :: "string \<Rightarrow> dirents \<Rightarrow> exec_result \<times> dirents"
  mime_lookup :: "string \<Rightarrow> string option"
  rmSync :: "string \<Rightarrow> thrown option"

section \<open>Persistent state\<close>

record s3object =
  Body :: string
  ContentType :: "string option"

datatype s3request =
    ListObjectsV2 string
  | DeleteObject string
  | PutObject string
  | GetObject string

text \<open>
  The calls that leave the process are recorded in order, whether they return or
  throw: the requests to the object store, the clone, the shell commands, the removal
  of the scratch directory, the statements sent to the record store that set a status,
  and the line the \<open>catch\<close> block of \<open>startBuild\<close> writes to the console
  (\<open>ConsoleLog\<close>, its two arguments without the pictograph the source puts in front).
  The progress lines written to the console are left out.
\<close>

datatype event =
    S3 s3request
  | GitClone string string
  | Exec string
  | RmSync string
  | DbInsert nat string
  | DbUpdate nat string
  | ConsoleLog string thrown

record build =
  build_id :: nat
  projectId :: nat
  build_status :: string
  build_number :: int
  build_url :: string
  build_log :: string

record project =
  project_id :: nat
  project_name :: string
  project_repo_url :: string

text \<open>
  How the record store answers a statement that writes: it applies the statement and
  answers; it refuses, and nothing is applied; or it applies the statement and the
  answer is lost, so that the \<open>await\<close> of the statement rejects all the same.
\<close>

datatype db_answer = Answered | Refused | Lost

text \<open>
  The bucket (\<open>objects\<close>, one entry per key), the rows of the \<open>builds\<close> and
  \<open>projects\<close> tables, and the trace of calls. \<open>s3_budget\<close> is the fault of the object
  store a run meets: \<open>None\<close> when every request is answered, \<open>Some n\<close> when the next
  \<open>n\<close> requests are answered and the requests after them throw.
  \<open>db_answers\<close> is the fault of the record store: the answers to the statements that
  write to \<open>builds\<close>, the first element for the next statement; past the end of the
  list every statement is applied and answered.
\<close>

record sys =
  objects :: "(string \<times> s3object) list"
  s3_budget :: "nat option"
  builds :: "build list"
  db_answers :: "db_answer list"
  projects :: "project list"
  trace :: "event list"

section \<open>Artifact store client\<close>

definition s3_up :: "sys \<Rightarrow> bool" where
  "s3_up s = (s3_budget s \<noteq> Some 0)"

definition s3_sent :: "s3request \<Rightarrow> sys \<Rightarrow> sys" where
  "s3_sent rq s =
     s\<lparr>s3_budget := map_option (\<lambda>n. n - 1) (s3_budget s), trace := trace s @ [S3 rq]\<rparr>"

text \<open>
  One \<open>ListObjectsV2\<close> request answers with at most \<open>MaxKeys\<close> keys, 1000 unless the
  request sets it, in ascending byte order of the keys; the rest is behind the
  continuation token of the answer. The requests of this program set neither
  \<open>MaxKeys\<close> nor \<open>ContinuationToken\<close>.
\<close>

definition list_page_limit :: nat where
  "list_page_limit = 1000"

definition send_ListObjectsV2 :: "string \<Rightarrow> sys \<Rightarrow> (thrown + string list) \<times> sys" where
  "send_ListObjectsV2 pfx s =
     (if s3_up s
      then (Inr (take list_page_limit (sort (filter (prefix pfx) (map fst (objects s))))),
            s3_sent (ListObjectsV2 pfx) s)
      else (Inl ''ArtifactStoreFailed'', s3_sent (ListObjectsV2 pfx) s))"

definition send_DeleteObject :: "string \<Rightarrow> sys \<Rightarrow> (thrown + unit) \<times> sys" where
  "send_DeleteObject k s =
     (if s3_up s
      then (Inr (), s3_sent (DeleteObject k) (s\<lparr>objects := AList.delete k (objects s)\<rparr>))
      else (Inl ''ArtifactStoreFailed'', s3_sent (DeleteObject k) s))"

definition send_PutObject :: "string \<Rightarrow> s3object \<Rightarrow> sys \<Rightarrow> (thrown + unit) \<times> sys" where
  "send_PutObject k ob s =
     (if s3_up s
      then (Inr (), s3_sent (PutObject k) (s\<lparr>objects := AList.update k ob (objects s)\<rparr>))
      else (Inl ''ArtifactStoreFailed'', s3_sent (PutObject k) s))"

definition send_GetObject :: "string \<Rightarrow> sys \<Rightarrow> (thrown + s3object) \<times> sys" where
  "send_GetObject k s =
     (if s3_up s
      then (case map_of (objects s) k of
              None \<Rightarrow> (Inl ''NoSuchKey'', s3_sent (GetObject k) s)
            | Some ob \<Rightarrow> (Inr ob, s3_sent (GetObject k) s))
      else (Inl ''ArtifactStoreFailed'', s3_sent (GetObject k) s))"

text \<open>The loop of \<open>deleteFolderFromR2\<close> over \<open>list.Contents\<close>.\<close>

fun delete_each :: "string list \<Rightarrow> sys \<Rightarrow> (thrown + unit) \<times> sys" where
  "delete_each [] s = (Inr (), s)"
| "delete_each (k # ks) s =
     (case send_DeleteObject k s of
        (Inl e, s') \<Rightarrow> (Inl e, s')
      | (Inr _, s') \<Rightarrow> delete_each ks s')"

definition deleteFolderFromR2 :: "string \<Rightarrow> sys \<Rightarrow> (thrown + unit) \<times> sys" where
  "deleteFolderFromR2 pfx s =
     (case send_ListObjectsV2 pfx s of
        (Inl e, s') \<Rightarrow> (Inl e, s')
      | (Inr contents, s') \<Rightarrow>
          if contents = [] then (Inr (), s') else delete_each contents s')"

text \<open>
  \<open>fs.readdirSync\<close> of the entry \<open>d\<close> of a directory: it throws when there is no such
  entry and when the entry is a file.
\<close>

definition readdirSync :: "dirents \<Rightarrow> string \<Rightarrow> thrown + dirents" where
  "readdirSync folder d =
     (case map_of folder d of
        None \<Rightarrow> Inl ''ENOENT''
      | Some (File _) \<Rightarrow> Inl ''ENOTDIR''
      | Some (Dir es) \<Rightarrow> Inr es)"

text \<open>
  \<open>uploadDirToR2\<close>, given the entries that \<open>readdirSync(dirPath)\<close> returned: a directory
  entry recurses with its name appended to \<open>subdomain\<close>, a file is put under
  \<open>subdomain/name\<close> with the content type of \<open>mime.lookup\<close>, or
  \<open>application/octet-stream\<close>. The first request that throws ends the walk.
\<close>

function uploadDirToR2 :: "world \<Rightarrow> dirents \<Rightarrow> string \<Rightarrow> sys \<Rightarrow> (thrown + unit) \<times> sys" where
  "uploadDirToR2 w [] subdomain s = (Inr (), s)"
| "uploadDirToR2 w ((entry, Dir sub) # rest) subdomain s =
     (case uploadDirToR2 w sub (subdomain @ ''/'' @ entry) s of
        (Inl e, s') \<Rightarrow> (Inl e, s')
      | (Inr _, s') \<Rightarrow> uploadDirToR2 w rest subdomain s')"
| "uploadDirToR2 w ((entry, File content) # rest) subdomain s =
     (case send_PutObject (subdomain @ ''/'' @ entry)
             \<lparr>Body = content,
              ContentType = Some (case mime_lookup w entry of
                                    None \<Rightarrow> ''application/octet-stream''
                                  | Some t \<Rightarrow> t)\<rparr> s of
        (Inl e, s') \<Rightarrow> (Inl e, s')
      | (Inr _, s') \<Rightarrow> uploadDirToR2 w rest subdomain s')"
  by pat_completeness auto
termination
  by (relation "measure (\<lambda>(w, es, subdomain, s). size_list (size_prod (\<lambda>_. 0) size) es)") auto

section \<open>Build executor in a run\<close>

text \<open>
  \<open>execPromise(cmd)\<close>: the command runs in the scratch directory, which it may change,
  and the promise settles as the callback says.
\<close>

definition execPromise ::
  "world \<Rightarrow> string \<Rightarrow> dirents \<Rightarrow> sys \<Rightarrow> (thrown + string) \<times> dirents \<times> sys" where
  "execPromise w cmd folder s =
     (case exec w cmd folder of
        (r, folder') \<Rightarrow> (execCallback r, folder', s\<lparr>trace := trace s @ [Exec cmd]\<rparr>))"

section \<open>Build pipeline\<close>

text \<open>
  \<open>JSON.parse(fs.readFileSync(pkgPath, "utf-8"))\<close> in the cloned tree. A manifest whose
  JSON is not an object makes the detector throw on its first property access; that
  outcome is part of \<open>JSON_parse\<close> here.
\<close>

definition readManifest :: "world \<Rightarrow> dirents \<Rightarrow> thrown + pkgJson" where
  "readManifest w folder =
     (case map_of folder ''package.json'' of
        None \<Rightarrow> Inl ''ENOENT''
      | Some (Dir _) \<Rightarrow> Inl ''EISDIR''
      | Some (File txt) \<Rightarrow> JSON_parse w txt)"

text \<open>The identity column of \<open>builds\<close>: a value above every value in use.\<close>

definition fresh_id :: "build list \<Rightarrow> nat" where
  "fresh_id bs = Suc (foldr max (map build_id bs) 0)"

text \<open>
  A statement that writes to \<open>builds\<close> takes the next answer of the record store.
\<close>

definition db_next :: "sys \<Rightarrow> db_answer" where
  "db_next s = (case db_answers s of [] \<Rightarrow> Answered | a # _ \<Rightarrow> a)"

definition db_sent :: "event \<Rightarrow> sys \<Rightarrow> sys" where
  "db_sent ev s = s\<lparr>db_answers := tl (db_answers s), trace := trace s @ [ev]\<rparr>"

text \<open>
  \<open>await db.insert(builds).values({...}).returning()\<close> and \<open>inserted[0].id\<close>: the
  identifier of the new row, or the value the \<open>await\<close> throws.
\<close>

definition insertBuild :: "world \<Rightarrow> nat \<Rightarrow> string \<Rightarrow> sys \<Rightarrow> (thrown + nat) \<times> sys" where
  "insertBuild w pid projectName s =
     (let buildId = fresh_id (builds s);
          row = \<lparr>build_id = buildId, projectId = pid, build_status = ''pending'',
                 build_number = 1,
                 build_url = ''https://'' @ projectName @ BASE_URL w,
                 build_log = []\<rparr>;
          s' = db_sent (DbInsert buildId ''pending'') s
      in case db_next s of
           Answered \<Rightarrow> (Inr buildId, s'\<lparr>builds := builds s @ [row]\<rparr>)
         | Lost \<Rightarrow> (Inl ''RecordStoreFailed'', s'\<lparr>builds := builds s @ [row]\<rparr>)
         | Refused \<Rightarrow> (Inl ''RecordStoreFailed'', s'))"

text \<open>\<open>update(builds).set({build_status}).where(eq(builds.id, buildId))\<close> on the rows.\<close>

definition set_status :: "nat \<Rightarrow> string \<Rightarrow> build list \<Rightarrow> build list" where
  "set_status bid st bs = map (\<lambda>b. if build_id b = bid then b\<lparr>build_status := st\<rparr> else b) bs"

text \<open>\<open>await db.update(builds).set({build_status}).where(eq(builds.id, buildId))\<close>.\<close>

definition updateStatus :: "nat \<Rightarrow> string \<Rightarrow> sys \<Rightarrow> (thrown + unit) \<times> sys" where
  "updateStatus buildId st s =
     (let s' = db_sent (DbUpdate buildId st) s
      in case db_next s of
           Answered \<Rightarrow> (Inr (), s'\<lparr>builds := set_status buildId st (builds s)\<rparr>)
         | Lost \<Rightarrow> (Inl ''RecordStoreFailed'', s'\<lparr>builds := set_status buildId st (builds s)\<rparr>)
         | Refused \<Rightarrow> (Inl ''RecordStoreFailed'', s'))"

text \<open>
  The steps of a run, in the order of section 4.4 of the specification: \<open>Create\<close> is
  the insertion of the row in front of the \<open>try\<close> block, \<open>Remove\<close> the removal of the
  scratch directory and \<open>Mark\<close> the update of the status to \<open>success\<close>, the last two
  statements of the block.
\<close>

datatype stage = Create | Clone | Manifest | Install | Build | Delete | Upload | Remove | Mark

text \<open>
  The body of the \<open>try\<close> block of \<open>startBuild\<close>. A thrown value is returned with the
  stage it came from. \<open>fs.rmSync\<close> and the update to \<open>success\<close> are statements of the
  block: what they throw is caught like the rest.
\<close>

definition tryBody ::
  "world \<Rightarrow> nat \<Rightarrow> string \<Rightarrow> string \<Rightarrow> string \<Rightarrow> sys \<Rightarrow> ((stage \<times> thrown) + unit) \<times> sys" where
  "tryBody w buildId projectName repo_url tempFolder s =
     (let s1 = s\<lparr>trace := trace s @ [GitClone repo_url tempFolder]\<rparr> in
      case git_clone w repo_url of
        Inl e \<Rightarrow> (Inl (Clone, e), s1)
      | Inr cloned \<Rightarrow>
      (case readManifest w cloned of
        Inl e \<Rightarrow> (Inl (Manifest, e), s1)
      | Inr pkg \<Rightarrow>
      (let fw = detectFramework pkg cloned in
       case execPromise w (''cd '' @ tempFolder @ '' && npm install'') cloned s1 of
        (Inl e, installed, s2) \<Rightarrow> (Inl (Install, e), s2)
      | (Inr _, installed, s2) \<Rightarrow>
      (case execPromise w (''cd '' @ tempFolder @ '' && '' @ buildCommand fw) installed s2 of
        (Inl e, built, s3) \<Rightarrow> (Inl (Build, e), s3)
      | (Inr _, built, s3) \<Rightarrow>
      (case deleteFolderFromR2 (projectName @ ''/'') s3 of
        (Inl e, s4) \<Rightarrow> (Inl (Delete, e), s4)
      | (Inr _, s4) \<Rightarrow>
      (case (case readdirSync built (outDir fw) of
               Inl e \<Rightarrow> (Inl e, s4)
             | Inr es \<Rightarrow> uploadDirToR2 w es projectName s4) of
        (Inl e, s5) \<Rightarrow> (Inl (Upload, e), s5)
      | (Inr _, s5) \<Rightarrow>
      (let s6 = s5\<lparr>trace := trace s5 @ [RmSync tempFolder]\<rparr> in
       case rmSync w tempFolder of
        Some e \<Rightarrow> (Inl (Remove, e), s6)
      | None \<Rightarrow>
      (case updateStatus buildId ''success'' s6 of
        (Inl e, s7) \<Rightarrow> (Inl (Mark, e), s7)
      | (Inr _, s7) \<Rightarrow> (Inr (), s7)))))))))"

definition tempFolderOf :: "world \<Rightarrow> string \<Rightarrow> string" where
  "tempFolderOf w projectName = ''./tmp/'' @ now w @ ''-'' @ projectName"

text \<open>
  \<open>startBuild\<close> is an \<open>async\<close> function: \<open>startBuild_promise\<close> gives how its promise
  settles and the state the call leaves. The insertion is awaited in front of the
  \<open>try\<close> block, so what it throws rejects the promise and nothing else is done.
  Otherwise the \<open>try\<close> block runs, and what it throws is caught: the \<open>catch\<close> block
  logs the thrown value to the console and awaits the update of the status to
  \<open>failed\<close>, which rejects the promise when it throws.
\<close>

definition startBuild_promise ::
  "world \<Rightarrow> nat \<Rightarrow> string \<Rightarrow> string \<Rightarrow> sys \<Rightarrow> (thrown + unit) \<times> sys" where
  "startBuild_promise w pid projectName repo_url s =
     (case insertBuild w pid projectName s of
        (Inl e, s0) \<Rightarrow> (Inl e, s0)
      | (Inr buildId, s0) \<Rightarrow>
      (case tryBody w buildId projectName repo_url (tempFolderOf w projectName) s0 of
        (Inr _, s') \<Rightarrow> (Inr (), s')
      | (Inl (stg, e), s') \<Rightarrow>
          updateStatus buildId ''failed''
            (s'\<lparr>trace := trace s' @ [ConsoleLog ''Build Failed'' e]\<rparr>)))"

text \<open>
  No caller awaits the promise (\<open>startBuild(p.id, p.name, repo_url)\<close> in the webhook
  handler): what a call leaves behind is the state.
\<close>

definition startBuild :: "world \<Rightarrow> nat \<Rightarrow> string \<Rightarrow> string \<Rightarrow> sys \<Rightarrow> sys" where
  "startBuild w pid projectName repo_url s = snd (startBuild_promise w pid projectName repo_url s)"

text \<open>
  The run up to the end of the \<open>try\<close> block: what was thrown and at which step, the
  insertion in front of the block included, and the state at that point.
\<close>

definition attempt ::
  "world \<Rightarrow> nat \<Rightarrow> string \<Rightarrow> string \<Rightarrow> sys \<Rightarrow> ((stage \<times> thrown) + unit) \<times> sys" where
  "attempt w pid projectName repo_url s =
     (case insertBuild w pid projectName s of
        (Inl e, s0) \<Rightarrow> (Inl (Create, e), s0)
      | (Inr buildId, s0) \<Rightarrow>
          tryBody w buildId projectName repo_url (tempFolderOf w projectName) s0)"

text \<open>The rows a sequence of runs leaves, each run with its own environment.\<close>

fun runs :: "(world \<times> nat \<times> string \<times> string) list \<Rightarrow> sys \<Rightarrow> sys" where
  "runs [] s = s"
| "runs ((w, pid, projectName, repo_url) # rest) s = runs rest (startBuild w pid projectName repo_url s)"

section \<open>Webhook adapter\<close>

record json_reply =
  success :: bool
  reply_message :: string

text \<open>
  The handler of \<open>POST /api/webhook\<close> for a payload with the given \<open>clone_url\<close>: its reply,
  and the calls of \<open>startBuild\<close> it makes without awaiting them.
\<close>

definition webhook :: "string \<Rightarrow> sys \<Rightarrow> json_reply \<times> (nat \<times> string \<times> string) list" where
  "webhook clone_url s =
     (case filter (\<lambda>p. project_repo_url p = clone_url) (projects s) of
        [] \<Rightarrow> (\<lparr>success = False, reply_message = ''Project not registered''\<rparr>, [])
      | p # _ \<Rightarrow>
          (\<lparr>success = True, reply_message = ''Build started''\<rparr>,
           [(project_id p, project_name p, clone_url)]))"

text \<open>The request together with the detached runs it started, run to their end.\<close>

definition webhook_request :: "world \<Rightarrow> string \<Rightarrow> sys \<Rightarrow> json_reply \<times> sys" where
  "webhook_request w clone_url s =
     (case webhook clone_url s of
        (reply, started) \<Rightarrow> (reply, runs (map (\<lambda>args. (w, args)) started) s))"

section \<open>Publish resolver\<close>

record http_response =
  status :: nat
  content_type :: string
  text_body :: string

text \<open>\<open>str.split(sep)\<close> for a one-character separator.\<close>

fun split :: "char \<Rightarrow> string \<Rightarrow> string list" where
  "split sep [] = [[]]"
| "split sep (c # cs) =
     (if c = sep then [] # split sep cs
      else (case split sep cs of
              [] \<Rightarrow> [[c]]
            | x # xs \<Rightarrow> (c # x) # xs))"

text \<open>\<open>str.replace(pat, "")\<close> for a string pattern: the first occurrence is removed.\<close>

fun remove_first :: "string \<Rightarrow> string \<Rightarrow> string" where
  "remove_first pat [] = []"
| "remove_first pat (c # cs) =
     (if prefix pat (c # cs) then drop (length pat) (c # cs) else c # remove_first pat cs)"

definition reqPath :: "string \<Rightarrow> string" where
  "reqPath path = (if path = ''/'' then ''/index.html'' else path)"

text \<open>The answer of both handlers once the key is known.\<close>

definition serve_key :: "string \<Rightarrow> sys \<Rightarrow> http_response \<times> sys" where
  "serve_key k s =
     (case send_GetObject k s of
        (Inl e, s') \<Rightarrow>
          (\<lparr>status = 404, content_type = ''text/plain; charset=UTF-8'', text_body = ''Not Found''\<rparr>, s')
      | (Inr ob, s') \<Rightarrow>
          (\<lparr>status = 200,
            content_type = (case ContentType ob of
                              None \<Rightarrow> ''text/html''
                            | Some t \<Rightarrow> if t = [] then ''text/html'' else t),
            text_body = Body ob\<rparr>, s'))"

text \<open>
  \<open>app.get("*")\<close> of \<open>src/unnamed/part_001\<close>: the namespace is \<open>host.split(".")[0]\<close>.
  The host is the \<open>Host\<close> header, or the empty string when there is none.
\<close>

definition subdomain_part001 :: "string option \<Rightarrow> string" where
  "subdomain_part001 header =
     (case split (CHR ''.'') (case header of None \<Rightarrow> [] | Some h \<Rightarrow> h) of
        [] \<Rightarrow> ''undefined''
      | x # _ \<Rightarrow> x)"

definition serve_part001 :: "string option \<Rightarrow> string \<Rightarrow> sys \<Rightarrow> http_response \<times> sys" where
  "serve_part001 header path s = serve_key (subdomain_part001 header @ reqPath path) s"

text \<open>
  \<open>app.get("*")\<close> of \<open>src/unnamed/part_002\<close>: the namespace is
  \<open>host.replace(`.${domainRoot}`, "")\<close>. \<open>serve_apex\<close> is the handler for any
  \<open>domainRoot\<close>, \<open>serve_part002\<close> the one with the constant of the source.
\<close>

definition subdomain_apex :: "string \<Rightarrow> string option \<Rightarrow> string" where
  "subdomain_apex root header =
     remove_first (''.'' @ root) (case header of None \<Rightarrow> [] | Some h \<Rightarrow> h)"

definition serve_apex :: "string \<Rightarrow> string option \<Rightarrow> string \<Rightarrow> sys \<Rightarrow> http_response \<times> sys" where
  "serve_apex root header path s = serve_key (subdomain_apex root header @ reqPath path) s"

definition domainRoot :: string where
  "domainRoot = ''devploy-backend.avijit.site''"

definition serve_part002 :: "string option \<Rightarrow> string \<Rightarrow> sys \<Rightarrow> http_response \<times> sys" where
  "serve_part002 = serve_apex domainRoot"

section \<open>Notions used to state the properties\<close>

subsection \<open>Kinds of calls in a trace\<close>

fun is_status_write :: "event \<Rightarrow> bool" where
  "is_status_write (DbInsert _ _) = True"
| "is_status_write (DbUpdate _ _) = True"
| "is_status_write _ = False"

fun is_exec :: "event \<Rightarrow> bool" where
  "is_exec (Exec _) = True"
| "is_exec _ = False"

fun is_s3 :: "event \<Rightarrow> bool" where
  "is_s3 (S3 _) = True"
| "is_s3 _ = False"

fun is_put :: "event \<Rightarrow> bool" where
  "is_put (S3 (PutObject _)) = True"
| "is_put _ = False"

fun is_delete :: "event \<Rightarrow> bool" where
  "is_delete (S3 (DeleteObject _)) = True"
| "is_delete _ = False"

fun is_list_or_delete :: "event \<Rightarrow> bool" where
  "is_list_or_delete (S3 (ListObjectsV2 _)) = True"
| "is_list_or_delete (S3 (DeleteObject _)) = True"
| "is_list_or_delete _ = False"

fun is_rm :: "event \<Rightarrow> bool" where
  "is_rm (RmSync _) = True"
| "is_rm _ = False"

text \<open>The calls a run added to the trace it started from.\<close>

definition calls_of_run :: "world \<Rightarrow> nat \<Rightarrow> string \<Rightarrow> string \<Rightarrow> sys \<Rightarrow> event list" where
  "calls_of_run w pid projectName repo_url s =
     drop (length (trace s)) (trace (startBuild w pid projectName repo_url s))"

text \<open>The position of a stage in the sequence of section 4.4 of the specification.\<close>

fun stage_rank :: "stage \<Rightarrow> nat" where
  "stage_rank Create = 1"
| "stage_rank Clone = 2"
| "stage_rank Manifest = 3"
| "stage_rank Install = 4"
| "stage_rank Build = 4"
| "stage_rank Delete = 5"
| "stage_rank Upload = 6"
| "stage_rank Remove = 7"
| "stage_rank Mark = 8"

subsection \<open>The answers of the record store\<close>

text \<open>
  The record store applies and answers every statement to come; the record store
  refuses none of them (the answer to one it applied may be lost).
\<close>

definition answered_all :: "sys \<Rightarrow> bool" where
  "answered_all s = list_all (\<lambda>a. a = Answered) (db_answers s)"

definition refused_none :: "sys \<Rightarrow> bool" where
  "refused_none s = list_all (\<lambda>a. a \<noteq> Refused) (db_answers s)"

subsection \<open>A stage that fails\<close>

text \<open>
  The stages in front of the delete stage go through: the clone, the reading of the
  manifest, the install step and the build step return; \<open>fw\<close> is what the detector
  chose and \<open>built\<close> the scratch directory as the build step left it.
\<close>

inductive commands_pass :: "world \<Rightarrow> string \<Rightarrow> string \<Rightarrow> framework \<Rightarrow> dirents \<Rightarrow> bool"
  for w :: world and projectName :: string and repo_url :: string
where
  commands_passI:
    "git_clone w repo_url = Inr cloned \<Longrightarrow>
     readManifest w cloned = Inr pkg \<Longrightarrow>
     exec w (''cd '' @ tempFolderOf w projectName @ '' && npm install'') cloned = (r1, installed) \<Longrightarrow>
     execCallback r1 = Inr out1 \<Longrightarrow>
     exec w (''cd '' @ tempFolderOf w projectName @ '' && '' @
               buildCommand (detectFramework pkg cloned)) installed = (r2, built) \<Longrightarrow>
     execCallback r2 = Inr out2 \<Longrightarrow>
     commands_pass w projectName repo_url (detectFramework pkg cloned) built"

text \<open>The state in which the delete stage starts: the calls in front of it are on the trace.\<close>

definition after_commands :: "world \<Rightarrow> string \<Rightarrow> string \<Rightarrow> framework \<Rightarrow> sys \<Rightarrow> sys" where
  "after_commands w projectName repo_url fw s =
     s\<lparr>trace := trace s @
        [GitClone repo_url (tempFolderOf w projectName),
         Exec (''cd '' @ tempFolderOf w projectName @ '' && npm install''),
         Exec (''cd '' @ tempFolderOf w projectName @ '' && '' @ buildCommand fw)]\<rparr>"

text \<open>
  \<open>stage_fails w buildId projectName repo_url s stg e\<close>: in a run whose \<open>try\<close> block
  starts in state \<open>s\<close> for the row \<open>buildId\<close>, the stages in front of \<open>stg\<close> return and
  \<open>stg\<close> throws \<open>e\<close>. The clone throws; the manifest cannot be read or parsed; a
  command calls back with an error; the listing or a deletion of the delete stage
  throws; the output directory cannot be listed, or a put of the upload throws; the
  removal of the scratch directory throws; the update of the status to \<open>success\<close>
  throws.
\<close>

inductive stage_fails ::
  "world \<Rightarrow> nat \<Rightarrow> string \<Rightarrow> string \<Rightarrow> sys \<Rightarrow> stage \<Rightarrow> thrown \<Rightarrow> bool"
  for w :: world and buildId :: nat and projectName :: string and repo_url :: string and s :: sys
where
  clone_fails:
    "git_clone w repo_url = Inl e \<Longrightarrow>
     stage_fails w buildId projectName repo_url s Clone e"
| manifest_fails:
    "git_clone w repo_url = Inr cloned \<Longrightarrow>
     readManifest w cloned = Inl e \<Longrightarrow>
     stage_fails w buildId projectName repo_url s Manifest e"
| install_fails:
    "git_clone w repo_url = Inr cloned \<Longrightarrow>
     readManifest w cloned = Inr pkg \<Longrightarrow>
     exec w (''cd '' @ tempFolderOf w projectName @ '' && npm install'') cloned = (r1, installed) \<Longrightarrow>
     execCallback r1 = Inl e \<Longrightarrow>
     stage_fails w buildId projectName repo_url s Install e"
| build_fails:
    "git_clone w repo_url = Inr cloned \<Longrightarrow>
     readManifest w cloned = Inr pkg \<Longrightarrow>
     exec w (''cd '' @ tempFolderOf w projectName @ '' && npm install'') cloned = (r1, installed) \<Longrightarrow>
     execCallback r1 = Inr out1 \<Longrightarrow>
     exec w (''cd '' @ tempFolderOf w projectName @ '' && '' @
               buildCommand (detectFramework pkg cloned)) installed = (r2, built) \<Longrightarrow>
     execCallback r2 = Inl e \<Longrightarrow>
     stage_fails w buildId projectName repo_url s Build e"
| delete_fails:
    "commands_pass w projectName repo_url fw built \<Longrightarrow>
     deleteFolderFromR2 (projectName @ ''/'') (after_commands w projectName repo_url fw s) =
       (Inl e, s4) \<Longrightarrow>
     stage_fails w buildId projectName repo_url s Delete e"
| listing_fails:
    "commands_pass w projectName repo_url fw built \<Longrightarrow>
     deleteFolderFromR2 (projectName @ ''/'') (after_commands w projectName repo_url fw s) =
       (Inr u4, s4) \<Longrightarrow>
     readdirSync built (outDir fw) = Inl e \<Longrightarrow>
     stage_fails w buildId projectName repo_url s Upload e"
| put_fails:
    "commands_pass w projectName repo_url fw built \<Longrightarrow>
     deleteFolderFromR2 (projectName @ ''/'') (after_commands w projectName repo_url fw s) =
       (Inr u4, s4) \<Longrightarrow>
     readdirSync built (outDir fw) = Inr es \<Longrightarrow>
     uploadDirToR2 w es projectName s4 = (Inl e, s5) \<Longrightarrow>
     stage_fails w buildId projectName repo_url s Upload e"
| remove_fails:
    "commands_pass w projectName repo_url fw built \<Longrightarrow>
     deleteFolderFromR2 (projectName @ ''/'') (after_commands w projectName repo_url fw s) =
       (Inr u4, s4) \<Longrightarrow>
     readdirSync built (outDir fw) = Inr es \<Longrightarrow>
     uploadDirToR2 w es projectName s4 = (Inr u5, s5) \<Longrightarrow>
     rmSync w (tempFolderOf w projectName) = Some e \<Longrightarrow>
     stage_fails w buildId projectName repo_url s Remove e"
| mark_fails:
    "commands_pass w projectName repo_url fw built \<Longrightarrow>
     deleteFolderFromR2 (projectName @ ''/'') (after_commands w projectName repo_url fw s) =
       (Inr u4, s4) \<Longrightarrow>
     readdirSync built (outDir fw) = Inr es \<Longrightarrow>
     uploadDirToR2 w es projectName s4 = (Inr u5, s5) \<Longrightarrow>
     rmSync w (tempFolderOf w projectName) = None \<Longrightarrow>
     updateStatus buildId ''success''
       (s5\<lparr>trace := trace s5 @ [RmSync (tempFolderOf w projectName)]\<rparr>) = (Inl e, s7) \<Longrightarrow>
     stage_fails w buildId projectName repo_url s Mark e"

subsection \<open>Files of a directory tree\<close>

text \<open>
  The relative paths of the files of a tree, depth first, and their number; \<open>puts\<close>
  lists the key and the object of every file as the walk of \<open>uploadDirToR2\<close> meets them.
\<close>

fun rel_paths :: "dirents \<Rightarrow> string list" where
  "rel_paths [] = []"
| "rel_paths ((entry, File content) # rest) = entry # rel_paths rest"
| "rel_paths ((entry, Dir sub) # rest) =
     map (\<lambda>p. entry @ ''/'' @ p) (rel_paths sub) @ rel_paths rest"

fun count_files :: "dirents \<Rightarrow> nat" where
  "count_files [] = 0"
| "count_files ((entry, File content) # rest) = Suc (count_files rest)"
| "count_files ((entry, Dir sub) # rest) = count_files sub + count_files rest"

fun puts :: "world \<Rightarrow> dirents \<Rightarrow> string \<Rightarrow> (string \<times> s3object) list" where
  "puts w [] subdomain = []"
| "puts w ((entry, Dir sub) # rest) subdomain =
     puts w sub (subdomain @ ''/'' @ entry) @ puts w rest subdomain"
| "puts w ((entry, File content) # rest) subdomain =
     (subdomain @ ''/'' @ entry,
      \<lparr>Body = content,
       ContentType = Some (case mime_lookup w entry of
                             None \<Rightarrow> ''application/octet-stream''
                           | Some t \<Rightarrow> t)\<rparr>) # puts w rest subdomain"

text \<open>The keys of the bucket in the artifact namespace of a project.\<close>

definition namespace_keys :: "string \<Rightarrow> sys \<Rightarrow> string list" where
  "namespace_keys projectName s = filter (prefix (projectName @ ''/'')) (map fst (objects s))"

subsection \<open>The resolver in the words of the specification\<close>

text \<open>
  Section 4.5 of the specification names the namespace as the leftmost label of the
  host, or the host with the apex suffix stripped.
\<close>

definition leftmost_label :: "string \<Rightarrow> string" where
  "leftmost_label host = takeWhile (\<lambda>c. c \<noteq> CHR ''.'') host"

definition strip_apex_suffix :: "string \<Rightarrow> string \<Rightarrow> string" where
  "strip_apex_suffix root host =
     (if suffix (''.'' @ root) host then take (length host - length (''.'' @ root)) host
      else host)"

subsection \<open>The output directory of a run\<close>

text \<open>
  What the stages of a run that do not touch the object store give: the listing of
  the output directory the upload stage reads, or the thrown value and its stage.
\<close>

definition built_output :: "world \<Rightarrow> string \<Rightarrow> string \<Rightarrow> (stage \<times> thrown) + dirents" where
  "built_output w projectName repo_url =
     (case git_clone w repo_url of
        Inl e \<Rightarrow> Inl (Clone, e)
      | Inr cloned \<Rightarrow>
      (case readManifest w cloned of
        Inl e \<Rightarrow> Inl (Manifest, e)
      | Inr pkg \<Rightarrow>
      (case exec w (''cd '' @ tempFolderOf w projectName @ '' && npm install'') cloned of
        (r1, installed) \<Rightarrow>
      (case execCallback r1 of
        Inl e \<Rightarrow> Inl (Install, e)
      | Inr _ \<Rightarrow>
      (case exec w (''cd '' @ tempFolderOf w projectName @ '' && '' @
                     buildCommand (detectFramework pkg cloned)) installed of
        (r2, built) \<Rightarrow>
      (case execCallback r2 of
        Inl e \<Rightarrow> Inl (Build, e)
      | Inr _ \<Rightarrow>
      (case readdirSync built (outDir (detectFramework pkg cloned)) of
        Inl e \<Rightarrow> Inl (Upload, e)
      | Inr es \<Rightarrow> Inr es)))))))"

text \<open>The keys that one listing of a prefix returns.\<close>

definition first_page :: "string \<Rightarrow> sys \<Rightarrow> string list" where
  "first_page pfx s = take list_page_limit (sort (filter (prefix pfx) (map fst (objects s))))"

section \<open>Concrete inputs\<close>

definition sys0 :: sys where
  "sys0 = \<lparr>objects = [], s3_budget = None, builds = [], db_answers = [], projects = [],
            trace = []\<rparr>"

definition exit0 :: exec_result where
  "exit0 = \<lparr>err = None, stdout = ''done'', stderr = []\<rparr>"

definition exit1 :: exec_result where
  "exit1 = \<lparr>err = Some \<lparr>message = ''Command failed: npm'', code = Some 1\<rparr>,
            stdout = ''partial'', stderr = ''boom''\<rparr>"

definition site :: dirents where
  "site = [(''index.html'', File ''<h1>new</h1>''),
           (''assets'', Dir [(''app.js'', File ''main()'')])]"

text \<open>
  An environment in which every stage goes through: the repository holds a manifest
  with no dependencies, both commands exit with code 0, the build of project \<open>app\<close>
  leaves \<open>site\<close> in \<open>dist\<close>, and the scratch directory is removed.
\<close>

definition world0 :: world where
  "world0 =
     \<lparr>now = ''1700000000000'',
      BASE_URL = ''.example.com'',
      git_clone = (\<lambda>url. Inr [(''package.json'', File ''{}'')]),
      JSON_parse = (\<lambda>txt. Inr \<lparr>dependencies = None, devDependencies = None\<rparr>),
      exec = (\<lambda>cmd folder.
                (exit0,
                 if cmd = ''cd ./tmp/1700000000000-app && npm run build''
                 then (''dist'', Dir site) # folder else folder)),
      mime_lookup = (\<lambda>n. if n = ''index.html'' then Some ''text/html'' else None),
      rmSync = (\<lambda>folder. None)\<rparr>"

text \<open>
  A bucket in which the namespace of project \<open>app\<close> holds 1001 objects, with keys
  \<open>app/a\<close>, \<open>app/aa\<close> and so on.
\<close>

definition old_key :: "nat \<Rightarrow> string" where
  "old_key n = ''app/a'' @ replicate n (CHR ''a'')"

definition old_object :: s3object where
  "old_object = \<lparr>Body = ''old'', ContentType = Some ''text/html''\<rparr>"

definition crowded :: sys where
  "crowded = sys0\<lparr>objects := map (\<lambda>n. (old_key n, old_object)) [0..<1001]\<rparr>"

definition no_such_repo :: world where
  "no_such_repo = world0\<lparr>git_clone := \<lambda>url. Inl ''fatal: repository not found''\<rparr>"

definition build_exits_1 :: world where
  "build_exits_1 =
     world0\<lparr>exec := \<lambda>cmd folder.
       (if cmd = ''cd ./tmp/1700000000000-app && npm run build'' then exit1 else exit0, folder)\<rparr>"

definition no_output_dir :: world where
  "no_output_dir = world0\<lparr>exec := \<lambda>cmd folder. (exit0, folder)\<rparr>"

definition registry :: sys where
  "registry = sys0\<lparr>projects :=
     [\<lparr>project_id = 7, project_name = ''app'', project_repo_url = ''https://github.com/o/app.git''\<rparr>,
      \<lparr>project_id = 9, project_name = ''blog'', project_repo_url = ''https://github.com/o/blog.git''\<rparr>]\<rparr>"

text \<open>A bucket that holds the index page of project \<open>myapp\<close> and a page in a folder.\<close>

definition published :: sys where
  "published = sys0\<lparr>objects :=
     [(''myapp/index.html'', \<lparr>Body = ''<h1>home</h1>'', ContentType = Some ''text/html''\<rparr>),
      (''myapp/about'', \<lparr>Body = ''about'', ContentType = None\<rparr>),
      (''myapp/foo/index.html'', \<lparr>Body = ''foo'', ContentType = Some ''text/html''\<rparr>)]\<rparr>"

text \<open>A bucket with an earlier deployment of project \<open>app\<close> beside another project.\<close>

definition deployed :: sys where
  "deployed = sys0\<lparr>objects :=
     [(''app/old.html'', old_object), (''blog/index.html'', old_object),
      (''app/css/old.css'', old_object)]\<rparr>"

section \<open>Toolchain detector: the development dependency group\<close>

text \<open>
  C10, as stated, fails: a manifest that lists \<open>vite\<close> only under \<open>devDependencies\<close>,
  in a tree without \<open>vite.config.js\<close>, is not sent to the fallback when it also lists
  \<open>next\<close>; the first rule answers \<open>Next.js\<close>.
\<close>

theorem detector_dev_group_counterexample:
  "declared (devDependencies \<lparr>dependencies = Some [],
       devDependencies = Some [(''next'', ''14.2.0''), (''vite'', ''5.0.0'')]\<rparr>) ''vite'' \<and>
   \<not> declared (dependencies \<lparr>dependencies = Some [],
       devDependencies = Some [(''next'', ''14.2.0''), (''vite'', ''5.0.0'')]\<rparr>) ''vite'' \<and>
   \<not> existsSync [(''package.json'', File ''{}'')] ''vite.config.js'' \<and>
   detectFramework \<lparr>dependencies = Some [],
       devDependencies = Some [(''next'', ''14.2.0''), (''vite'', ''5.0.0'')]\<rparr>
     [(''package.json'', File ''{}'')] \<noteq> fallback \<and>
   name (detectFramework \<lparr>dependencies = Some [],
       devDependencies = Some [(''next'', ''14.2.0''), (''vite'', ''5.0.0'')]\<rparr>
     [(''package.json'', File ''{}'')]) = ''Next.js''"
  by (simp add: detectFramework_def declared_def existsSync_def fallback_def)

text \<open>
  C10, amended: when \<open>next\<close> is declared in neither group, \<open>vite\<close>, \<open>react\<close> and
  \<open>vue\<close> are not declared under \<open>dependencies\<close> and there is no \<open>vite.config.js\<close>,
  \<open>detectFramework\<close> returns the fallback, whatever \<open>devDependencies\<close> declares; the
  detector of the earlier revision does so when \<open>astro\<close> and \<open>svelte\<close> are not declared
  under \<open>dependencies\<close> either.
\<close>

theorem detector_ignores_dev_group:
  "\<not> declared (dependencies pkg) ''next'' \<Longrightarrow>
   \<not> declared (devDependencies pkg) ''next'' \<Longrightarrow>
   \<not> declared (dependencies pkg) ''vite'' \<Longrightarrow>
   \<not> declared (dependencies pkg) ''react'' \<Longrightarrow>
   \<not> declared (dependencies pkg) ''vue'' \<Longrightarrow>
   \<not> existsSync folder ''vite.config.js'' \<Longrightarrow>
   detectFramework pkg folder = fallback \<and>
   (\<not> declared (dependencies pkg) ''astro'' \<and> \<not> declared (dependencies pkg) ''svelte'' \<longrightarrow>
      detectFramework_part002 pkg folder = fallback)"
  by (simp add: detectFramework_def detectFramework_part002_def fallback_def)

text \<open>
  The amended C10 at a manifest that declares \<open>vite\<close>, \<open>react\<close> and \<open>vue\<close> under
  \<open>devDependencies\<close> only.
\<close>

theorem detector_ignores_dev_group_witness:
  "declared (Some [(''vite'', ''5.0.0''), (''react'', ''18.2.0''), (''vue'', ''3.4.0'')]) ''vite'' \<and>
   declared (Some [(''vite'', ''5.0.0''), (''react'', ''18.2.0''), (''vue'', ''3.4.0'')]) ''react'' \<and>
   declared (Some [(''vite'', ''5.0.0''), (''react'', ''18.2.0''), (''vue'', ''3.4.0'')]) ''vue'' \<and>
   detectFramework
     \<lparr>dependencies = Some [(''lodash'', ''4.17.21'')],
      devDependencies = Some [(''vite'', ''5.0.0''), (''react'', ''18.2.0''), (''vue'', ''3.4.0'')]\<rparr>
     [(''package.json'', File ''{}'')] = fallback \<and>
   detectFramework_part002
     \<lparr>dependencies = Some [(''lodash'', ''4.17.21'')],
      devDependencies = Some [(''vite'', ''5.0.0''), (''react'', ''18.2.0''), (''vue'', ''3.4.0'')]\<rparr>
     [(''package.json'', File ''{}'')] = fallback"
  using detector_ignores_dev_group
    [of "\<lparr>dependencies = Some [(''lodash'', ''4.17.21'')],
      devDependencies = Some [(''vite'', ''5.0.0''), (''react'', ''18.2.0''), (''vue'', ''3.4.0'')]\<rparr>"
        "[(''package.json'', File ''{}'')]"]
  by (simp add: declared_def existsSync_def)

section \<open>Build executor: what a failed command rejects with\<close>

text \<open>
  C6, as stated, fails: two children that differ in what they wrote to standard output
  and in their exit code, and wrote the same text to standard error, make
  \<open>execPromise\<close> reject with the same value, the standard-error text. The rejection
  carries neither the partial output nor the exit code.
\<close>

theorem execPromise_error_counterexample:
  "fst (execPromise (world0\<lparr>exec := \<lambda>c f. (exit1, f)\<rparr>) ''cd ./tmp/1-app && npm install'' [] sys0)
     = Inl ''boom'' \<and>
   fst (execPromise
          (world0\<lparr>exec := \<lambda>c f. (\<lparr>err = Some \<lparr>message = ''Command failed: npm'', code = Some 2\<rparr>,
                                   stdout = ''other output'', stderr = ''boom''\<rparr>, f)\<rparr>)
          ''cd ./tmp/1-app && npm install'' [] sys0)
     = Inl ''boom'' \<and>
   stdout exit1 = ''partial'' \<and> map_option code (err exit1) = Some (Some 1)"
  by (simp add: execPromise_def execCallback_def exit1_def)

text \<open>
  C6, amended: \<open>execPromise\<close> resolves with the captured standard output when \<open>exec\<close>
  calls back without an error (the child exited with code 0 and its output stayed
  within \<open>maxBuffer\<close>); otherwise it rejects with one string, the standard-error text
  when that is not empty and the message of the error when it is, and the rejection
  does not depend on what the child wrote to standard output.
\<close>

theorem execPromise_rejects_with_text:
  "exec w cmd folder = (r, folder') \<Longrightarrow>
   (err r = None \<longrightarrow> fst (execPromise w cmd folder s) = Inr (stdout r)) \<and>
   (\<forall>e. err r = Some e \<and> stderr r \<noteq> [] \<longrightarrow> fst (execPromise w cmd folder s) = Inl (stderr r)) \<and>
   (\<forall>e. err r = Some e \<and> stderr r = [] \<longrightarrow>
        fst (execPromise w cmd folder s) = Inl (exec_error.message e)) \<and>
   (\<forall>out. err r \<noteq> None \<longrightarrow>
        fst (execPromise (w\<lparr>exec := \<lambda>c f. (r\<lparr>stdout := out\<rparr>, folder')\<rparr>) cmd folder s) =
        fst (execPromise w cmd folder s))"
  by (auto simp add: execPromise_def execCallback_def)

text \<open>
  The amended C6 at a child that fails with text on standard error, at one that fails
  silently, and at one that exits with code 0.
\<close>

theorem execPromise_rejects_with_text_witness:
  "fst (execPromise (world0\<lparr>exec := \<lambda>c f. (exit1, f)\<rparr>) ''cd ./tmp/1-app && npm install'' [] sys0)
     = Inl ''boom'' \<and>
   fst (execPromise (world0\<lparr>exec := \<lambda>c f. (exit1\<lparr>stderr := []\<rparr>, f)\<rparr>) ''cd ./tmp/1-app && npm install'' [] sys0)
     = Inl ''Command failed: npm'' \<and>
   fst (execPromise (world0\<lparr>exec := \<lambda>c f. (exit0, f)\<rparr>) ''cd ./tmp/1-app && npm install'' [] sys0)
     = Inr ''done''"
  using execPromise_rejects_with_text
    [of "world0\<lparr>exec := \<lambda>c f. (exit1, f)\<rparr>" "''cd ./tmp/1-app && npm install''" "[]" exit1 "[]" sys0]
    execPromise_rejects_with_text
    [of "world0\<lparr>exec := \<lambda>c f. (exit1\<lparr>stderr := []\<rparr>, f)\<rparr>" "''cd ./tmp/1-app && npm install''" "[]"
        "exit1\<lparr>stderr := []\<rparr>" "[]" sys0]
    execPromise_rejects_with_text
    [of "world0\<lparr>exec := \<lambda>c f. (exit0, f)\<rparr>" "''cd ./tmp/1-app && npm install''" "[]" exit0 "[]" sys0]
  by (simp add: exit1_def exit0_def)

section \<open>The object store: what a request leaves\<close>

lemma s3_sent_simps [simp]:
  "objects (s3_sent rq s) = objects s"
  "builds (s3_sent rq s) = builds s"
  "db_answers (s3_sent rq s) = db_answers s"
  "projects (s3_sent rq s) = projects s"
  "trace (s3_sent rq s) = trace s @ [S3 rq]"
  "s3_budget (s3_sent rq s) = map_option (\<lambda>n. n - 1) (s3_budget s)"
  by (simp_all add: s3_sent_def)

lemma s3_up_None [simp]: "s3_budget s = None \<Longrightarrow> s3_up s"
  by (simp add: s3_up_def)

lemma send_DeleteObject_frame:
  "send_DeleteObject k s = (r, s') \<Longrightarrow>
   builds s' = builds s \<and> db_answers s' = db_answers s \<and> projects s' = projects s \<and> trace s' = trace s @ [S3 (DeleteObject k)] \<and>
   s3_budget s' = map_option (\<lambda>n. n - 1) (s3_budget s)"
  by (auto simp add: send_DeleteObject_def split: if_splits)

lemma send_DeleteObject_Inr:
  "send_DeleteObject k s = (Inr u, s') \<Longrightarrow> objects s' = AList.delete k (objects s)"
  by (auto simp add: send_DeleteObject_def split: if_splits)

lemma send_DeleteObject_None:
  "s3_budget s = None \<Longrightarrow> fst (send_DeleteObject k s) = Inr ()"
  by (simp add: send_DeleteObject_def)

lemma send_PutObject_frame:
  "send_PutObject k ob s = (r, s') \<Longrightarrow>
   builds s' = builds s \<and> db_answers s' = db_answers s \<and> projects s' = projects s \<and> trace s' = trace s @ [S3 (PutObject k)] \<and>
   s3_budget s' = map_option (\<lambda>n. n - 1) (s3_budget s)"
  by (auto simp add: send_PutObject_def split: if_splits)

lemma send_PutObject_Inr:
  "send_PutObject k ob s = (Inr u, s') \<Longrightarrow> objects s' = AList.update k ob (objects s)"
  by (auto simp add: send_PutObject_def split: if_splits)

lemma send_PutObject_None:
  "s3_budget s = None \<Longrightarrow> fst (send_PutObject k ob s) = Inr ()"
  by (simp add: send_PutObject_def)

lemma send_ListObjectsV2_frame:
  "send_ListObjectsV2 p s = (r, s') \<Longrightarrow>
   objects s' = objects s \<and> builds s' = builds s \<and> db_answers s' = db_answers s \<and> projects s' = projects s \<and>
   trace s' = trace s @ [S3 (ListObjectsV2 p)] \<and>
   s3_budget s' = map_option (\<lambda>n. n - 1) (s3_budget s)"
  by (auto simp add: send_ListObjectsV2_def split: if_splits)

lemma send_ListObjectsV2_Inr:
  "send_ListObjectsV2 p s = (Inr ks, s') \<Longrightarrow>
   ks = take list_page_limit (sort (filter (prefix p) (map fst (objects s))))"
  by (auto simp add: send_ListObjectsV2_def split: if_splits)

lemma send_ListObjectsV2_None:
  "s3_budget s = None \<Longrightarrow>
   fst (send_ListObjectsV2 p s) = Inr (take list_page_limit (sort (filter (prefix p) (map fst (objects s)))))"
  by (simp add: send_ListObjectsV2_def)

subsection \<open>The delete loop\<close>

lemma delete_each_frame:
  "delete_each ks s = (r, s') \<Longrightarrow>
   builds s' = builds s \<and> db_answers s' = db_answers s \<and> projects s' = projects s \<and>
   (\<exists>evs. trace s' = trace s @ evs \<and> list_all is_list_or_delete evs)"
proof (induction ks arbitrary: s)
  case Nil
  then show ?case by simp
next
  case (Cons k ks)
  obtain r1 s1 where d: "send_DeleteObject k s = (r1, s1)"
    by (cases "send_DeleteObject k s")
  note f = send_DeleteObject_frame [OF d]
  show ?case
  proof (cases r1)
    case (Inl e)
    with Cons.prems d f show ?thesis by auto
  next
    case (Inr u)
    with Cons.prems d have "delete_each ks s1 = (r, s')" by simp
    from Cons.IH [OF this] f show ?thesis by auto
  qed
qed

lemma delete_each_Inr:
  "delete_each ks s = (Inr u, s') \<Longrightarrow>
   objects s' = filter (\<lambda>kv. fst kv \<notin> set ks) (objects s) \<and>
   trace s' = trace s @ map (\<lambda>k. S3 (DeleteObject k)) ks"
proof (induction ks arbitrary: s)
  case Nil
  then show ?case by simp
next
  case (Cons k ks)
  obtain r1 s1 where d: "send_DeleteObject k s = (r1, s1)"
    by (cases "send_DeleteObject k s")
  show ?case
  proof (cases r1)
    case (Inl e)
    with Cons.prems d show ?thesis by simp
  next
    case (Inr v)
    with Cons.prems d have rest: "delete_each ks s1 = (Inr u, s')" by simp
    from d Inr have o: "objects s1 = AList.delete k (objects s)"
      using send_DeleteObject_Inr by blast
    have t: "trace s1 = trace s @ [S3 (DeleteObject k)]"
      using send_DeleteObject_frame [OF d] by simp
    have "filter (\<lambda>kv. fst kv \<notin> set ks) (AList.delete k al) =
          filter (\<lambda>kv. fst kv \<notin> set (k # ks)) al" for al :: "(string \<times> s3object) list"
      by (induction al) auto
    with Cons.IH [OF rest] o t show ?thesis by simp
  qed
qed

lemma delete_each_None:
  "s3_budget s = None \<Longrightarrow>
   fst (delete_each ks s) = Inr () \<and> s3_budget (snd (delete_each ks s)) = None"
proof (induction ks arbitrary: s)
  case Nil
  then show ?case by simp
next
  case (Cons k ks)
  obtain r1 s1 where d: "send_DeleteObject k s = (r1, s1)"
    by (cases "send_DeleteObject k s")
  from Cons.prems d have r1: "r1 = Inr ()"
    using send_DeleteObject_None [of s k] by simp
  from Cons.prems have "s3_budget s1 = None"
    using send_DeleteObject_frame [OF d] by simp
  from Cons.IH [OF this] d r1 show ?case by simp
qed

subsection \<open>\<open>deleteFolderFromR2\<close>\<close>

lemma deleteFolderFromR2_frame:
  "deleteFolderFromR2 p s = (r, s') \<Longrightarrow>
   builds s' = builds s \<and> db_answers s' = db_answers s \<and> projects s' = projects s \<and>
   (\<exists>evs. trace s' = trace s @ evs \<and> list_all is_list_or_delete evs)"
proof -
  assume a: "deleteFolderFromR2 p s = (r, s')"
  obtain r1 s1 where l: "send_ListObjectsV2 p s = (r1, s1)"
    by (cases "send_ListObjectsV2 p s")
  note f = send_ListObjectsV2_frame [OF l]
  show ?thesis
  proof (cases r1)
    case (Inl e)
    with a l f show ?thesis by (auto simp add: deleteFolderFromR2_def)
  next
    case (Inr ks)
    show ?thesis
    proof (cases "ks = []")
      case True
      with a l f Inr show ?thesis by (auto simp add: deleteFolderFromR2_def)
    next
      case False
      with a l Inr have "delete_each ks s1 = (r, s')"
        by (simp add: deleteFolderFromR2_def)
      from delete_each_frame [OF this] f show ?thesis by auto
    qed
  qed
qed

lemma deleteFolderFromR2_Inr:
  "deleteFolderFromR2 p s = (Inr u, s') \<Longrightarrow>
   objects s' =
     filter (\<lambda>kv. fst kv \<notin> set (take list_page_limit (sort (filter (prefix p) (map fst (objects s))))))
       (objects s) \<and>
   trace s' = trace s @ S3 (ListObjectsV2 p) #
     map (\<lambda>k. S3 (DeleteObject k))
       (take list_page_limit (sort (filter (prefix p) (map fst (objects s)))))"
proof -
  assume a: "deleteFolderFromR2 p s = (Inr u, s')"
  define listed where "listed = take list_page_limit (sort (filter (prefix p) (map fst (objects s))))"
  obtain r1 s1 where l: "send_ListObjectsV2 p s = (r1, s1)"
    by (cases "send_ListObjectsV2 p s")
  note f = send_ListObjectsV2_frame [OF l]
  have "objects s' = filter (\<lambda>kv. fst kv \<notin> set listed) (objects s) \<and>
        trace s' = trace s @ S3 (ListObjectsV2 p) # map (\<lambda>k. S3 (DeleteObject k)) listed"
  proof (cases r1)
    case (Inl e)
    with a l show ?thesis by (simp add: deleteFolderFromR2_def)
  next
    case (Inr ks)
    with l have ks: "ks = listed"
      unfolding listed_def using send_ListObjectsV2_Inr by blast
    show ?thesis
    proof (cases "ks = []")
      case True
      with a l Inr have "s' = s1" by (simp add: deleteFolderFromR2_def)
      moreover from True ks have "listed = []" by simp
      ultimately show ?thesis using f by simp
    next
      case False
      with a l Inr have "delete_each ks s1 = (Inr u, s')"
        by (simp add: deleteFolderFromR2_def)
      from delete_each_Inr [OF this] f ks show ?thesis by simp
    qed
  qed
  then show ?thesis unfolding listed_def .
qed

lemma deleteFolderFromR2_None:
  "s3_budget s = None \<Longrightarrow>
   fst (deleteFolderFromR2 p s) = Inr () \<and> s3_budget (snd (deleteFolderFromR2 p s)) = None"
proof -
  assume b: "s3_budget s = None"
  obtain r1 s1 where l: "send_ListObjectsV2 p s = (r1, s1)"
    by (cases "send_ListObjectsV2 p s")
  from b l obtain ks where r1: "r1 = Inr ks"
    using send_ListObjectsV2_None [of s p] by simp
  from b have b1: "s3_budget s1 = None"
    using send_ListObjectsV2_frame [OF l] by simp
  show ?thesis
    using l r1 b1 delete_each_None [OF b1, of ks]
    by (simp add: deleteFolderFromR2_def)
qed

subsection \<open>The recursive upload\<close>

lemma uploadDirToR2_frame:
  "uploadDirToR2 w es sub s = (r, s') \<Longrightarrow>
   builds s' = builds s \<and> db_answers s' = db_answers s \<and> projects s' = projects s \<and>
   (\<exists>evs. trace s' = trace s @ evs \<and> list_all is_put evs)"
proof (induction w es sub s arbitrary: r s' rule: uploadDirToR2.induct)
  case (1 w subdomain s)
  then show ?case by simp
next
  case (2 w entry sub rest subdomain s)
  obtain r1 s1 where u: "uploadDirToR2 w sub (subdomain @ ''/'' @ entry) s = (r1, s1)"
    by (cases "uploadDirToR2 w sub (subdomain @ ''/'' @ entry) s")
  note f = "2.IH"(1) [OF u]
  show ?case
  proof (cases r1)
    case (Inl e)
    with "2.prems" u f show ?thesis by auto
  next
    case (Inr v)
    with "2.prems" u have rest: "uploadDirToR2 w rest subdomain s1 = (r, s')" by simp
    from "2.IH"(2) [OF u [symmetric] Inr rest] f show ?thesis by auto
  qed
next
  case (3 w entry content rest subdomain s)
  define ob where "ob = \<lparr>Body = content,
      ContentType = Some (case mime_lookup w entry of None \<Rightarrow> ''application/octet-stream'' | Some t \<Rightarrow> t)\<rparr>"
  obtain r1 s1 where u: "send_PutObject (subdomain @ ''/'' @ entry) ob s = (r1, s1)"
    by (cases "send_PutObject (subdomain @ ''/'' @ entry) ob s")
  note f = send_PutObject_frame [OF u]
  show ?case
  proof (cases r1)
    case (Inl e)
    with "3.prems" u f show ?thesis by (auto simp add: ob_def)
  next
    case (Inr v)
    with "3.prems" u have rest: "uploadDirToR2 w rest subdomain s1 = (r, s')"
      by (simp add: ob_def)
    from "3.IH" [OF u [unfolded ob_def, symmetric] Inr rest] f show ?thesis by auto
  qed
qed

lemma uploadDirToR2_Inr:
  "uploadDirToR2 w es sub s = (Inr u, s') \<Longrightarrow>
   objects s' = foldl (\<lambda>al kv. AList.update (fst kv) (snd kv) al) (objects s) (puts w es sub) \<and>
   trace s' = trace s @ map (\<lambda>kv. S3 (PutObject (fst kv))) (puts w es sub)"
proof (induction w es sub s arbitrary: u s' rule: uploadDirToR2.induct)
  case (1 w subdomain s)
  then show ?case by simp
next
  case (2 w entry sub rest subdomain s)
  obtain r1 s1 where a: "uploadDirToR2 w sub (subdomain @ ''/'' @ entry) s = (r1, s1)"
    by (cases "uploadDirToR2 w sub (subdomain @ ''/'' @ entry) s")
  show ?case
  proof (cases r1)
    case (Inl e)
    with "2.prems" a show ?thesis by simp
  next
    case (Inr v)
    with "2.prems" a have rest: "uploadDirToR2 w rest subdomain s1 = (Inr u, s')" by simp
    from "2.IH"(1) [OF a [unfolded Inr]] "2.IH"(2) [OF a [symmetric] Inr rest]
    show ?thesis by simp
  qed
next
  case (3 w entry content rest subdomain s)
  define ob where "ob = \<lparr>Body = content,
      ContentType = Some (case mime_lookup w entry of None \<Rightarrow> ''application/octet-stream'' | Some t \<Rightarrow> t)\<rparr>"
  obtain r1 s1 where a: "send_PutObject (subdomain @ ''/'' @ entry) ob s = (r1, s1)"
    by (cases "send_PutObject (subdomain @ ''/'' @ entry) ob s")
  show ?case
  proof (cases r1)
    case (Inl e)
    with "3.prems" a show ?thesis by (simp add: ob_def)
  next
    case (Inr v)
    with "3.prems" a have rest: "uploadDirToR2 w rest subdomain s1 = (Inr u, s')"
      by (simp add: ob_def)
    from a Inr have o: "objects s1 = AList.update (subdomain @ ''/'' @ entry) ob (objects s)"
      using send_PutObject_Inr by blast
    have t: "trace s1 = trace s @ [S3 (PutObject (subdomain @ ''/'' @ entry))]"
      using send_PutObject_frame [OF a] by simp
    from "3.IH" [OF a [unfolded ob_def, symmetric] Inr rest] o t
    show ?thesis by (simp add: ob_def)
  qed
qed

lemma uploadDirToR2_None:
  "s3_budget s = None \<Longrightarrow>
   fst (uploadDirToR2 w es sub s) = Inr () \<and> s3_budget (snd (uploadDirToR2 w es sub s)) = None"
proof (induction w es sub s rule: uploadDirToR2.induct)
  case (1 w subdomain s)
  then show ?case by simp
next
  case (2 w entry sub rest subdomain s)
  obtain r1 s1 where a: "uploadDirToR2 w sub (subdomain @ ''/'' @ entry) s = (r1, s1)"
    by (cases "uploadDirToR2 w sub (subdomain @ ''/'' @ entry) s")
  from "2.IH"(1) [OF "2.prems"] a have r1: "r1 = Inr ()" and b1: "s3_budget s1 = None"
    by simp_all
  from "2.IH"(2) [OF a [symmetric] r1 b1] a r1 show ?case by simp
next
  case (3 w entry content rest subdomain s)
  define ob where "ob = \<lparr>Body = content,
      ContentType = Some (case mime_lookup w entry of None \<Rightarrow> ''application/octet-stream'' | Some t \<Rightarrow> t)\<rparr>"
  obtain r1 s1 where a: "send_PutObject (subdomain @ ''/'' @ entry) ob s = (r1, s1)"
    by (cases "send_PutObject (subdomain @ ''/'' @ entry) ob s")
  from "3.prems" a have r1: "r1 = Inr ()"
    using send_PutObject_None [of s "subdomain @ ''/'' @ entry" ob] by simp
  from "3.prems" have b1: "s3_budget s1 = None"
    using send_PutObject_frame [OF a] by simp
  from "3.IH" [OF a [unfolded ob_def, symmetric] r1 b1] a r1 show ?case
    by (simp add: ob_def)
qed

lemma keys_of_puts: "map fst (puts w es sub) = map (\<lambda>p. sub @ ''/'' @ p) (rel_paths es)"
  by (induction w es sub rule: puts.induct) simp_all

lemma length_rel_paths: "length (rel_paths es) = count_files es"
  by (induction es rule: rel_paths.induct) simp_all

subsection \<open>A store that answers every request\<close>

lemma deleteFolderFromR2_answered:
  assumes "s3_budget s = None"
  shows "deleteFolderFromR2 p s =
    (Inr (),
     s\<lparr>objects :=
         filter (\<lambda>kv. fst kv \<notin> set (take list_page_limit (sort (filter (prefix p) (map fst (objects s))))))
           (objects s),
       trace := trace s @ S3 (ListObjectsV2 p) #
         map (\<lambda>k. S3 (DeleteObject k))
           (take list_page_limit (sort (filter (prefix p) (map fst (objects s)))))\<rparr>)"
proof -
  obtain r s' where d: "deleteFolderFromR2 p s = (r, s')"
    by (cases "deleteFolderFromR2 p s")
  from deleteFolderFromR2_None [OF assms, of p] d
  have r: "r = Inr ()" and b: "s3_budget s' = None" by simp_all
  note f = deleteFolderFromR2_frame [OF d] deleteFolderFromR2_Inr [OF d [unfolded r]]
  have "s' = s\<lparr>objects := objects s', trace := trace s'\<rparr>"
    using f b assms by (intro sys.equality) simp_all
  with d r f show ?thesis by simp
qed

lemma uploadDirToR2_answered:
  assumes "s3_budget s = None"
  shows "uploadDirToR2 w es sub s =
    (Inr (),
     s\<lparr>objects := foldl (\<lambda>al kv. AList.update (fst kv) (snd kv) al) (objects s) (puts w es sub),
       trace := trace s @ map (\<lambda>kv. S3 (PutObject (fst kv))) (puts w es sub)\<rparr>)"
proof -
  obtain r s' where d: "uploadDirToR2 w es sub s = (r, s')"
    by (cases "uploadDirToR2 w es sub s")
  from uploadDirToR2_None [OF assms, of w es sub] d
  have r: "r = Inr ()" and b: "s3_budget s' = None" by simp_all
  note f = uploadDirToR2_frame [OF d] uploadDirToR2_Inr [OF d [unfolded r]]
  have "s' = s\<lparr>objects := objects s', trace := trace s'\<rparr>"
    using f b assms by (intro sys.equality) simp_all
  with d r f show ?thesis by simp
qed

section \<open>The pipeline: what a run leaves\<close>

lemma buildCommand_detectFramework [simp]:
  "buildCommand (detectFramework pkg folder) = ''npm run build''"
  by (simp add: detectFramework_def)

lemma execPromise_state:
  "execPromise w cmd folder s = (r, folder', s') \<Longrightarrow> s' = s\<lparr>trace := trace s @ [Exec cmd]\<rparr>"
  by (auto simp add: execPromise_def split: prod.splits)

text \<open>The upload stage: the listing of the output directory, then the walk.\<close>

lemma upload_stage_frame:
  assumes "(case readdirSync built d of
              Inl e \<Rightarrow> (Inl e, s)
            | Inr es \<Rightarrow> uploadDirToR2 w es nm s) = (r, s')"
  shows "builds s' = builds s \<and> db_answers s' = db_answers s \<and> projects s' = projects s \<and>
         (\<exists>evs. trace s' = trace s @ evs \<and> list_all is_put evs)"
proof (cases "readdirSync built d")
  case (Inl e)
  with assms show ?thesis by simp
next
  case (Inr es)
  with assms have "uploadDirToR2 w es nm s = (r, s')" by simp
  from uploadDirToR2_frame [OF this] show ?thesis .
qed

subsection \<open>Statements sent to the record store\<close>

lemma db_sent_simps [simp]:
  "objects (db_sent ev s) = objects s"
  "s3_budget (db_sent ev s) = s3_budget s"
  "builds (db_sent ev s) = builds s"
  "projects (db_sent ev s) = projects s"
  "trace (db_sent ev s) = trace s @ [ev]"
  "db_answers (db_sent ev s) = tl (db_answers s)"
  by (simp_all add: db_sent_def)

lemma updateStatus_cases:
  "updateStatus bid st s = (r, s') \<Longrightarrow>
   objects s' = objects s \<and> s3_budget s' = s3_budget s \<and> projects s' = projects s \<and>
   trace s' = trace s @ [DbUpdate bid st] \<and> db_answers s' = tl (db_answers s) \<and>
   builds s' = (if db_next s = Refused then builds s else set_status bid st (builds s)) \<and>
   (case r of Inr u \<Rightarrow> db_next s = Answered
            | Inl e \<Rightarrow> db_next s \<noteq> Answered \<and> e = ''RecordStoreFailed'')"
  by (auto simp add: updateStatus_def Let_def split: db_answer.splits)

lemma insertBuild_cases:
  "insertBuild w pid nm s = (r, s') \<Longrightarrow>
   objects s' = objects s \<and> s3_budget s' = s3_budget s \<and> projects s' = projects s \<and>
   trace s' = trace s @ [DbInsert (fresh_id (builds s)) ''pending''] \<and>
   db_answers s' = tl (db_answers s) \<and>
   builds s' =
     (if db_next s = Refused then builds s
      else builds s @
        [\<lparr>build_id = fresh_id (builds s), projectId = pid, build_status = ''pending'',
          build_number = 1, build_url = ''https://'' @ nm @ BASE_URL w, build_log = []\<rparr>]) \<and>
   (case r of Inr bid \<Rightarrow> db_next s = Answered \<and> bid = fresh_id (builds s)
            | Inl e \<Rightarrow> db_next s \<noteq> Answered \<and> e = ''RecordStoreFailed'')"
  by (auto simp add: insertBuild_def Let_def split: db_answer.splits)

lemma db_next_tl:
  "answered_all s \<Longrightarrow> db_answers s' = tl (db_answers s) \<Longrightarrow> db_next s' = Answered"
  by (cases "db_answers s"; cases "db_answers s'") (auto simp add: answered_all_def db_next_def)

lemma answered_all_next: "answered_all s \<Longrightarrow> db_next s = Answered"
  by (cases "db_answers s") (auto simp add: answered_all_def db_next_def)

lemma answered_all_drop:
  "answered_all s \<Longrightarrow> db_answers s' = drop n (db_answers s) \<Longrightarrow> answered_all s'"
  by (auto simp add: answered_all_def list_all_iff dest: in_set_dropD)

lemma refused_none_drop:
  "refused_none s \<Longrightarrow> db_answers s' = drop n (db_answers s) \<Longrightarrow> refused_none s'"
  by (auto simp add: refused_none_def list_all_iff dest: in_set_dropD)

lemma refused_none_next: "refused_none s \<Longrightarrow> db_next s \<noteq> Refused"
  by (cases "db_answers s") (auto simp add: refused_none_def db_next_def)

lemma answered_all_refused_none: "answered_all s \<Longrightarrow> refused_none s"
  by (auto simp add: refused_none_def answered_all_def list_all_iff)

subsection \<open>The \<open>try\<close> block\<close>

text \<open>
  The calls of the \<open>try\<close> block are the clone, the commands, the listing and
  deletions, the puts, and the closing calls: the removal of the scratch directory
  and the update of the status to \<open>success\<close>.
\<close>

lemma tryBody_shape:
  assumes run: "tryBody w bid nm url tmp s = (r, s')"
  obtains ex ld pt cl where
    "trace s' = trace s @ GitClone url tmp # ex @ ld @ pt @ cl"
    "list_all is_exec ex" "list_all is_list_or_delete ld" "list_all is_put pt"
    "projects s' = projects s"
    "\<And>u. r = Inr u \<Longrightarrow>
        cl = [RmSync tmp, DbUpdate bid ''success''] \<and>
        ex = [Exec (''cd '' @ tmp @ '' && npm install''), Exec (''cd '' @ tmp @ '' && npm run build'')] \<and>
        builds s' = set_status bid ''success'' (builds s) \<and>
        db_next s = Answered \<and> db_answers s' = tl (db_answers s)"
    "\<And>stg e. r = Inl (stg, e) \<Longrightarrow>
        stg \<noteq> Create \<and>
        (stage_rank stg < 7 \<longrightarrow> cl = []) \<and>
        (stg = Remove \<longrightarrow> cl = [RmSync tmp]) \<and>
        (stg \<noteq> Mark \<longrightarrow> builds s' = builds s \<and> db_answers s' = db_answers s) \<and>
        (stg = Mark \<longrightarrow>
           cl = [RmSync tmp, DbUpdate bid ''success''] \<and>
           db_next s \<noteq> Answered \<and> db_answers s' = tl (db_answers s) \<and>
           builds s' =
             (if db_next s = Refused then builds s else set_status bid ''success'' (builds s))) \<and>
        (stage_rank stg < 4 \<longrightarrow> ex = []) \<and>
        (stg = Install \<longrightarrow> ex = [Exec (''cd '' @ tmp @ '' && npm install'')]) \<and>
        (stage_rank stg < 5 \<longrightarrow> ld = [] \<and> pt = []) \<and>
        (stg = Delete \<longrightarrow> pt = [])"
proof -
  define s1 where "s1 = s\<lparr>trace := trace s @ [GitClone url tmp]\<rparr>"
  define icmd where "icmd = ''cd '' @ tmp @ '' && npm install''"
  define bcmd where "bcmd = ''cd '' @ tmp @ '' && npm run build''"
  show ?thesis
  proof (cases "git_clone w url")
    case (Inl e)
    with run have "r = Inl (Clone, e)" "s' = s1"
      by (simp_all add: tryBody_def s1_def)
    then show ?thesis
      by (intro that [of "[]" "[]" "[]" "[]"]) (simp_all add: s1_def)
  next
    case cl: (Inr cloned)
    show ?thesis
    proof (cases "readManifest w cloned")
      case (Inl e)
      with run cl have "r = Inl (Manifest, e)" "s' = s1"
        by (simp_all add: tryBody_def s1_def)
      then show ?thesis
        by (intro that [of "[]" "[]" "[]" "[]"]) (simp_all add: s1_def)
    next
      case mf: (Inr pkg)
      obtain r2 t1 s2 where i: "execPromise w icmd cloned s1 = (r2, t1, s2)"
        by (cases "execPromise w icmd cloned s1")
      have s2: "s2 = s1\<lparr>trace := trace s1 @ [Exec icmd]\<rparr>"
        using execPromise_state [OF i] .
      show ?thesis
      proof (cases r2)
        case (Inl e)
        with run cl mf i have "r = Inl (Install, e)" "s' = s2"
          by (simp_all add: tryBody_def s1_def icmd_def)
        then show ?thesis
          by (intro that [of "[Exec icmd]" "[]" "[]" "[]"]) (simp_all add: s2 s1_def icmd_def)
      next
        case ok2: (Inr out2)
        obtain r3 t2 s3 where b: "execPromise w bcmd t1 s2 = (r3, t2, s3)"
          by (cases "execPromise w bcmd t1 s2")
        have s3: "s3 = s2\<lparr>trace := trace s2 @ [Exec bcmd]\<rparr>"
          using execPromise_state [OF b] .
        show ?thesis
        proof (cases r3)
          case (Inl e)
          with run cl mf i ok2 b have "r = Inl (Build, e)" "s' = s3"
            by (simp_all add: tryBody_def s1_def icmd_def bcmd_def)
          then show ?thesis
            by (intro that [of "[Exec icmd, Exec bcmd]" "[]" "[]" "[]"]) (simp_all add: s3 s2 s1_def icmd_def)
        next
          case ok3: (Inr out3)
          obtain r4 s4 where d: "deleteFolderFromR2 (nm @ ''/'') s3 = (r4, s4)"
            by (cases "deleteFolderFromR2 (nm @ ''/'') s3")
          from deleteFolderFromR2_frame [OF d] obtain ld where
            f4: "builds s4 = builds s3" "db_answers s4 = db_answers s3" "projects s4 = projects s3"
                "trace s4 = trace s3 @ ld" "list_all is_list_or_delete ld"
            by blast
          show ?thesis
          proof (cases r4)
            case (Inl e)
            with run cl mf i ok2 b ok3 d have "r = Inl (Delete, e)" "s' = s4"
              by (simp_all add: tryBody_def s1_def icmd_def bcmd_def)
            then show ?thesis
              by (intro that [of "[Exec icmd, Exec bcmd]" ld "[]" "[]"]) (simp_all add: f4 s3 s2 s1_def icmd_def)
          next
            case ok4: (Inr u4)
            obtain r5 s5 where u: "(case readdirSync t2 (outDir (detectFramework pkg cloned)) of
                  Inl e \<Rightarrow> (Inl e, s4)
                | Inr es \<Rightarrow> uploadDirToR2 w es nm s4) = (r5, s5)"
              by (cases "case readdirSync t2 (outDir (detectFramework pkg cloned)) of
                  Inl e \<Rightarrow> (Inl e, s4)
                | Inr es \<Rightarrow> uploadDirToR2 w es nm s4")
            from upload_stage_frame [OF u] obtain pt where
              f5: "builds s5 = builds s4" "db_answers s5 = db_answers s4" "projects s5 = projects s4"
                  "trace s5 = trace s4 @ pt" "list_all is_put pt"
              by blast
            show ?thesis
            proof (cases r5)
              case (Inl e)
              with run cl mf i ok2 b ok3 d ok4 u have "r = Inl (Upload, e)" "s' = s5"
                by (simp_all add: tryBody_def s1_def icmd_def bcmd_def)
              then show ?thesis
                by (intro that [of "[Exec icmd, Exec bcmd]" ld pt "[]"]) (simp_all add: f5 f4 s3 s2 s1_def)
            next
              case ok5: (Inr u5)
              define s6 where "s6 = s5\<lparr>trace := trace s5 @ [RmSync tmp]\<rparr>"
              have s6: "builds s6 = builds s" "db_answers s6 = db_answers s" "projects s6 = projects s"
                "trace s6 = trace s @ GitClone url tmp # [Exec icmd, Exec bcmd] @ ld @ pt @ [RmSync tmp]"
                by (simp_all add: s6_def f5 f4 s3 s2 s1_def)
              then have n6: "db_next s6 = db_next s"
                by (simp add: db_next_def)
              show ?thesis
              proof (cases "rmSync w tmp")
                case (Some e)
                with run cl mf i ok2 b ok3 d ok4 u ok5 have "r = Inl (Remove, e)" "s' = s6"
                  by (simp_all add: tryBody_def s1_def icmd_def bcmd_def s6_def)
                then show ?thesis
                  by (intro that [of "[Exec icmd, Exec bcmd]" ld pt "[RmSync tmp]"]) (simp_all add: s6 f5 f4)
              next
                case None
                obtain r7 s7 where m: "updateStatus bid ''success'' s6 = (r7, s7)"
                  by (cases "updateStatus bid ''success'' s6")
                note f7 = updateStatus_cases [OF m, unfolded n6 s6]
                show ?thesis
                proof (cases r7)
                  case (Inl e)
                  with run cl mf i ok2 b ok3 d ok4 u ok5 None m have "r = Inl (Mark, e)" "s' = s7"
                    by (simp_all add: tryBody_def s1_def icmd_def bcmd_def s6_def)
                  then show ?thesis
                    using f7 Inl
                    by (intro that [of "[Exec icmd, Exec bcmd]" ld pt "[RmSync tmp, DbUpdate bid ''success'']"])
                      (simp_all add: f5 f4)
                next
                  case (Inr u7)
                  with run cl mf i ok2 b ok3 d ok4 u ok5 None m have "r = Inr ()" "s' = s7"
                    by (simp_all add: tryBody_def s1_def icmd_def bcmd_def s6_def)
                  then show ?thesis
                    using f7 Inr
                    by (intro that [of "[Exec icmd, Exec bcmd]" ld pt "[RmSync tmp, DbUpdate bid ''success'']"])
                      (simp_all add: f5 f4 icmd_def bcmd_def)
                qed
              qed
            qed
          qed
        qed
      qed
    qed
  qed
qed

subsection \<open>The row of a run\<close>

lemma build_id_below_fresh: "b \<in> set bs \<Longrightarrow> build_id b < fresh_id bs"
  by (induction bs) (auto simp add: fresh_id_def)

lemma set_status_old_rows: "set_status (fresh_id bs) st bs = bs"
proof -
  have "\<And>b. b \<in> set bs \<Longrightarrow> build_id b \<noteq> fresh_id bs"
    using build_id_below_fresh by fastforce
  then show ?thesis
    by (simp add: set_status_def map_idI)
qed

lemma set_status_new_row:
  "build_id row = fresh_id bs \<Longrightarrow>
   set_status (fresh_id bs) st (bs @ [row]) = bs @ [row\<lparr>build_status := st\<rparr>]"
  using set_status_old_rows [of bs st] by (simp add: set_status_def)

subsection \<open>Kinds of calls\<close>

lemma exec_kind:
  "is_exec e \<Longrightarrow> \<not> is_status_write e \<and> \<not> is_s3 e \<and> \<not> is_rm e \<and> \<not> is_put e \<and> \<not> is_delete e"
  by (induction e rule: is_exec.induct) simp_all

lemma list_or_delete_kind:
  "is_list_or_delete e \<Longrightarrow>
   \<not> is_status_write e \<and> \<not> is_exec e \<and> \<not> is_rm e \<and> \<not> is_put e \<and> is_s3 e"
  by (induction e rule: is_list_or_delete.induct) simp_all

lemma put_kind:
  "is_put e \<Longrightarrow>
   \<not> is_status_write e \<and> \<not> is_exec e \<and> \<not> is_rm e \<and> \<not> is_delete e \<and> is_s3 e"
  by (induction e rule: is_put.induct) simp_all

lemma filter_none: "list_all P evs \<Longrightarrow> (\<And>e. P e \<Longrightarrow> \<not> Q e) \<Longrightarrow> filter Q evs = []"
  by (auto simp add: filter_empty_conv list_all_iff)

lemma filter_all: "list_all P evs \<Longrightarrow> (\<And>e. P e \<Longrightarrow> Q e) \<Longrightarrow> filter Q evs = evs"
  by (auto simp add: filter_id_conv list_all_iff)

lemmas no_status_write =
  filter_none [where Q = is_status_write, OF _ conjunct1 [OF exec_kind]]
  filter_none [where Q = is_status_write, OF _ conjunct1 [OF list_or_delete_kind]]
  filter_none [where Q = is_status_write, OF _ conjunct1 [OF put_kind]]

subsection \<open>\<open>startBuild\<close>\<close>

text \<open>
  A run whose insertion throws sends nothing else: the row is there or not, as the
  record store applied the insertion or not.
\<close>

lemma startBuild_not_created:
  assumes "db_next s \<noteq> Answered"
  shows "calls_of_run w pid nm url s = [DbInsert (fresh_id (builds s)) ''pending''] \<and>
     builds (startBuild w pid nm url s) =
       (if db_next s = Refused then builds s
        else builds s @
          [\<lparr>build_id = fresh_id (builds s), projectId = pid, build_status = ''pending'',
            build_number = 1, build_url = ''https://'' @ nm @ BASE_URL w, build_log = []\<rparr>]) \<and>
     projects (startBuild w pid nm url s) = projects s \<and>
     objects (startBuild w pid nm url s) = objects s \<and>
     db_answers (startBuild w pid nm url s) = tl (db_answers s) \<and>
     fst (attempt w pid nm url s) = Inl (Create, ''RecordStoreFailed'')"
proof -
  obtain r s0 where i: "insertBuild w pid nm s = (r, s0)"
    by (cases "insertBuild w pid nm s")
  note f = insertBuild_cases [OF i]
  from f assms have r: "r = Inl ''RecordStoreFailed''"
    by (cases r) simp_all
  have "startBuild w pid nm url s = s0"
    using i r by (simp add: startBuild_def startBuild_promise_def)
  moreover have "attempt w pid nm url s = (Inl (Create, ''RecordStoreFailed''), s0)"
    using i r by (simp add: attempt_def)
  ultimately show ?thesis
    using f by (simp add: calls_of_run_def)
qed

text \<open>
  A run whose insertion is answered appends one row and leaves the earlier rows as
  they were. Its calls are the insertion, the calls of the \<open>try\<close> block and, when
  the block threw, the calls of the \<open>catch\<close> block: the line on the console and the
  update of the status to \<open>failed\<close>.
\<close>

lemma startBuild_shape:
  assumes created: "db_next s = Answered"
  obtains st ex ld pt cl ct where
    "builds (startBuild w pid nm url s) = builds s @
       [\<lparr>build_id = fresh_id (builds s), projectId = pid, build_status = st,
         build_number = 1, build_url = ''https://'' @ nm @ BASE_URL w, build_log = []\<rparr>]"
    "projects (startBuild w pid nm url s) = projects s"
    "calls_of_run w pid nm url s =
       DbInsert (fresh_id (builds s)) ''pending'' # GitClone url (tempFolderOf w nm) #
         ex @ ld @ pt @ cl @ ct"
    "list_all is_exec ex" "list_all is_list_or_delete ld" "list_all is_put pt"
    "\<exists>n. db_answers (startBuild w pid nm url s) = drop n (db_answers s)"
    "\<And>u. fst (attempt w pid nm url s) = Inr u \<Longrightarrow>
        st = ''success'' \<and>
        cl = [RmSync (tempFolderOf w nm), DbUpdate (fresh_id (builds s)) ''success''] \<and>
        ct = [] \<and>
        ex = [Exec (''cd '' @ tempFolderOf w nm @ '' && npm install''),
              Exec (''cd '' @ tempFolderOf w nm @ '' && npm run build'')]"
    "\<And>stg e. fst (attempt w pid nm url s) = Inl (stg, e) \<Longrightarrow>
        stg \<noteq> Create \<and>
        ct = [ConsoleLog ''Build Failed'' e, DbUpdate (fresh_id (builds s)) ''failed''] \<and>
        (refused_none s \<longrightarrow> st = ''failed'') \<and>
        (stage_rank stg < 7 \<longrightarrow> cl = []) \<and>
        (stg = Remove \<longrightarrow> cl = [RmSync (tempFolderOf w nm)]) \<and>
        (stg = Mark \<longrightarrow>
           cl = [RmSync (tempFolderOf w nm), DbUpdate (fresh_id (builds s)) ''success''] \<and>
           \<not> answered_all s) \<and>
        (stage_rank stg < 4 \<longrightarrow> ex = []) \<and>
        (stg = Install \<longrightarrow> ex = [Exec (''cd '' @ tempFolderOf w nm @ '' && npm install'')]) \<and>
        (stage_rank stg < 5 \<longrightarrow> ld = [] \<and> pt = []) \<and>
        (stg = Delete \<longrightarrow> pt = [])"
proof -
  define bid where "bid = fresh_id (builds s)"
  define tmp where "tmp = tempFolderOf w nm"
  define row where "row = (\<lambda>st. \<lparr>build_id = bid, projectId = pid, build_status = st,
         build_number = 1, build_url = ''https://'' @ nm @ BASE_URL w, build_log = []\<rparr>)"
  obtain r0 s0 where i: "insertBuild w pid nm s = (r0, s0)"
    by (cases "insertBuild w pid nm s")
  note fi = insertBuild_cases [OF i]
  from fi created have r0: "r0 = Inr bid"
    by (cases r0) (simp_all add: bid_def)
  have s0: "trace s0 = trace s @ [DbInsert bid ''pending'']" "builds s0 = builds s @ [row ''pending'']"
    "projects s0 = projects s" "db_answers s0 = tl (db_answers s)"
    using fi created by (simp_all add: bid_def row_def)
  have new: "set_status bid st (builds s @ [row st']) = builds s @ [row st]" for st st'
    using set_status_new_row [of "row st'" "builds s" st] by (simp add: row_def bid_def)
  obtain r s' where t: "tryBody w bid nm url tmp s0 = (r, s')"
    by (cases "tryBody w bid nm url tmp s0")
  have a: "attempt w pid nm url s = (r, s')"
    using i r0 t by (simp add: attempt_def tmp_def)
  show ?thesis
  proof (rule tryBody_shape [OF t])
    fix ex ld pt cl
    assume raw: "trace s' = trace s0 @ GitClone url tmp # ex @ ld @ pt @ cl"
        "list_all is_exec ex" "list_all is_list_or_delete ld" "list_all is_put pt"
        "projects s' = projects s0"
        "\<And>u. r = Inr u \<Longrightarrow>
           cl = [RmSync tmp, DbUpdate bid ''success''] \<and>
           ex = [Exec (''cd '' @ tmp @ '' && npm install''),
                 Exec (''cd '' @ tmp @ '' && npm run build'')] \<and>
           builds s' = set_status bid ''success'' (builds s0) \<and>
           db_next s0 = Answered \<and> db_answers s' = tl (db_answers s0)"
        "\<And>stg e. r = Inl (stg, e) \<Longrightarrow>
           stg \<noteq> Create \<and>
           (stage_rank stg < 7 \<longrightarrow> cl = []) \<and>
           (stg = Remove \<longrightarrow> cl = [RmSync tmp]) \<and>
           (stg \<noteq> Mark \<longrightarrow> builds s' = builds s0 \<and> db_answers s' = db_answers s0) \<and>
           (stg = Mark \<longrightarrow>
              cl = [RmSync tmp, DbUpdate bid ''success''] \<and>
              db_next s0 \<noteq> Answered \<and> db_answers s' = tl (db_answers s0) \<and>
              builds s' =
                (if db_next s0 = Refused then builds s0 else set_status bid ''success'' (builds s0))) \<and>
           (stage_rank stg < 4 \<longrightarrow> ex = []) \<and>
           (stg = Install \<longrightarrow> ex = [Exec (''cd '' @ tmp @ '' && npm install'')]) \<and>
           (stage_rank stg < 5 \<longrightarrow> ld = [] \<and> pt = []) \<and>
           (stg = Delete \<longrightarrow> pt = [])"
    have c: "calls_of_run w pid nm url s =
        DbInsert bid ''pending'' # GitClone url tmp # ex @ ld @ pt @ cl @ ct"
      if "trace (startBuild w pid nm url s) = trace s' @ ct" for ct
      unfolding calls_of_run_def using that raw(1) s0(1) by simp
    show ?thesis
    proof (cases r)
      case (Inr u)
      with i r0 t have final: "startBuild w pid nm url s = s'"
        by (simp add: startBuild_def startBuild_promise_def tmp_def)
      from raw(6) [OF Inr] have ok: "cl = [RmSync tmp, DbUpdate bid ''success'']"
        "ex = [Exec (''cd '' @ tmp @ '' && npm install''), Exec (''cd '' @ tmp @ '' && npm run build'')]"
        "builds s' = set_status bid ''success'' (builds s0)"
        "db_answers s' = tl (db_answers s0)"
        by simp_all
      have f1: "builds (startBuild w pid nm url s) = builds s @
           [\<lparr>build_id = fresh_id (builds s), projectId = pid, build_status = ''success'',
             build_number = 1, build_url = ''https://'' @ nm @ BASE_URL w, build_log = []\<rparr>]"
        unfolding final ok(3) s0(2) new by (simp add: row_def bid_def)
      have f2: "projects (startBuild w pid nm url s) = projects s"
        unfolding final raw(5) s0(3) ..
      have f3: "calls_of_run w pid nm url s =
           DbInsert (fresh_id (builds s)) ''pending'' # GitClone url (tempFolderOf w nm) #
             ex @ ld @ pt @ cl @ []"
        using c [of "[]"] final unfolding bid_def tmp_def by simp
      have f4: "\<exists>n. db_answers (startBuild w pid nm url s) = drop n (db_answers s)"
        unfolding final ok(4) s0(4) by (intro exI [of _ "Suc (Suc 0)"]) (simp add: drop_Suc)
      have f7: "''success'' = ''success'' \<and>
            cl = [RmSync (tempFolderOf w nm), DbUpdate (fresh_id (builds s)) ''success''] \<and>
            [] = ([] :: event list) \<and>
            ex = [Exec (''cd '' @ tempFolderOf w nm @ '' && npm install''),
                  Exec (''cd '' @ tempFolderOf w nm @ '' && npm run build'')]"
        if "fst (attempt w pid nm url s) = Inr u'" for u'
        using ok(1,2) unfolding bid_def tmp_def by simp
      have f8: "stg \<noteq> Create \<and>
            [] = [ConsoleLog ''Build Failed'' e, DbUpdate (fresh_id (builds s)) ''failed''] \<and>
            (refused_none s \<longrightarrow> ''success'' = ''failed'') \<and>
            (stage_rank stg < 7 \<longrightarrow> cl = []) \<and>
            (stg = Remove \<longrightarrow> cl = [RmSync (tempFolderOf w nm)]) \<and>
            (stg = Mark \<longrightarrow>
               cl = [RmSync (tempFolderOf w nm), DbUpdate (fresh_id (builds s)) ''success''] \<and>
               \<not> answered_all s) \<and>
            (stage_rank stg < 4 \<longrightarrow> ex = []) \<and>
            (stg = Install \<longrightarrow> ex = [Exec (''cd '' @ tempFolderOf w nm @ '' && npm install'')]) \<and>
            (stage_rank stg < 5 \<longrightarrow> ld = [] \<and> pt = []) \<and>
            (stg = Delete \<longrightarrow> pt = [])"
        if "fst (attempt w pid nm url s) = Inl (stg, e)" for stg e
        using that a Inr by simp
      show ?thesis
        by (rule that [of "''success''" ex ld pt cl "[]", OF f1 f2 f3 raw(2) raw(3) raw(4) f4 f7 f8])
    next
      case (Inl p)
      obtain stg0 e0 where p: "p = (stg0, e0)" by (cases p)
      define sc where "sc = s'\<lparr>trace := trace s' @ [ConsoleLog ''Build Failed'' e0]\<rparr>"
      obtain rf sf where uf: "updateStatus bid ''failed'' sc = (rf, sf)"
        by (cases "updateStatus bid ''failed'' sc")
      have nsc: "db_next sc = db_next s'"
        by (simp add: db_next_def sc_def)
      note ff = updateStatus_cases [OF uf, unfolded nsc]
      from i r0 t Inl p uf have final: "startBuild w pid nm url s = sf"
        by (simp add: startBuild_def startBuild_promise_def tmp_def sc_def)
      from raw(7) [OF Inl [unfolded p]] have ko: "stg0 \<noteq> Create"
        "stage_rank stg0 < 7 \<longrightarrow> cl = []"
        "stg0 = Remove \<longrightarrow> cl = [RmSync tmp]"
        "stg0 \<noteq> Mark \<longrightarrow> builds s' = builds s0 \<and> db_answers s' = db_answers s0"
        "stg0 = Mark \<longrightarrow>
              cl = [RmSync tmp, DbUpdate bid ''success''] \<and>
              db_next s0 \<noteq> Answered \<and> db_answers s' = tl (db_answers s0) \<and>
              builds s' =
                (if db_next s0 = Refused then builds s0 else set_status bid ''success'' (builds s0))"
        "stage_rank stg0 < 4 \<longrightarrow> ex = []"
        "stg0 = Install \<longrightarrow> ex = [Exec (''cd '' @ tmp @ '' && npm install'')]"
        "stage_rank stg0 < 5 \<longrightarrow> ld = [] \<and> pt = []"
        "stg0 = Delete \<longrightarrow> pt = []"
        by simp_all
      have "\<exists>st'. builds s' = builds s @ [row st']"
      proof (cases "stg0 = Mark")
        case True
        with ko(5) s0(2) new [of "''success''" "''pending''"] show ?thesis
          by (cases "db_next s0 = Refused") auto
      next
        case False
        with ko(4) s0(2) show ?thesis by auto
      qed
      then obtain st' where rows: "builds s' = builds s @ [row st']" ..
      define st where "st = (if db_next s' = Refused then st' else ''failed'')"
      have f1: "builds (startBuild w pid nm url s) = builds s @
           [\<lparr>build_id = fresh_id (builds s), projectId = pid, build_status = st,
             build_number = 1, build_url = ''https://'' @ nm @ BASE_URL w, build_log = []\<rparr>]"
        unfolding final using ff rows new [of "''failed''" st']
        by (simp add: sc_def st_def) (simp add: row_def bid_def)
      have f2: "projects (startBuild w pid nm url s) = projects s"
        unfolding final using ff by (simp add: sc_def raw(5) s0(3))
      define ct where "ct = [ConsoleLog ''Build Failed'' e0, DbUpdate bid ''failed'']"
      have f3: "calls_of_run w pid nm url s =
           DbInsert (fresh_id (builds s)) ''pending'' # GitClone url (tempFolderOf w nm) #
             ex @ ld @ pt @ cl @ ct"
        using c [of ct] final ff unfolding bid_def tmp_def ct_def by (simp add: sc_def)
      have dbs: "\<exists>n. db_answers s' = drop n (db_answers s)"
      proof (cases "stg0 = Mark")
        case True
        with ko(5) s0(4) show ?thesis
          by (intro exI [of _ "Suc (Suc 0)"]) (simp add: drop_Suc)
      next
        case False
        with ko(4) s0(4) show ?thesis
          by (intro exI [of _ "Suc 0"]) (simp add: drop_Suc)
      qed
      then obtain n where n: "db_answers s' = drop n (db_answers s)" ..
      have f4: "\<exists>n. db_answers (startBuild w pid nm url s) = drop n (db_answers s)"
        unfolding final using ff n
        by (intro exI [of _ "Suc n"]) (simp add: sc_def drop_Suc drop_tl)
      have rn: "refused_none s \<longrightarrow> st = ''failed''"
        using refused_none_next [OF refused_none_drop [OF _ n]] by (simp add: st_def)
      have mark: "stg0 = Mark \<longrightarrow> \<not> answered_all s"
        using ko(5) db_next_tl [OF _ s0(4)] by auto
      have f7: "st = ''success'' \<and>
            cl = [RmSync (tempFolderOf w nm), DbUpdate (fresh_id (builds s)) ''success''] \<and>
            ct = [] \<and>
            ex = [Exec (''cd '' @ tempFolderOf w nm @ '' && npm install''),
                  Exec (''cd '' @ tempFolderOf w nm @ '' && npm run build'')]"
        if "fst (attempt w pid nm url s) = Inr u'" for u'
        using that a Inl by simp
      have f8: "stg \<noteq> Create \<and>
            ct = [ConsoleLog ''Build Failed'' e, DbUpdate (fresh_id (builds s)) ''failed''] \<and>
            (refused_none s \<longrightarrow> st = ''failed'') \<and>
            (stage_rank stg < 7 \<longrightarrow> cl = []) \<and>
            (stg = Remove \<longrightarrow> cl = [RmSync (tempFolderOf w nm)]) \<and>
            (stg = Mark \<longrightarrow>
               cl = [RmSync (tempFolderOf w nm), DbUpdate (fresh_id (builds s)) ''success''] \<and>
               \<not> answered_all s) \<and>
            (stage_rank stg < 4 \<longrightarrow> ex = []) \<and>
            (stg = Install \<longrightarrow> ex = [Exec (''cd '' @ tempFolderOf w nm @ '' && npm install'')]) \<and>
            (stage_rank stg < 5 \<longrightarrow> ld = [] \<and> pt = []) \<and>
            (stg = Delete \<longrightarrow> pt = [])"
        if "fst (attempt w pid nm url s) = Inl (stg, e)" for stg e
      proof -
        from that a Inl p have "stg = stg0" "e = e0" by simp_all
        with ko rn mark show ?thesis unfolding ct_def bid_def tmp_def by simp
      qed
      show ?thesis
        by (rule that [of st ex ld pt cl ct, OF f1 f2 f3 raw(2) raw(3) raw(4) f4 f7 f8])
    qed
  qed
qed

lemma closing_calls:
  assumes "stg \<noteq> Create"
    "stage_rank stg < 7 \<longrightarrow> cl = []"
    "stg = Remove \<longrightarrow> cl = [RmSync tmp]"
    "stg = Mark \<longrightarrow> cl = [RmSync tmp, DbUpdate bid ''success''] \<and> Q"
  shows "cl = [] \<or> cl = [RmSync tmp] \<or> (cl = [RmSync tmp, DbUpdate bid ''success''] \<and> stg = Mark)"
  using assms by (cases stg) simp_all

lemma startBuild_rows:
  "\<exists>new. builds (startBuild w pid nm url s) = builds s @ new \<and> length new \<le> 1 \<and>
     list_all (\<lambda>b. build_number b = 1 \<and> build_id b = fresh_id (builds s) \<and> projectId b = pid) new \<and>
     (answered_all s \<longrightarrow> length new = 1)"
proof (cases "db_next s = Answered")
  case True
  show ?thesis
  proof (rule startBuild_shape [OF True, of w pid nm url])
    fix st ex ld pt cl ct
    assume "builds (startBuild w pid nm url s) = builds s @
       [\<lparr>build_id = fresh_id (builds s), projectId = pid, build_status = st,
         build_number = 1, build_url = ''https://'' @ nm @ BASE_URL w, build_log = []\<rparr>]"
    then show ?thesis
      by (intro exI [of _ "[\<lparr>build_id = fresh_id (builds s), projectId = pid, build_status = st,
         build_number = 1, build_url = ''https://'' @ nm @ BASE_URL w, build_log = []\<rparr>]"]) simp
  qed
next
  case False
  note f = startBuild_not_created [OF False, of w pid nm url]
  from False have no: "\<not> answered_all s"
    using answered_all_next by blast
  show ?thesis
  proof (cases "db_next s = Refused")
    case True
    with f no show ?thesis by (intro exI [of _ "[]"]) simp
  next
    case False
    with f no show ?thesis
      by (intro exI [of _ "[\<lparr>build_id = fresh_id (builds s), projectId = pid,
         build_status = ''pending'', build_number = 1,
         build_url = ''https://'' @ nm @ BASE_URL w, build_log = []\<rparr>]"]) simp
  qed
qed

lemma startBuild_db_answers:
  "\<exists>n. db_answers (startBuild w pid nm url s) = drop n (db_answers s)"
proof (cases "db_next s = Answered")
  case True
  show ?thesis
    by (rule startBuild_shape [OF True, of w pid nm url])
next
  case False
  from startBuild_not_created [OF False, of w pid nm url] show ?thesis
    by (intro exI [of _ "Suc 0"]) (simp add: drop_Suc)
qed

subsection \<open>Sequences of runs\<close>

lemma fresh_id_append: "build_id row < fresh_id (bs @ [row])"
  by (rule build_id_below_fresh) simp

lemma fresh_id_mono: "fresh_id bs \<le> fresh_id (bs @ [row])"
  by (induction bs) (auto simp add: fresh_id_def)

lemma runs_rows:
  "\<exists>new. builds (runs rs s) = builds s @ new \<and> length new \<le> length rs \<and>
         (answered_all s \<longrightarrow> length new = length rs) \<and>
         list_all (\<lambda>b. build_number b = 1) new \<and>
         sorted_wrt (<) (map build_id new) \<and>
         list_all (\<lambda>b. fresh_id (builds s) \<le> build_id b) new"
proof (induction rs arbitrary: s)
  case Nil
  show ?case by simp
next
  case (Cons a rs)
  obtain w pid nm url where a: "a = (w, pid, nm, url)" by (cases a)
  define s1 where "s1 = startBuild w pid nm url s"
  from startBuild_rows [of w pid nm url s] obtain new1 where
    n1: "builds s1 = builds s @ new1" "length new1 \<le> 1"
        "list_all (\<lambda>b. build_number b = 1 \<and> build_id b = fresh_id (builds s) \<and> projectId b = pid) new1"
        "answered_all s \<longrightarrow> length new1 = 1"
    unfolding s1_def by blast
  from startBuild_db_answers [of w pid nm url s] obtain k where
    "db_answers s1 = drop k (db_answers s)"
    unfolding s1_def ..
  then have up: "answered_all s \<longrightarrow> answered_all s1"
    using answered_all_drop by blast
  from Cons.IH [of s1] obtain new where
    n: "builds (runs rs s1) = builds s1 @ new" "length new \<le> length rs"
       "answered_all s1 \<longrightarrow> length new = length rs"
       "list_all (\<lambda>b. build_number b = 1) new"
       "sorted_wrt (<) (map build_id new)"
       "list_all (\<lambda>b. fresh_id (builds s1) \<le> build_id b) new"
    by blast
  have mono: "fresh_id (builds s) \<le> fresh_id (builds s1)"
    and above: "list_all (\<lambda>b. build_id b < fresh_id (builds s1)) new1"
  proof -
    show "fresh_id (builds s) \<le> fresh_id (builds s1)"
    proof (cases new1)
      case Nil
      with n1(1) show ?thesis by simp
    next
      case (Cons row rest)
      with n1(2) have "new1 = [row]" by simp
      with n1(1) fresh_id_mono [of "builds s" row] show ?thesis by simp
    qed
    show "list_all (\<lambda>b. build_id b < fresh_id (builds s1)) new1"
    proof (cases new1)
      case Nil
      then show ?thesis by simp
    next
      case (Cons row rest)
      with n1(2) have "new1 = [row]" by simp
      with n1(1) fresh_id_append [of row "builds s"] show ?thesis by simp
    qed
  qed
  have sorted1: "sorted_wrt (<) (map build_id new1)"
    using n1(2) by (cases new1) simp_all
  have sorted: "sorted_wrt (<) (map build_id (new1 @ new))"
    using sorted1 n(5) n(6) above
    by (fastforce simp add: sorted_wrt_append list_all_iff)
  have least: "list_all (\<lambda>b. fresh_id (builds s) \<le> build_id b) (new1 @ new)"
    using n1(3) n(6) mono by (fastforce simp add: list_all_iff)
  have ones: "list_all (\<lambda>b. build_number b = 1) (new1 @ new)"
    using n1(3) n(4) by (auto simp add: list_all_iff)
  show ?case
    apply (rule exI [of _ "new1 @ new"])
    using n(1,2,3) n1(1,2,4) up sorted least ones
    apply (simp add: a s1_def [symmetric])
    done
qed

lemma runs_keep_rows: "take (length (builds s)) (builds (runs rs s)) = builds s"
  using runs_rows [of rs s] by auto

section \<open>Build records\<close>

text \<open>
  C3, as stated, fails once the record store does not answer. When the clone throws
  and the record store refuses the update of the \<open>catch\<close> block, the row stays
  \<open>pending\<close>: its status is never mutated. When the record store refuses the
  insertion, the run leaves no row. When every stage goes through and the record
  store applies the update to \<open>success\<close> but its answer is lost, the row is \<open>success\<close>
  at the end of the \<open>try\<close> block and \<open>failed\<close> at the end of the run.
\<close>

theorem build_status_counterexample:
  "filter is_status_write
     (calls_of_run no_such_repo 1 ''app'' ''u'' (sys0\<lparr>db_answers := [Answered, Refused]\<rparr>)) =
     [DbInsert 1 ''pending'', DbUpdate 1 ''failed''] \<and>
   map build_status
     (builds (startBuild no_such_repo 1 ''app'' ''u'' (sys0\<lparr>db_answers := [Answered, Refused]\<rparr>))) =
     [''pending''] \<and>
   builds (startBuild world0 1 ''app'' ''u'' (sys0\<lparr>db_answers := [Refused]\<rparr>)) = [] \<and>
   map build_status
     (builds (snd (attempt world0 1 ''app'' ''u'' (sys0\<lparr>db_answers := [Answered, Lost]\<rparr>)))) =
     [''success''] \<and>
   map build_status
     (builds (startBuild world0 1 ''app'' ''u'' (sys0\<lparr>db_answers := [Answered, Lost]\<rparr>))) =
     [''failed''] \<and>
   filter is_status_write
     (calls_of_run world0 1 ''app'' ''u'' (sys0\<lparr>db_answers := [Answered, Lost]\<rparr>)) =
     [DbInsert 1 ''pending'', DbUpdate 1 ''success'', DbUpdate 1 ''failed'']"
proof -
  have a: "filter is_status_write
     (calls_of_run no_such_repo 1 ''app'' ''u'' (sys0\<lparr>db_answers := [Answered, Refused]\<rparr>)) =
     [DbInsert 1 ''pending'', DbUpdate 1 ''failed''] \<and>
   map build_status
     (builds (startBuild no_such_repo 1 ''app'' ''u'' (sys0\<lparr>db_answers := [Answered, Refused]\<rparr>))) =
     [''pending'']"
    by (simp add: calls_of_run_def startBuild_def startBuild_promise_def tryBody_def
        no_such_repo_def world0_def insertBuild_def updateStatus_def db_next_def db_sent_def
        sys0_def set_status_def fresh_id_def)
  have b: "builds (startBuild world0 1 ''app'' ''u'' (sys0\<lparr>db_answers := [Refused]\<rparr>)) = []"
    by (simp add: startBuild_def startBuild_promise_def insertBuild_def db_next_def db_sent_def
        sys0_def)
  have t: "tryBody world0 1 ''app'' ''u'' ''./tmp/1700000000000-app''
      (sys0\<lparr>builds := [\<lparr>build_id = 1, projectId = 1, build_status = ''pending'', build_number = 1,
                          build_url = ''https://app.example.com'', build_log = []\<rparr>],
            db_answers := [Lost], trace := [DbInsert 1 ''pending'']\<rparr>) =
     (Inl (Mark, ''RecordStoreFailed''),
      sys0\<lparr>objects := [(''app/index.html'', \<lparr>Body = ''<h1>new</h1>'', ContentType = Some ''text/html''\<rparr>),
                      (''app/assets/app.js'', \<lparr>Body = ''main()'', ContentType = Some ''application/octet-stream''\<rparr>)],
           builds := [\<lparr>build_id = 1, projectId = 1, build_status = ''success'', build_number = 1,
                          build_url = ''https://app.example.com'', build_log = []\<rparr>],
           db_answers := [],
           trace := [DbInsert 1 ''pending'', GitClone ''u'' ''./tmp/1700000000000-app'',
                     Exec ''cd ./tmp/1700000000000-app && npm install'',
                     Exec ''cd ./tmp/1700000000000-app && npm run build'',
                     S3 (ListObjectsV2 ''app/''), S3 (PutObject ''app/index.html''),
                     S3 (PutObject ''app/assets/app.js''), RmSync ''./tmp/1700000000000-app'',
                     DbUpdate 1 ''success'']\<rparr>)"
    by (simp add: tryBody_def world0_def readManifest_def execPromise_def execCallback_def
        exit0_def detectFramework_def declared_def existsSync_def readdirSync_def site_def
        deleteFolderFromR2_def send_ListObjectsV2_def send_PutObject_def s3_up_def s3_sent_def
        list_page_limit_def updateStatus_def db_next_def db_sent_def sys0_def set_status_def)
  have i: "insertBuild world0 1 ''app'' (sys0\<lparr>db_answers := [Answered, Lost]\<rparr>) =
     (Inr 1, sys0\<lparr>builds := [\<lparr>build_id = 1, projectId = 1, build_status = ''pending'', build_number = 1,
                          build_url = ''https://app.example.com'', build_log = []\<rparr>],
            db_answers := [Lost], trace := [DbInsert 1 ''pending'']\<rparr>)"
    by (simp add: insertBuild_def db_next_def db_sent_def sys0_def fresh_id_def world0_def)
  have tmp: "tempFolderOf world0 ''app'' = ''./tmp/1700000000000-app''"
    by (simp add: tempFolderOf_def world0_def)
  have c: "map build_status
     (builds (snd (attempt world0 1 ''app'' ''u'' (sys0\<lparr>db_answers := [Answered, Lost]\<rparr>)))) =
     [''success'']"
    by (simp only: attempt_def i prod.case sum.case tmp t snd_conv) (simp add: sys0_def)
  have d: "map build_status
     (builds (startBuild world0 1 ''app'' ''u'' (sys0\<lparr>db_answers := [Answered, Lost]\<rparr>))) =
     [''failed''] \<and>
   filter is_status_write
     (calls_of_run world0 1 ''app'' ''u'' (sys0\<lparr>db_answers := [Answered, Lost]\<rparr>)) =
     [DbInsert 1 ''pending'', DbUpdate 1 ''success'', DbUpdate 1 ''failed'']"
    by (simp only: calls_of_run_def startBuild_def startBuild_promise_def i prod.case sum.case
          tmp t snd_conv)
       (simp add: updateStatus_def db_next_def db_sent_def set_status_def sys0_def)
  from a b c d show ?thesis by simp
qed

text \<open>
  C3, amended. When the record store applies and answers every statement, a run inserts
  its row with status \<open>pending\<close> and writes the status of that row exactly once more,
  to \<open>success\<close> or to \<open>failed\<close>: the statements that set a status among the calls of
  the run are the insertion and one update, both of the row's own identifier, and the
  row ends with the status of that update. Whatever the record store answers, a run
  sends the insertion and after it at most one update to \<open>success\<close> and then at most
  one update to \<open>failed\<close>, for the identifier of its own row: nothing is sent after an
  update to \<open>failed\<close>, so no row goes from \<open>failed\<close> to \<open>success\<close>. A run adds at
  most one row, and no run, and no sequence of runs, changes a row that existed
  before it.
\<close>

theorem build_status_written_once:
  "(answered_all s \<longrightarrow>
      (\<exists>st. (st = ''success'' \<or> st = ''failed'') \<and>
         filter is_status_write (calls_of_run w pid nm url s) =
           [DbInsert (fresh_id (builds s)) ''pending'', DbUpdate (fresh_id (builds s)) st] \<and>
         builds (startBuild w pid nm url s) = builds s @
           [\<lparr>build_id = fresh_id (builds s), projectId = pid, build_status = st,
             build_number = 1, build_url = ''https://'' @ nm @ BASE_URL w, build_log = []\<rparr>])) \<and>
   (\<exists>ups new.
      filter is_status_write (calls_of_run w pid nm url s) =
        DbInsert (fresh_id (builds s)) ''pending'' # ups \<and>
      ups \<in> set [[], [DbUpdate (fresh_id (builds s)) ''success''],
                  [DbUpdate (fresh_id (builds s)) ''failed''],
                  [DbUpdate (fresh_id (builds s)) ''success'',
                   DbUpdate (fresh_id (builds s)) ''failed'']] \<and>
      builds (startBuild w pid nm url s) = builds s @ new \<and> length new \<le> 1 \<and>
      list_all (\<lambda>b. build_id b = fresh_id (builds s)) new) \<and>
   take (length (builds s)) (builds (runs rs s)) = builds s"
proof (intro conjI)
  show "take (length (builds s)) (builds (runs rs s)) = builds s"
    by (rule runs_keep_rows)
next
  define bid where "bid = fresh_id (builds s)"
  define row where "row = (\<lambda>st. \<lparr>build_id = bid, projectId = pid, build_status = st,
         build_number = 1, build_url = ''https://'' @ nm @ BASE_URL w, build_log = []\<rparr>)"
  have both: "(answered_all s \<longrightarrow>
      (\<exists>st. (st = ''success'' \<or> st = ''failed'') \<and>
         filter is_status_write (calls_of_run w pid nm url s) =
           [DbInsert bid ''pending'', DbUpdate bid st] \<and>
         builds (startBuild w pid nm url s) = builds s @ [row st])) \<and>
   (\<exists>ups new.
      filter is_status_write (calls_of_run w pid nm url s) = DbInsert bid ''pending'' # ups \<and>
      ups \<in> set [[], [DbUpdate bid ''success''], [DbUpdate bid ''failed''],
                  [DbUpdate bid ''success'', DbUpdate bid ''failed'']] \<and>
      builds (startBuild w pid nm url s) = builds s @ new \<and> length new \<le> 1 \<and>
      list_all (\<lambda>b. build_id b = bid) new)"
  proof (cases "db_next s = Answered")
    case False
    note f = startBuild_not_created [OF False, of w pid nm url, folded bid_def]
    from False have no: "\<not> answered_all s"
      using answered_all_next by blast
    have "\<exists>new. builds (startBuild w pid nm url s) = builds s @ new \<and> length new \<le> 1 \<and>
      list_all (\<lambda>b. build_id b = bid) new"
      using f by (cases "db_next s = Refused") simp_all
    with f no show ?thesis by simp
  next
    case True
    show ?thesis
    proof (rule startBuild_shape [OF True, of w pid nm url, folded bid_def])
      fix st ex ld pt cl ct
      assume sh:
        "builds (startBuild w pid nm url s) = builds s @
           [\<lparr>build_id = bid, projectId = pid, build_status = st,
             build_number = 1, build_url = ''https://'' @ nm @ BASE_URL w, build_log = []\<rparr>]"
        "calls_of_run w pid nm url s =
           DbInsert bid ''pending'' # GitClone url (tempFolderOf w nm) #
             ex @ ld @ pt @ cl @ ct"
        "list_all is_exec ex" "list_all is_list_or_delete ld" "list_all is_put pt"
        "\<And>u. fst (attempt w pid nm url s) = Inr u \<Longrightarrow>
            st = ''success'' \<and>
            cl = [RmSync (tempFolderOf w nm), DbUpdate bid ''success''] \<and>
            ct = [] \<and>
            ex = [Exec (''cd '' @ tempFolderOf w nm @ '' && npm install''),
                  Exec (''cd '' @ tempFolderOf w nm @ '' && npm run build'')]"
        "\<And>stg e. fst (attempt w pid nm url s) = Inl (stg, e) \<Longrightarrow>
            stg \<noteq> Create \<and>
            ct = [ConsoleLog ''Build Failed'' e, DbUpdate bid ''failed''] \<and>
            (refused_none s \<longrightarrow> st = ''failed'') \<and>
            (stage_rank stg < 7 \<longrightarrow> cl = []) \<and>
            (stg = Remove \<longrightarrow> cl = [RmSync (tempFolderOf w nm)]) \<and>
            (stg = Mark \<longrightarrow>
               cl = [RmSync (tempFolderOf w nm), DbUpdate bid ''success''] \<and>
               \<not> answered_all s) \<and>
            (stage_rank stg < 4 \<longrightarrow> ex = []) \<and>
            (stg = Install \<longrightarrow> ex = [Exec (''cd '' @ tempFolderOf w nm @ '' && npm install'')]) \<and>
            (stage_rank stg < 5 \<longrightarrow> ld = [] \<and> pt = []) \<and>
            (stg = Delete \<longrightarrow> pt = [])"
      have mid: "filter is_status_write (ex @ ld @ pt) = []"
        using no_status_write(1) [OF sh(3)] no_status_write(2) [OF sh(4)] no_status_write(3) [OF sh(5)]
        by simp
      have writes: "filter is_status_write (calls_of_run w pid nm url s) =
          DbInsert bid ''pending'' # filter is_status_write (cl @ ct)"
        using mid by (simp add: sh(2))
      have rows: "builds (startBuild w pid nm url s) = builds s @ [row st]"
        using sh(1) by (simp add: row_def)
      have "(answered_all s \<longrightarrow> (st = ''success'' \<or> st = ''failed'') \<and>
              filter is_status_write (cl @ ct) = [DbUpdate bid st]) \<and>
            filter is_status_write (cl @ ct) \<in>
              set [[], [DbUpdate bid ''success''], [DbUpdate bid ''failed''],
                   [DbUpdate bid ''success'', DbUpdate bid ''failed'']]"
      proof (cases "fst (attempt w pid nm url s)")
        case (Inr u)
        from sh(6) [OF this] show ?thesis by simp
      next
        case (Inl p)
        obtain stg e where p: "p = (stg, e)" by (cases p)
        from sh(7) [OF Inl [unfolded p]] have ko: "stg \<noteq> Create"
          "ct = [ConsoleLog ''Build Failed'' e, DbUpdate bid ''failed'']"
          "refused_none s \<longrightarrow> st = ''failed''"
          "stage_rank stg < 7 \<longrightarrow> cl = []"
          "stg = Remove \<longrightarrow> cl = [RmSync (tempFolderOf w nm)]"
          "stg = Mark \<longrightarrow>
             cl = [RmSync (tempFolderOf w nm), DbUpdate bid ''success''] \<and> \<not> answered_all s"
          by simp_all
        from closing_calls [OF ko(1,4,5,6)]
        consider "cl = []" | "cl = [RmSync (tempFolderOf w nm)]"
          | "cl = [RmSync (tempFolderOf w nm), DbUpdate bid ''success'']" "stg = Mark"
          by blast
        then show ?thesis
        proof cases
          case 1
          with ko(2,3) answered_all_refused_none [of s] show ?thesis by auto
        next
          case 2
          with ko(2,3) answered_all_refused_none [of s] show ?thesis by auto
        next
          case 3
          with ko(2,6) show ?thesis by auto
        qed
      qed
      with writes rows show ?thesis
        by (auto simp add: row_def)
    qed
  qed
  from both show "answered_all s \<longrightarrow>
      (\<exists>st. (st = ''success'' \<or> st = ''failed'') \<and>
         filter is_status_write (calls_of_run w pid nm url s) =
           [DbInsert (fresh_id (builds s)) ''pending'', DbUpdate (fresh_id (builds s)) st] \<and>
         builds (startBuild w pid nm url s) = builds s @
           [\<lparr>build_id = fresh_id (builds s), projectId = pid, build_status = st,
             build_number = 1, build_url = ''https://'' @ nm @ BASE_URL w, build_log = []\<rparr>])"
    unfolding bid_def row_def by (rule conjunct1)
  from both show "\<exists>ups new.
      filter is_status_write (calls_of_run w pid nm url s) =
        DbInsert (fresh_id (builds s)) ''pending'' # ups \<and>
      ups \<in> set [[], [DbUpdate (fresh_id (builds s)) ''success''],
                  [DbUpdate (fresh_id (builds s)) ''failed''],
                  [DbUpdate (fresh_id (builds s)) ''success'',
                   DbUpdate (fresh_id (builds s)) ''failed'']] \<and>
      builds (startBuild w pid nm url s) = builds s @ new \<and> length new \<le> 1 \<and>
      list_all (\<lambda>b. build_id b = fresh_id (builds s)) new"
    unfolding bid_def row_def by (rule conjunct2)
qed

text \<open>
  The amended C3 at a record store that answers: a run in which every stage goes
  through ends \<open>success\<close> after one update, and one whose clone throws ends
  \<open>failed\<close> after one update.
\<close>

theorem build_status_written_once_witness:
  "answered_all sys0 \<and>
   filter is_status_write (calls_of_run world0 1 ''app'' ''u'' sys0) =
     [DbInsert 1 ''pending'', DbUpdate 1 ''success''] \<and>
   builds (startBuild world0 1 ''app'' ''u'' sys0) =
     [\<lparr>build_id = 1, projectId = 1, build_status = ''success'', build_number = 1,
       build_url = ''https://app.example.com'', build_log = []\<rparr>] \<and>
   filter is_status_write (calls_of_run no_such_repo 1 ''app'' ''u'' sys0) =
     [DbInsert 1 ''pending'', DbUpdate 1 ''failed''] \<and>
   builds (startBuild no_such_repo 1 ''app'' ''u'' sys0) =
     [\<lparr>build_id = 1, projectId = 1, build_status = ''failed'', build_number = 1,
       build_url = ''https://app.example.com'', build_log = []\<rparr>]"
proof -
  have h: "answered_all sys0"
    by (simp add: answered_all_def sys0_def)
  have b: "builds sys0 = []" "fresh_id [] = 1"
    "''https://'' @ ''app'' @ BASE_URL world0 = ''https://app.example.com''"
    "''https://'' @ ''app'' @ BASE_URL no_such_repo = ''https://app.example.com''"
    by (simp_all add: sys0_def fresh_id_def world0_def no_such_repo_def)
  define row where "row = (\<lambda>st. \<lparr>build_id = 1, projectId = 1, build_status = st, build_number = 1,
       build_url = ''https://app.example.com'', build_log = []\<rparr>)"
  note t1 = build_status_written_once [of sys0 world0 1 "''app''" "''u''" "[]",
      THEN conjunct1, rule_format, OF h, unfolded b append_Nil, folded row_def]
  note t2 = build_status_written_once [of sys0 no_such_repo 1 "''app''" "''u''" "[]",
      THEN conjunct1, rule_format, OF h, unfolded b append_Nil, folded row_def]
  define s0 where "s0 = sys0\<lparr>builds := [row ''pending''], trace := [DbInsert 1 ''pending'']\<rparr>"
  have i: "insertBuild world0 1 ''app'' sys0 = (Inr 1, s0)"
    by (simp add: insertBuild_def db_next_def db_sent_def sys0_def fresh_id_def world0_def
        s0_def row_def)
  have tmp: "tempFolderOf world0 ''app'' = ''./tmp/1700000000000-app''"
    by (simp add: tempFolderOf_def world0_def)
  have "fst (tryBody world0 1 ''app'' ''u'' ''./tmp/1700000000000-app'' s0) = Inr () \<and>
      map build_status (builds (snd (tryBody world0 1 ''app'' ''u'' ''./tmp/1700000000000-app'' s0))) =
        [''success'']"
    by (simp add: tryBody_def world0_def readManifest_def execPromise_def execCallback_def
        exit0_def detectFramework_def declared_def existsSync_def readdirSync_def site_def
        deleteFolderFromR2_def send_ListObjectsV2_def send_PutObject_def s3_up_def s3_sent_def
        list_page_limit_def updateStatus_def db_next_def db_sent_def sys0_def set_status_def
        s0_def row_def)
  then obtain s' where t: "tryBody world0 1 ''app'' ''u'' ''./tmp/1700000000000-app'' s0 = (Inr (), s')"
    and st: "map build_status (builds s') = [''success'']"
    by (cases "tryBody world0 1 ''app'' ''u'' ''./tmp/1700000000000-app'' s0") simp
  have e1: "map build_status (builds (startBuild world0 1 ''app'' ''u'' sys0)) = [''success'']"
    by (simp only: startBuild_def startBuild_promise_def i prod.case sum.case tmp t snd_conv st)
  have e2: "map build_status (builds (startBuild no_such_repo 1 ''app'' ''u'' sys0)) = [''failed'']"
    by (simp add: startBuild_def startBuild_promise_def tryBody_def no_such_repo_def world0_def
        insertBuild_def updateStatus_def db_next_def db_sent_def sys0_def set_status_def
        fresh_id_def)
  from t1 e1 have c1: "filter is_status_write (calls_of_run world0 1 ''app'' ''u'' sys0) =
       [DbInsert 1 ''pending'', DbUpdate 1 ''success''] \<and>
     builds (startBuild world0 1 ''app'' ''u'' sys0) = [row ''success'']"
    by (auto simp add: row_def)
  from t2 e2 have c2: "filter is_status_write (calls_of_run no_such_repo 1 ''app'' ''u'' sys0) =
       [DbInsert 1 ''pending'', DbUpdate 1 ''failed''] \<and>
     builds (startBuild no_such_repo 1 ''app'' ''u'' sys0) = [row ''failed'']"
    by (auto simp add: row_def)
  from h c1 c2 show ?thesis
    unfolding row_def by (intro conjI) simp_all
qed

text \<open>
  C5, as stated, fails: two successive runs for the same project leave two rows with
  the same build number, 1.
\<close>

theorem build_number_counterexample:
  "map build_number (builds (runs [(world0, 1, ''app'', ''u''), (world0, 1, ''app'', ''u'')] sys0)) = [1, 1] \<and>
   map projectId (builds (runs [(world0, 1, ''app'', ''u''), (world0, 1, ''app'', ''u'')] sys0)) = [1, 1]"
proof -
  define s1 where "s1 = startBuild world0 1 ''app'' ''u'' sys0"
  define s2 where "s2 = startBuild world0 1 ''app'' ''u'' s1"
  have r: "runs [(world0, 1, ''app'', ''u''), (world0, 1, ''app'', ''u'')] sys0 = s2"
    by (simp add: s1_def s2_def)
  have h: "answered_all sys0"
    by (simp add: answered_all_def sys0_def)
  from startBuild_db_answers [of world0 1 "''app''" "''u''" sys0] obtain n where
    "db_answers s1 = drop n (db_answers sys0)"
    unfolding s1_def ..
  from answered_all_drop [OF h this] have h1: "answered_all s1" .
  have one: "map build_number new = [1] \<and> map projectId new = [pid]"
    if "length new = 1"
      "list_all (\<lambda>b. build_number b = 1 \<and> build_id b = i \<and> projectId b = pid) new"
    for new :: "build list" and i pid
    using that by (cases new) simp_all
  from startBuild_rows [of world0 1 "''app''" "''u''" sys0] h one
  have b1: "map build_number (builds s1) = [1] \<and> map projectId (builds s1) = [1]"
    unfolding s1_def by (auto simp add: sys0_def)
  from startBuild_rows [of world0 1 "''app''" "''u''" s1] h1 one
  have "map build_number (builds s2) = map build_number (builds s1) @ [1] \<and>
        map projectId (builds s2) = map projectId (builds s1) @ [1]"
    unfolding s2_def by auto
  with b1 r show ?thesis by simp
qed

text \<open>
  C5, amended: every row a run inserts carries build number 1, for every project and
  after any number of earlier runs; what grows strictly from one inserted row to the
  next is the identifier of the row. A run inserts at most one row, and exactly one
  when the record store applies and answers every statement.
\<close>

theorem build_number_is_one:
  "map build_number (drop (length (builds s)) (builds (runs rs s))) =
     replicate (length (drop (length (builds s)) (builds (runs rs s)))) 1 \<and>
   sorted_wrt (<) (map build_id (drop (length (builds s)) (builds (runs rs s)))) \<and>
   length (drop (length (builds s)) (builds (runs rs s))) \<le> length rs \<and>
   (answered_all s \<longrightarrow>
      map build_number (drop (length (builds s)) (builds (runs rs s))) = replicate (length rs) 1)"
proof -
  from runs_rows [of rs s] obtain new where
    n: "builds (runs rs s) = builds s @ new" "length new \<le> length rs"
       "answered_all s \<longrightarrow> length new = length rs"
       "list_all (\<lambda>b. build_number b = 1) new"
       "sorted_wrt (<) (map build_id new)"
    by blast
  have "map build_number bs = replicate (length bs) 1"
    if "list_all (\<lambda>b. build_number b = 1) bs" for bs :: "build list"
    using that by (induction bs) simp_all
  from this [OF n(4)] n show ?thesis by auto
qed

text \<open>
  The amended C5 at two runs for the same project, the second with a clone that
  throws, at a record store that answers.
\<close>

theorem build_number_is_one_witness:
  "answered_all sys0 \<and>
   map build_number
     (drop (length (builds sys0))
        (builds (runs [(world0, 1, ''app'', ''u''), (no_such_repo, 1, ''app'', ''u'')] sys0))) =
     [1, 1]"
proof -
  have h: "answered_all sys0"
    by (simp add: answered_all_def sys0_def)
  have two: "replicate (length [(world0, 1 :: nat, ''app'', ''u''), (no_such_repo, 1, ''app'', ''u'')]) (1 :: int) = [1, 1]"
    by (simp add: numeral_2_eq_2)
  note t = build_number_is_one [of sys0 "[(world0, 1, ''app'', ''u''), (no_such_repo, 1, ''app'', ''u'')]",
      THEN conjunct2, THEN conjunct2, THEN conjunct2, rule_format, OF h, unfolded two]
  from h t show ?thesis by (intro conjI)
qed

section \<open>Failure of a stage\<close>

text \<open>
  When the stages in front of the delete stage go through, the \<open>try\<close> block is the
  delete stage followed by the upload stage and the closing calls.
\<close>

lemma tryBody_after_build:
  assumes "commands_pass w nm url fw built"
  shows "tryBody w bid nm url (tempFolderOf w nm) s =
    (case deleteFolderFromR2 (nm @ ''/'') (after_commands w nm url fw s) of
        (Inl e, s4) \<Rightarrow> (Inl (Delete, e), s4)
      | (Inr _, s4) \<Rightarrow>
      (case (case readdirSync built (outDir fw) of
               Inl e \<Rightarrow> (Inl e, s4)
             | Inr es \<Rightarrow> uploadDirToR2 w es nm s4) of
        (Inl e, s5) \<Rightarrow> (Inl (Upload, e), s5)
      | (Inr _, s5) \<Rightarrow>
      (let s6 = s5\<lparr>trace := trace s5 @ [RmSync (tempFolderOf w nm)]\<rparr> in
       case rmSync w (tempFolderOf w nm) of
        Some e \<Rightarrow> (Inl (Remove, e), s6)
      | None \<Rightarrow>
      (case updateStatus bid ''success'' s6 of
        (Inl e, s7) \<Rightarrow> (Inl (Mark, e), s7)
      | (Inr _, s7) \<Rightarrow> (Inr (), s7)))))"
  using assms
proof cases
  case (commands_passI cloned pkg r1 installed out1 r2 out2)
  from commands_passI(2-) show ?thesis
    unfolding commands_passI(1) by (simp add: tryBody_def execPromise_def after_commands_def)
qed

text \<open>A stage that fails ends the \<open>try\<close> block with what it threw.\<close>

lemma stage_fails_tryBody:
  assumes "stage_fails w bid nm url s stg e"
  shows "fst (tryBody w bid nm url (tempFolderOf w nm) s) = Inl (stg, e)"
  using assms
proof cases
  case clone_fails
  then show ?thesis by (simp add: tryBody_def)
next
  case (manifest_fails cloned)
  then show ?thesis by (simp add: tryBody_def)
next
  case (install_fails cloned pkg r1 installed)
  then show ?thesis by (simp add: tryBody_def execPromise_def)
next
  case (build_fails cloned pkg r1 installed out1 r2 built)
  then show ?thesis by (simp add: tryBody_def execPromise_def)
next
  case (delete_fails fw built s4)
  then show ?thesis by (simp add: tryBody_after_build [OF delete_fails(2)])
next
  case (listing_fails fw built u4 s4)
  then show ?thesis by (simp add: tryBody_after_build [OF listing_fails(2)])
next
  case (put_fails fw built u4 s4 es s5)
  then show ?thesis by (simp add: tryBody_after_build [OF put_fails(2)])
next
  case (remove_fails fw built u4 s4 es u5 s5)
  then show ?thesis by (simp add: tryBody_after_build [OF remove_fails(2)] Let_def)
next
  case (mark_fails fw built u4 s4 es u5 s5 s7)
  then show ?thesis by (simp add: tryBody_after_build [OF mark_fails(2)] Let_def)
qed

lemma filter_exec_nil: "list_all is_list_or_delete ld \<Longrightarrow> list_all is_put pt \<Longrightarrow>
    filter is_exec (ld @ pt) = []"
  using filter_none [of is_list_or_delete ld is_exec] filter_none [of is_put pt is_exec]
    list_or_delete_kind put_kind by simp

text \<open>
  C4, as stated, fails: when the clone throws, the row of the run is marked \<open>failed\<close>
  and its \<open>build_log\<close> is the empty string the insertion gave it, not the text that
  was thrown. When the record store refuses the update of the \<open>catch\<close> block, the
  row is not even marked: it stays \<open>pending\<close>.
\<close>

theorem build_log_counterexample:
  "fst (attempt no_such_repo 1 ''app'' ''u'' sys0) = Inl (Clone, ''fatal: repository not found'') \<and>
   map build_status (builds (startBuild no_such_repo 1 ''app'' ''u'' sys0)) = [''failed''] \<and>
   map build_log (builds (startBuild no_such_repo 1 ''app'' ''u'' sys0)) = [[]] \<and>
   fst (attempt no_such_repo 1 ''app'' ''u'' (sys0\<lparr>db_answers := [Answered, Refused]\<rparr>)) =
     Inl (Clone, ''fatal: repository not found'') \<and>
   map build_status
     (builds (startBuild no_such_repo 1 ''app'' ''u'' (sys0\<lparr>db_answers := [Answered, Refused]\<rparr>))) =
     [''pending'']"
  by (simp add: startBuild_def startBuild_promise_def attempt_def tryBody_def no_such_repo_def
      world0_def insertBuild_def updateStatus_def db_next_def db_sent_def sys0_def set_status_def
      fresh_id_def)

text \<open>
  C4, amended. Take a run whose insertion was answered with the identifier \<open>bid\<close> and
  left the state \<open>s0\<close>, and in which \<open>stg\<close> fails with \<open>e\<close>. The \<open>try\<close> block ends
  there with \<open>e\<close>, and no later stage is started: a failure before the install step
  runs no command, a failed install step does not run the build step, a failure
  before the delete stage sends nothing to the object store, a failed delete stage
  puts no object, a failure before the removal of the scratch directory does not
  remove it, and only a failed update to \<open>success\<close> has sent that update. The thrown
  text is written to the console and the update of the status to \<open>failed\<close> is sent.
  When the record store refuses no statement, the row of the run ends \<open>failed\<close>; its
  \<open>build_log\<close> stays empty.
\<close>

theorem failed_stage_marks_build_failed:
  "insertBuild w pid nm s = (Inr bid, s0) \<Longrightarrow>
   stage_fails w bid nm url s0 stg e \<Longrightarrow>
   bid = fresh_id (builds s) \<and>
   fst (attempt w pid nm url s) = Inl (stg, e) \<and>
   (refused_none s \<longrightarrow>
      builds (startBuild w pid nm url s) = builds s @
        [\<lparr>build_id = bid, projectId = pid, build_status = ''failed'',
          build_number = 1, build_url = ''https://'' @ nm @ BASE_URL w, build_log = []\<rparr>]) \<and>
   (\<exists>evs. calls_of_run w pid nm url s =
        evs @ [ConsoleLog ''Build Failed'' e, DbUpdate bid ''failed''] \<and>
      (stage_rank stg < 4 \<longrightarrow> filter is_exec evs = []) \<and>
      (stg = Install \<longrightarrow>
         filter is_exec evs = [Exec (''cd '' @ tempFolderOf w nm @ '' && npm install'')]) \<and>
      (stage_rank stg < 5 \<longrightarrow> filter is_s3 evs = []) \<and>
      (stg = Delete \<longrightarrow> filter is_put evs = []) \<and>
      (stage_rank stg < 7 \<longrightarrow> filter is_rm evs = []) \<and>
      (stage_rank stg < 8 \<longrightarrow> DbUpdate bid ''success'' \<notin> set evs))"
proof -
  assume ins: "insertBuild w pid nm s = (Inr bid, s0)"
    and fails: "stage_fails w bid nm url s0 stg e"
  from insertBuild_cases [OF ins] have created: "db_next s = Answered"
    and bid: "bid = fresh_id (builds s)"
    by simp_all
  have failed: "fst (attempt w pid nm url s) = Inl (stg, e)"
    using stage_fails_tryBody [OF fails] ins by (simp add: attempt_def)
  show ?thesis
  proof (rule startBuild_shape [OF created, of w pid nm url, folded bid])
    fix st ex ld pt cl ct
    assume sh:
      "builds (startBuild w pid nm url s) = builds s @
         [\<lparr>build_id = bid, projectId = pid, build_status = st,
           build_number = 1, build_url = ''https://'' @ nm @ BASE_URL w, build_log = []\<rparr>]"
      "calls_of_run w pid nm url s =
         DbInsert bid ''pending'' # GitClone url (tempFolderOf w nm) #
           ex @ ld @ pt @ cl @ ct"
      "list_all is_exec ex" "list_all is_list_or_delete ld" "list_all is_put pt"
      "\<And>stg e. fst (attempt w pid nm url s) = Inl (stg, e) \<Longrightarrow>
          stg \<noteq> Create \<and>
          ct = [ConsoleLog ''Build Failed'' e, DbUpdate bid ''failed''] \<and>
          (refused_none s \<longrightarrow> st = ''failed'') \<and>
          (stage_rank stg < 7 \<longrightarrow> cl = []) \<and>
          (stg = Remove \<longrightarrow> cl = [RmSync (tempFolderOf w nm)]) \<and>
          (stg = Mark \<longrightarrow>
             cl = [RmSync (tempFolderOf w nm), DbUpdate bid ''success''] \<and>
             \<not> answered_all s) \<and>
          (stage_rank stg < 4 \<longrightarrow> ex = []) \<and>
          (stg = Install \<longrightarrow> ex = [Exec (''cd '' @ tempFolderOf w nm @ '' && npm install'')]) \<and>
          (stage_rank stg < 5 \<longrightarrow> ld = [] \<and> pt = []) \<and>
          (stg = Delete \<longrightarrow> pt = [])"
    from sh(6) [OF failed] have ko:
      "stg \<noteq> Create"
      "ct = [ConsoleLog ''Build Failed'' e, DbUpdate bid ''failed'']"
      "refused_none s \<longrightarrow> st = ''failed''"
      "stage_rank stg < 7 \<longrightarrow> cl = []"
      "stg = Remove \<longrightarrow> cl = [RmSync (tempFolderOf w nm)]"
      "stg = Mark \<longrightarrow>
         cl = [RmSync (tempFolderOf w nm), DbUpdate bid ''success''] \<and> \<not> answered_all s"
      "stage_rank stg < 4 \<longrightarrow> ex = []"
      "stg = Install \<longrightarrow> ex = [Exec (''cd '' @ tempFolderOf w nm @ '' && npm install'')]"
      "stage_rank stg < 5 \<longrightarrow> ld = [] \<and> pt = []"
      "stg = Delete \<longrightarrow> pt = []"
      by simp_all
    define evs where
      "evs = DbInsert bid ''pending'' # GitClone url (tempFolderOf w nm) # ex @ ld @ pt @ cl"
    have calls: "calls_of_run w pid nm url s =
        evs @ [ConsoleLog ''Build Failed'' e, DbUpdate bid ''failed'']"
      by (simp add: sh(2) ko(2) evs_def)
    from closing_calls [OF ko(1,4,5,6)]
    have cl: "cl = [] \<or> cl = [RmSync (tempFolderOf w nm)] \<or>
        (cl = [RmSync (tempFolderOf w nm), DbUpdate bid ''success''] \<and> stg = Mark)" .
    then have cl_kind: "filter is_exec cl = []" "filter is_s3 cl = []" "filter is_put cl = []"
      by auto
    have ex_exec: "filter is_exec ex = ex"
      using filter_all [OF sh(3), of is_exec] by simp
    have exec: "filter is_exec evs = ex"
      using filter_exec_nil [OF sh(4) sh(5)] ex_exec cl_kind by (simp add: evs_def)
    have s3: "filter is_s3 evs = ld @ pt"
      using filter_none [OF sh(3), of is_s3] filter_all [OF sh(4), of is_s3]
        filter_all [OF sh(5), of is_s3] exec_kind list_or_delete_kind put_kind cl_kind
      by (simp add: evs_def)
    have put: "filter is_put evs = pt"
      using filter_none [OF sh(3), of is_put] filter_none [OF sh(4), of is_put]
        filter_all [OF sh(5), of is_put] exec_kind list_or_delete_kind cl_kind
      by (simp add: evs_def)
    have rm: "filter is_rm evs = filter is_rm cl"
      using filter_none [OF sh(3), of is_rm] filter_none [OF sh(4), of is_rm]
        filter_none [OF sh(5), of is_rm] exec_kind list_or_delete_kind put_kind
      by (simp add: evs_def)
    have "filter is_status_write evs = DbInsert bid ''pending'' # filter is_status_write cl"
      using no_status_write(1) [OF sh(3)] no_status_write(2) [OF sh(4)] no_status_write(3) [OF sh(5)]
      by (simp add: evs_def)
    moreover have "stage_rank stg < 8 \<longrightarrow> filter is_status_write cl = []"
      using cl by auto
    ultimately have "stage_rank stg < 8 \<longrightarrow>
        DbUpdate bid ''success'' \<notin> set (filter is_status_write evs)"
      by simp
    then have never: "stage_rank stg < 8 \<longrightarrow> DbUpdate bid ''success'' \<notin> set evs"
      by simp
    have rm7: "stage_rank stg < 7 \<longrightarrow> filter is_rm evs = []"
      using rm ko(4) by simp
    show ?thesis
      using bid failed sh(1) ko(3) calls exec s3 put rm7 never ko(7-10)
      by (intro conjI exI [of _ evs]) simp_all
  qed
qed

lemma commands_pass_world0:
  "commands_pass world0 ''app'' url
     (detectFramework \<lparr>dependencies = None, devDependencies = None\<rparr> [(''package.json'', File ''{}'')])
     [(''dist'', Dir site), (''package.json'', File ''{}'')]"
  by (rule commands_passI [where ?r1.0 = exit0 and ?r2.0 = exit0 and ?out1.0 = "''done''"
        and ?out2.0 = "''done''" and installed = "[(''package.json'', File ''{}'')]"])
     (simp_all add: world0_def readManifest_def tempFolderOf_def execCallback_def exit0_def)

text \<open>
  The amended C4 at four runs: the clone throws; the build step exits with code 1;
  the object store answers the listing of the delete stage and not its first
  deletion; the object store answers the listing and the first put of the upload
  stage and not the second put.
\<close>

theorem failed_stage_marks_build_failed_witness:
  "stage_fails no_such_repo 1 ''app'' ''u'' (snd (insertBuild no_such_repo 1 ''app'' sys0))
     Clone ''fatal: repository not found'' \<and>
   fst (attempt no_such_repo 1 ''app'' ''u'' sys0) = Inl (Clone, ''fatal: repository not found'') \<and>
   builds (startBuild no_such_repo 1 ''app'' ''u'' sys0) =
     [\<lparr>build_id = 1, projectId = 1, build_status = ''failed'', build_number = 1,
       build_url = ''https://app.example.com'', build_log = []\<rparr>] \<and>
   stage_fails build_exits_1 1 ''app'' ''u'' (snd (insertBuild build_exits_1 1 ''app'' sys0))
     Build ''boom'' \<and>
   fst (attempt build_exits_1 1 ''app'' ''u'' sys0) = Inl (Build, ''boom'') \<and>
   builds (startBuild build_exits_1 1 ''app'' ''u'' sys0) =
     [\<lparr>build_id = 1, projectId = 1, build_status = ''failed'', build_number = 1,
       build_url = ''https://app.example.com'', build_log = []\<rparr>] \<and>
   stage_fails world0 1 ''app'' ''u''
     (snd (insertBuild world0 1 ''app'' (deployed\<lparr>s3_budget := Some 1\<rparr>)))
     Delete ''ArtifactStoreFailed'' \<and>
   fst (attempt world0 1 ''app'' ''u'' (deployed\<lparr>s3_budget := Some 1\<rparr>)) =
     Inl (Delete, ''ArtifactStoreFailed'') \<and>
   builds (startBuild world0 1 ''app'' ''u'' (deployed\<lparr>s3_budget := Some 1\<rparr>)) =
     [\<lparr>build_id = 1, projectId = 1, build_status = ''failed'', build_number = 1,
       build_url = ''https://app.example.com'', build_log = []\<rparr>] \<and>
   stage_fails world0 1 ''app'' ''u''
     (snd (insertBuild world0 1 ''app'' (sys0\<lparr>s3_budget := Some 2\<rparr>)))
     Upload ''ArtifactStoreFailed'' \<and>
   fst (attempt world0 1 ''app'' ''u'' (sys0\<lparr>s3_budget := Some 2\<rparr>)) =
     Inl (Upload, ''ArtifactStoreFailed'') \<and>
   builds (startBuild world0 1 ''app'' ''u'' (sys0\<lparr>s3_budget := Some 2\<rparr>)) =
     [\<lparr>build_id = 1, projectId = 1, build_status = ''failed'', build_number = 1,
       build_url = ''https://app.example.com'', build_log = []\<rparr>]"
proof -
  define fw where "fw = detectFramework \<lparr>dependencies = None, devDependencies = None\<rparr>
      [(''package.json'', File ''{}'')]"
  have out: "outDir fw = ''dist''" "buildCommand fw = ''npm run build''"
    by (simp_all add: fw_def detectFramework_def declared_def existsSync_def)
  have url: "''https://'' @ ''app'' @ BASE_URL world0 = ''https://app.example.com''"
    "''https://'' @ ''app'' @ BASE_URL no_such_repo = ''https://app.example.com''"
    "''https://'' @ ''app'' @ BASE_URL build_exits_1 = ''https://app.example.com''"
    by (simp_all add: world0_def no_such_repo_def build_exits_1_def)
  have one: "fresh_id [] = 1"
    by (simp add: fresh_id_def)

  define a0 where "a0 = snd (insertBuild no_such_repo 1 ''app'' sys0)"
  have ia: "insertBuild no_such_repo 1 ''app'' sys0 = (Inr 1, a0)"
    unfolding a0_def by (simp add: insertBuild_def db_next_def sys0_def fresh_id_def)
  have fa: "stage_fails no_such_repo 1 ''app'' ''u'' a0 Clone ''fatal: repository not found''"
    by (rule stage_fails.clone_fails) (simp add: no_such_repo_def)
  have ra: "refused_none sys0" "builds sys0 = []"
    by (simp_all add: refused_none_def sys0_def)
  note ta = failed_stage_marks_build_failed [OF ia fa]

  define x0 where "x0 = snd (insertBuild build_exits_1 1 ''app'' sys0)"
  have ix: "insertBuild build_exits_1 1 ''app'' sys0 = (Inr 1, x0)"
    unfolding x0_def by (simp add: insertBuild_def db_next_def sys0_def fresh_id_def)
  have fx: "stage_fails build_exits_1 1 ''app'' ''u'' x0 Build ''boom''"
    by (rule stage_fails.build_fails [where cloned = "[(''package.json'', File ''{}'')]"
          and pkg = "\<lparr>dependencies = None, devDependencies = None\<rparr>"
          and ?r1.0 = exit0 and installed = "[(''package.json'', File ''{}'')]"
          and ?out1.0 = "''done''" and ?r2.0 = exit1
          and built = "[(''package.json'', File ''{}'')]"])
       (simp_all add: build_exits_1_def world0_def readManifest_def tempFolderOf_def
          execCallback_def exit0_def exit1_def)
  note tx = failed_stage_marks_build_failed [OF ix fx]

  define b where "b = deployed\<lparr>s3_budget := Some 1\<rparr>"
  define b0 where "b0 = snd (insertBuild world0 1 ''app'' b)"
  have ib: "insertBuild world0 1 ''app'' b = (Inr 1, b0)"
    unfolding b0_def by (simp add: insertBuild_def db_next_def b_def deployed_def sys0_def fresh_id_def)
  have b0: "s3_budget b0 = Some 1"
    "objects b0 = [(''app/old.html'', old_object), (''blog/index.html'', old_object),
                   (''app/css/old.css'', old_object)]"
    using insertBuild_cases [OF ib] by (simp_all add: b_def deployed_def sys0_def)
  have "fst (deleteFolderFromR2 (''app'' @ ''/'') (after_commands world0 ''app'' ''u'' fw b0)) =
      Inl ''ArtifactStoreFailed''"
    by (simp add: deleteFolderFromR2_def send_ListObjectsV2_def send_DeleteObject_def s3_up_def
        after_commands_def list_page_limit_def b0)
  then obtain b4 where db: "deleteFolderFromR2 (''app'' @ ''/'') (after_commands world0 ''app'' ''u'' fw b0) =
      (Inl ''ArtifactStoreFailed'', b4)"
    by (cases "deleteFolderFromR2 (''app'' @ ''/'') (after_commands world0 ''app'' ''u'' fw b0)") simp
  have fb: "stage_fails world0 1 ''app'' ''u'' b0 Delete ''ArtifactStoreFailed''"
    by (rule stage_fails.delete_fails [OF commands_pass_world0 [folded fw_def] db])
  have rb: "refused_none b" "builds b = []"
    by (simp_all add: refused_none_def b_def deployed_def sys0_def)
  note tb = failed_stage_marks_build_failed [OF ib fb]

  define c where "c = sys0\<lparr>s3_budget := Some 2\<rparr>"
  define c0 where "c0 = snd (insertBuild world0 1 ''app'' c)"
  have ic: "insertBuild world0 1 ''app'' c = (Inr 1, c0)"
    unfolding c0_def by (simp add: insertBuild_def db_next_def c_def sys0_def fresh_id_def)
  have c0: "s3_budget c0 = Some 2" "objects c0 = []"
    using insertBuild_cases [OF ic] by (simp_all add: c_def sys0_def)
  define c4 where "c4 = snd (deleteFolderFromR2 (''app'' @ ''/'') (after_commands world0 ''app'' ''u'' fw c0))"
  have dc: "deleteFolderFromR2 (''app'' @ ''/'') (after_commands world0 ''app'' ''u'' fw c0) = (Inr (), c4)"
    unfolding c4_def
    by (simp add: deleteFolderFromR2_def send_ListObjectsV2_def s3_up_def
        after_commands_def list_page_limit_def c0)
  have c4: "s3_budget c4 = Some 1"
    unfolding c4_def
    by (simp add: deleteFolderFromR2_def send_ListObjectsV2_def s3_up_def
        after_commands_def list_page_limit_def c0)
  have rd: "readdirSync [(''dist'', Dir site), (''package.json'', File ''{}'')] (outDir fw) = Inr site"
    by (simp add: readdirSync_def out)
  have "fst (uploadDirToR2 world0 site ''app'' c4) = Inl ''ArtifactStoreFailed''"
    by (simp add: site_def send_PutObject_def s3_up_def c4)
  then obtain c5 where uc: "uploadDirToR2 world0 site ''app'' c4 = (Inl ''ArtifactStoreFailed'', c5)"
    by (cases "uploadDirToR2 world0 site ''app'' c4") simp
  have fc: "stage_fails world0 1 ''app'' ''u'' c0 Upload ''ArtifactStoreFailed''"
    by (rule stage_fails.put_fails [OF commands_pass_world0 [folded fw_def] dc rd uc])
  have rc: "refused_none c" "builds c = []"
    by (simp_all add: refused_none_def c_def sys0_def)
  note tc = failed_stage_marks_build_failed [OF ic fc]

  show ?thesis
    using fa ta [THEN conjunct2, THEN conjunct1]
      ta [THEN conjunct2, THEN conjunct2, THEN conjunct1, rule_format, OF ra(1)]
      fx tx [THEN conjunct2, THEN conjunct1]
      tx [THEN conjunct2, THEN conjunct2, THEN conjunct1, rule_format, OF ra(1)]
      fb tb [THEN conjunct2, THEN conjunct1]
      tb [THEN conjunct2, THEN conjunct2, THEN conjunct1, rule_format, OF rb(1)]
      fc tc [THEN conjunct2, THEN conjunct1]
      tc [THEN conjunct2, THEN conjunct2, THEN conjunct1, rule_format, OF rc(1)]
    unfolding a0_def x0_def b0_def c0_def b_def [symmetric] c_def [symmetric] ra(2) rb(2) rc(2) url
    by simp
qed

subsection \<open>A store that stops answering\<close>

text \<open>
  With a budget of \<open>k\<close> answers, a loop that needs no more than \<open>k\<close> requests
  returns and leaves the rest of the budget; one that needs more throws at the first
  request that is not answered.
\<close>

lemma send_DeleteObject_budget:
  "s3_budget s = Some (Suc k) \<Longrightarrow>
   fst (send_DeleteObject key s) = Inr () \<and> s3_budget (snd (send_DeleteObject key s)) = Some k"
  "s3_budget s = Some 0 \<Longrightarrow> fst (send_DeleteObject key s) = Inl ''ArtifactStoreFailed''"
  by (simp_all add: send_DeleteObject_def s3_up_def)

lemma send_PutObject_budget:
  "s3_budget s = Some (Suc k) \<Longrightarrow>
   fst (send_PutObject key ob s) = Inr () \<and> s3_budget (snd (send_PutObject key ob s)) = Some k"
  "s3_budget s = Some 0 \<Longrightarrow> fst (send_PutObject key ob s) = Inl ''ArtifactStoreFailed''"
  by (simp_all add: send_PutObject_def s3_up_def)

lemma delete_each_budget:
  "s3_budget s = Some k \<Longrightarrow>
   (length ks \<le> k \<longrightarrow>
      fst (delete_each ks s) = Inr () \<and>
      s3_budget (snd (delete_each ks s)) = Some (k - length ks)) \<and>
   (k < length ks \<longrightarrow> fst (delete_each ks s) = Inl ''ArtifactStoreFailed'')"
proof (induction ks arbitrary: s k)
  case Nil
  then show ?case by simp
next
  case (Cons key ks)
  obtain r1 s1 where d: "send_DeleteObject key s = (r1, s1)"
    by (cases "send_DeleteObject key s")
  show ?case
  proof (cases k)
    case 0
    with Cons.prems d send_DeleteObject_budget(2) [of s key] show ?thesis by simp
  next
    case (Suc k')
    with Cons.prems d send_DeleteObject_budget(1) [of s k' key]
    have r1: "r1 = Inr ()" and b1: "s3_budget s1 = Some k'" by simp_all
    from Cons.IH [OF b1] d r1 Suc show ?thesis by simp
  qed
qed

lemma deleteFolderFromR2_budget:
  assumes "s3_budget s = Some k"
  shows "(length (first_page p s) < k \<longrightarrow>
      fst (deleteFolderFromR2 p s) = Inr () \<and>
      s3_budget (snd (deleteFolderFromR2 p s)) = Some (k - 1 - length (first_page p s))) \<and>
   (k \<le> length (first_page p s) \<longrightarrow>
      fst (deleteFolderFromR2 p s) = Inl ''ArtifactStoreFailed'')"
proof (cases k)
  case 0
  with assms show ?thesis
    by (simp add: deleteFolderFromR2_def send_ListObjectsV2_def s3_up_def)
next
  case (Suc k')
  define s1 where "s1 = s3_sent (ListObjectsV2 p) s"
  have l: "send_ListObjectsV2 p s = (Inr (first_page p s), s1)"
    using assms Suc by (simp add: send_ListObjectsV2_def s3_up_def first_page_def s1_def)
  have b1: "s3_budget s1 = Some k'"
    using assms Suc by (simp add: s1_def)
  show ?thesis
  proof (cases "first_page p s = []")
    case True
    with l b1 Suc show ?thesis by (simp add: deleteFolderFromR2_def)
  next
    case False
    with l have "deleteFolderFromR2 p s = delete_each (first_page p s) s1"
      by (simp add: deleteFolderFromR2_def)
    with delete_each_budget [OF b1, of "first_page p s"] Suc show ?thesis
      by auto
  qed
qed

lemma uploadDirToR2_budget:
  "s3_budget s = Some k \<Longrightarrow>
   (count_files es \<le> k \<longrightarrow>
      fst (uploadDirToR2 w es sub s) = Inr () \<and>
      s3_budget (snd (uploadDirToR2 w es sub s)) = Some (k - count_files es)) \<and>
   (k < count_files es \<longrightarrow> fst (uploadDirToR2 w es sub s) = Inl ''ArtifactStoreFailed'')"
proof (induction w es sub s arbitrary: k rule: uploadDirToR2.induct)
  case (1 w subdomain s)
  then show ?case by simp
next
  case (2 w entry sub rest subdomain s)
  obtain r1 s1 where a: "uploadDirToR2 w sub (subdomain @ ''/'' @ entry) s = (r1, s1)"
    by (cases "uploadDirToR2 w sub (subdomain @ ''/'' @ entry) s")
  note first = "2.IH"(1) [OF "2.prems"]
  show ?case
  proof (cases "count_files sub \<le> k")
    case True
    with first a have r1: "r1 = Inr ()" and b1: "s3_budget s1 = Some (k - count_files sub)"
      by simp_all
    from "2.IH"(2) [OF a [symmetric] r1 b1] a r1 True show ?thesis
      by auto
  next
    case False
    with first a have "r1 = Inl ''ArtifactStoreFailed''" by simp
    with a False show ?thesis by simp
  qed
next
  case (3 w entry content rest subdomain s)
  define ob where "ob = \<lparr>Body = content,
      ContentType = Some (case mime_lookup w entry of None \<Rightarrow> ''application/octet-stream'' | Some t \<Rightarrow> t)\<rparr>"
  obtain r1 s1 where a: "send_PutObject (subdomain @ ''/'' @ entry) ob s = (r1, s1)"
    by (cases "send_PutObject (subdomain @ ''/'' @ entry) ob s")
  show ?case
  proof (cases k)
    case 0
    with "3.prems" a send_PutObject_budget(2) [of s "subdomain @ ''/'' @ entry" ob]
    show ?thesis by (simp add: ob_def)
  next
    case (Suc k')
    with "3.prems" a send_PutObject_budget(1) [of s k' "subdomain @ ''/'' @ entry" ob]
    have r1: "r1 = Inr ()" and b1: "s3_budget s1 = Some k'" by simp_all
    from "3.IH" [OF a [unfolded ob_def, symmetric] r1 b1] a r1 Suc show ?thesis
      by (simp add: ob_def)
  qed
qed

text \<open>
  A request of the delete stage or of the upload stage that the object store does
  not answer makes that stage fail: with a budget of \<open>k\<close> answers when the \<open>try\<close>
  block starts, the delete stage fails when \<open>k\<close> does not cover the listing and the
  deletions of the listed keys, and the upload stage fails when \<open>k\<close> covers these and
  not the puts of all the files.
\<close>

theorem unanswered_request_fails_stage:
  assumes cp: "commands_pass w nm url fw built" and b: "s3_budget s = Some k"
  shows "(k \<le> length (first_page (nm @ ''/'') s) \<longrightarrow>
            stage_fails w bid nm url s Delete ''ArtifactStoreFailed'') \<and>
         (length (first_page (nm @ ''/'') s) < k \<longrightarrow>
          readdirSync built (outDir fw) = Inr es \<longrightarrow>
          k - 1 - length (first_page (nm @ ''/'') s) < count_files es \<longrightarrow>
            stage_fails w bid nm url s Upload ''ArtifactStoreFailed'')"
proof -
  define s3 where "s3 = after_commands w nm url fw s"
  have b3: "s3_budget s3 = Some k" and p3: "first_page (nm @ ''/'') s3 = first_page (nm @ ''/'') s"
    using b by (simp_all add: s3_def after_commands_def first_page_def)
  note del = deleteFolderFromR2_budget [OF b3, of "nm @ ''/''", unfolded p3]
  obtain r4 s4 where d: "deleteFolderFromR2 (nm @ ''/'') s3 = (r4, s4)"
    by (cases "deleteFolderFromR2 (nm @ ''/'') s3")
  show ?thesis
  proof (intro conjI impI)
    assume "k \<le> length (first_page (nm @ ''/'') s)"
    with del d have "r4 = Inl ''ArtifactStoreFailed''" by simp
    with d show "stage_fails w bid nm url s Delete ''ArtifactStoreFailed''"
      unfolding s3_def by (intro stage_fails.delete_fails [OF cp]) simp
  next
    assume enough: "length (first_page (nm @ ''/'') s) < k"
      and rd: "readdirSync built (outDir fw) = Inr es"
      and short: "k - 1 - length (first_page (nm @ ''/'') s) < count_files es"
    from del d enough have r4: "r4 = Inr ()"
      and b4: "s3_budget s4 = Some (k - 1 - length (first_page (nm @ ''/'') s))"
      by simp_all
    obtain r5 s5 where u: "uploadDirToR2 w es nm s4 = (r5, s5)"
      by (cases "uploadDirToR2 w es nm s4")
    with uploadDirToR2_budget [OF b4, of es w nm] short have "r5 = Inl ''ArtifactStoreFailed''"
      by simp
    with d r4 rd u show "stage_fails w bid nm url s Upload ''ArtifactStoreFailed''"
      unfolding s3_def by (intro stage_fails.put_fails [OF cp _ rd]) simp_all
  qed
qed

section \<open>Webhook adapter\<close>

lemma filter_find: "find P xs = Some x \<Longrightarrow> \<exists>rest. filter P xs = x # rest"
  by (induction xs) (auto split: if_splits)

text \<open>
  C8: a webhook whose \<open>clone_url\<close> equals the repository URL of no stored project is
  answered \<open>{success: false, message: "Project not registered"}\<close>, starts no run and
  leaves the state as it was. One whose \<open>clone_url\<close> equals the repository URL of a
  stored project starts one run, for the first such project, and is answered
  \<open>{success: true, message: "Build started"}\<close>; the answer does not depend on the
  environment \<open>w\<close> that decides how the run ends.
\<close>

theorem webhook_replies:
  "(clone_url \<notin> project_repo_url ` set (projects s) \<longrightarrow>
      webhook clone_url s = (\<lparr>success = False, reply_message = ''Project not registered''\<rparr>, []) \<and>
      webhook_request w clone_url s =
        (\<lparr>success = False, reply_message = ''Project not registered''\<rparr>, s)) \<and>
   (clone_url \<in> project_repo_url ` set (projects s) \<longrightarrow>
      (\<exists>p. find (\<lambda>p. project_repo_url p = clone_url) (projects s) = Some p \<and>
           p \<in> set (projects s) \<and> project_repo_url p = clone_url \<and>
           webhook clone_url s =
             (\<lparr>success = True, reply_message = ''Build started''\<rparr>,
              [(project_id p, project_name p, clone_url)]) \<and>
           webhook_request w clone_url s =
             (\<lparr>success = True, reply_message = ''Build started''\<rparr>,
              startBuild w (project_id p) (project_name p) clone_url s)))"
proof (intro conjI impI)
  assume no: "clone_url \<notin> project_repo_url ` set (projects s)"
  then have "filter (\<lambda>p. project_repo_url p = clone_url) (projects s) = []"
    by (auto simp add: filter_empty_conv)
  then show "webhook clone_url s = (\<lparr>success = False, reply_message = ''Project not registered''\<rparr>, [])"
    and "webhook_request w clone_url s =
        (\<lparr>success = False, reply_message = ''Project not registered''\<rparr>, s)"
    by (simp_all add: webhook_request_def webhook_def)
next
  assume yes: "clone_url \<in> project_repo_url ` set (projects s)"
  then obtain p where f: "find (\<lambda>p. project_repo_url p = clone_url) (projects s) = Some p"
    by (cases "find (\<lambda>p. project_repo_url p = clone_url) (projects s)")
       (auto simp add: find_None_iff)
  then have p: "p \<in> set (projects s)" "project_repo_url p = clone_url"
    by (auto simp add: find_Some_iff)
  from filter_find [OF f] obtain rest where
    "filter (\<lambda>p. project_repo_url p = clone_url) (projects s) = p # rest" ..
  then have "webhook clone_url s =
             (\<lparr>success = True, reply_message = ''Build started''\<rparr>,
              [(project_id p, project_name p, clone_url)])"
    and "webhook_request w clone_url s =
             (\<lparr>success = True, reply_message = ''Build started''\<rparr>,
              startBuild w (project_id p) (project_name p) clone_url s)"
    by (simp_all add: webhook_request_def webhook_def)
  with f p show "\<exists>p. find (\<lambda>p. project_repo_url p = clone_url) (projects s) = Some p \<and>
           p \<in> set (projects s) \<and> project_repo_url p = clone_url \<and>
           webhook clone_url s =
             (\<lparr>success = True, reply_message = ''Build started''\<rparr>,
              [(project_id p, project_name p, clone_url)]) \<and>
           webhook_request w clone_url s =
             (\<lparr>success = True, reply_message = ''Build started''\<rparr>,
              startBuild w (project_id p) (project_name p) clone_url s)"
    by blast
qed

text \<open>
  C8 at a store of two projects: an unknown URL; the URL of the first project, with
  an environment in which every stage of its run goes through; and the URL of the
  second project, with that environment, in which its build leaves no output
  directory, and with one in which its clone throws.
\<close>

theorem webhook_replies_witness:
  "webhook_request world0 ''https://github.com/o/other.git'' registry =
     (\<lparr>success = False, reply_message = ''Project not registered''\<rparr>, registry) \<and>
   webhook ''https://github.com/o/other.git'' registry =
     (\<lparr>success = False, reply_message = ''Project not registered''\<rparr>, []) \<and>
   webhook ''https://github.com/o/blog.git'' registry =
     (\<lparr>success = True, reply_message = ''Build started''\<rparr>,
      [(9, ''blog'', ''https://github.com/o/blog.git'')]) \<and>
   webhook_request world0 ''https://github.com/o/app.git'' registry =
     (\<lparr>success = True, reply_message = ''Build started''\<rparr>,
      startBuild world0 7 ''app'' ''https://github.com/o/app.git'' registry) \<and>
   webhook_request world0 ''https://github.com/o/blog.git'' registry =
     (\<lparr>success = True, reply_message = ''Build started''\<rparr>,
      startBuild world0 9 ''blog'' ''https://github.com/o/blog.git'' registry) \<and>
   webhook_request no_such_repo ''https://github.com/o/blog.git'' registry =
     (\<lparr>success = True, reply_message = ''Build started''\<rparr>,
      startBuild no_such_repo 9 ''blog'' ''https://github.com/o/blog.git'' registry)"
  using webhook_replies [of "''https://github.com/o/other.git''" registry world0]
    webhook_replies [of "''https://github.com/o/app.git''" registry world0]
    webhook_replies [of "''https://github.com/o/blog.git''" registry world0]
    webhook_replies [of "''https://github.com/o/blog.git''" registry no_such_repo]
  by (simp add: registry_def sys0_def)

section \<open>Recursive upload\<close>

lemma map_of_update_all:
  "map_of (foldl (\<lambda>al kv. AList.update (fst kv) (snd kv) al) al ps) = map_of al ++ map_of (rev ps)"
proof (induction ps arbitrary: al)
  case Nil
  show ?case by simp
next
  case (Cons p ps)
  have "map_of (AList.update (fst p) (snd p) al) ++ map_of (rev ps) =
        map_of al ++ ([fst p \<mapsto> snd p] ++ map_of (rev ps))"
    by (rule ext) (simp add: AList.update_conv' map_add_def split: option.splits)
  with Cons [of "AList.update (fst p) (snd p) al"] show ?case
    by (cases p) simp
qed

lemma map_add_twice: "(m ++ n) ++ n = m ++ (n :: 'a \<rightharpoonup> 'b)"
  by (rule ext) (simp add: map_add_def split: option.splits)

lemma keys_update_all_present:
  "set (map fst ps) \<subseteq> fst ` set al \<Longrightarrow>
   map fst (foldl (\<lambda>al kv. AList.update (fst kv) (snd kv) al) al ps) = map fst al"
proof (induction ps arbitrary: al)
  case Nil
  show ?case by simp
next
  case (Cons p ps)
  from Cons.prems have k: "map fst (AList.update (fst p) (snd p) al) = map fst al"
    by (simp add: AList.update_keys)
  then have "set (map fst ps) \<subseteq> fst ` set (AList.update (fst p) (snd p) al)"
    using Cons.prems by (metis list.set_map set_subset_Cons subset_trans list.simps(9))
  from Cons.IH [OF this] k show ?case by simp
qed

lemma dom_update_all:
  "fst ` set (foldl (\<lambda>al kv. AList.update (fst kv) (snd kv) al) al ps) = fst ` set al \<union> set (map fst ps)"
proof -
  have "dom (map_of (foldl (\<lambda>al kv. AList.update (fst kv) (snd kv) al) al ps)) =
        dom (map_of al) \<union> dom (map_of (rev ps))"
    by (simp add: map_of_update_all Un_commute)
  then show ?thesis by (simp add: dom_map_of_conv_image_fst)
qed

text \<open>
  C9: on a store that answers, the upload of a tree returns, and its calls are exactly
  one put per file of the tree, in the order of the walk, each with key
  \<open>namespace/relative path\<close>, as many as the tree has files; afterwards every such
  key holds the object put for it, and the other keys hold what they held. Uploading
  the same tree again returns as well, sends the same puts, and leaves the bucket
  with the same keys and the same object under every key.
\<close>

theorem upload_puts_every_file:
  "s3_budget s = None \<Longrightarrow>
   s1 = snd (uploadDirToR2 w es ns s) \<Longrightarrow>
   s2 = snd (uploadDirToR2 w es ns s1) \<Longrightarrow>
   fst (uploadDirToR2 w es ns s) = Inr () \<and>
   drop (length (trace s)) (trace s1) = map (\<lambda>p. S3 (PutObject (ns @ ''/'' @ p))) (rel_paths es) \<and>
   length (drop (length (trace s)) (trace s1)) = count_files es \<and>
   fst ` set (objects s1) = fst ` set (objects s) \<union> (\<lambda>p. ns @ ''/'' @ p) ` set (rel_paths es) \<and>
   map_of (objects s1) = map_of (objects s) ++ map_of (rev (puts w es ns)) \<and>
   fst (uploadDirToR2 w es ns s1) = Inr () \<and>
   drop (length (trace s1)) (trace s2) = map (\<lambda>p. S3 (PutObject (ns @ ''/'' @ p))) (rel_paths es) \<and>
   map fst (objects s2) = map fst (objects s1) \<and>
   map_of (objects s2) = map_of (objects s1)"
proof -
  assume b: "s3_budget s = None"
    and s1: "s1 = snd (uploadDirToR2 w es ns s)"
    and s2: "s2 = snd (uploadDirToR2 w es ns s1)"
  define ps where "ps = puts w es ns"
  have keys: "map fst ps = map (\<lambda>p. ns @ ''/'' @ p) (rel_paths es)"
    unfolding ps_def by (rule keys_of_puts)
  have calls: "map (\<lambda>kv. S3 (PutObject (fst kv))) ps =
      map (\<lambda>p. S3 (PutObject (ns @ ''/'' @ p))) (rel_paths es)"
    using arg_cong [OF keys, of "map (\<lambda>k. S3 (PutObject k))"] by (simp add: comp_def)
  note u1 = uploadDirToR2_answered [OF b, of w es ns, folded ps_def]
  have e1: "s1 = s\<lparr>objects := foldl (\<lambda>al kv. AList.update (fst kv) (snd kv) al) (objects s) ps,
       trace := trace s @ map (\<lambda>kv. S3 (PutObject (fst kv))) ps\<rparr>"
    using u1 s1 by simp
  then have b1: "s3_budget s1 = None" using b by simp
  note u2 = uploadDirToR2_answered [OF b1, of w es ns, folded ps_def]
  have e2: "s2 = s1\<lparr>objects := foldl (\<lambda>al kv. AList.update (fst kv) (snd kv) al) (objects s1) ps,
       trace := trace s1 @ map (\<lambda>kv. S3 (PutObject (fst kv))) ps\<rparr>"
    using u2 s2 by simp
  have o1: "objects s1 = foldl (\<lambda>al kv. AList.update (fst kv) (snd kv) al) (objects s) ps"
    using e1 by simp
  have d1: "fst ` set (objects s1) = fst ` set (objects s) \<union> set (map fst ps)"
    unfolding o1 by (rule dom_update_all)
  have k2: "map fst (objects s2) = map fst (objects s1)"
    using e2 keys_update_all_present [of ps "objects s1"] d1 by simp
  have m2: "map_of (objects s2) = map_of (objects s1)"
    using e2 by (simp add: map_of_update_all o1 map_add_twice)
  have t1: "drop (length (trace s)) (trace s1) = map (\<lambda>p. S3 (PutObject (ns @ ''/'' @ p))) (rel_paths es)"
    using e1 calls by simp
  have t2: "drop (length (trace s1)) (trace s2) = map (\<lambda>p. S3 (PutObject (ns @ ''/'' @ p))) (rel_paths es)"
    using e2 calls by simp
  have m1: "map_of (objects s1) = map_of (objects s) ++ map_of (rev (puts w es ns))"
    unfolding o1 ps_def by (rule map_of_update_all)
  show ?thesis
    using u1 u2 t1 t2 k2 m1 m2 d1 keys by (simp add: length_rel_paths)
qed

text \<open>C9 at the tree \<open>site\<close>, two files, one of them in a sub-directory.\<close>

theorem upload_puts_every_file_witness:
  "fst (uploadDirToR2 world0 site ''app'' sys0) = Inr () \<and>
   trace (snd (uploadDirToR2 world0 site ''app'' sys0)) =
     [S3 (PutObject ''app/index.html''), S3 (PutObject ''app/assets/app.js'')] \<and>
   count_files site = 2 \<and>
   map_of (objects (snd (uploadDirToR2 world0 site ''app'' sys0))) ''app/index.html'' =
     Some \<lparr>Body = ''<h1>new</h1>'', ContentType = Some ''text/html''\<rparr> \<and>
   map fst (objects (snd (uploadDirToR2 world0 site ''app''
              (snd (uploadDirToR2 world0 site ''app'' sys0))))) =
     map fst (objects (snd (uploadDirToR2 world0 site ''app'' sys0)))"
  using upload_puts_every_file [of sys0 "snd (uploadDirToR2 world0 site ''app'' sys0)"
      world0 site "''app''"
      "snd (uploadDirToR2 world0 site ''app'' (snd (uploadDirToR2 world0 site ''app'' sys0)))"]
  by (simp add: sys0_def site_def world0_def)

section \<open>Publish resolver\<close>

lemma split_not_Nil: "split sep s \<noteq> []"
  by (induction s) (auto split: list.splits)

lemma first_of_split:
  "(case split sep s of [] \<Rightarrow> d | x # _ \<Rightarrow> x) = takeWhile (\<lambda>c. c \<noteq> sep) s"
  using split_not_Nil [of sep] by (induction s) (auto split: list.splits)

lemma subdomain_part001_label:
  "subdomain_part001 header = leftmost_label (case header of None \<Rightarrow> [] | Some h \<Rightarrow> h)"
  by (simp add: subdomain_part001_def leftmost_label_def first_of_split)

lemma remove_first_label:
  "sep \<notin> set l \<Longrightarrow> remove_first (sep # root) (l @ sep # root) = l"
  by (induction l) auto

lemma remove_first_absent: "\<not> sublist pat h \<Longrightarrow> remove_first pat h = h"
proof (induction h)
  case Nil
  show ?case by simp
next
  case (Cons c cs)
  from Cons.prems have "\<not> prefix pat (c # cs)" and "\<not> sublist pat cs"
    by (simp_all add: sublist_Cons_right)
  with Cons.IH show ?case by simp
qed

lemma strip_apex_suffix_label: "strip_apex_suffix root (l @ ''.'' @ root) = l"
proof -
  have "suffix (''.'' @ root) (l @ ''.'' @ root)"
    by (rule suffixI) (rule refl)
  then show ?thesis
    unfolding strip_apex_suffix_def by simp
qed

lemma strip_apex_suffix_absent: "\<not> sublist (''.'' @ root) h \<Longrightarrow> strip_apex_suffix root h = h"
proof -
  assume "\<not> sublist (''.'' @ root) h"
  then have "\<not> suffix (''.'' @ root) h"
    using suffix_imp_sublist by (rule contrapos_nn)
  then show ?thesis
    unfolding strip_apex_suffix_def by simp
qed

text \<open>
  C7, as stated, fails for the handler of \<open>part_002\<close>: for a \<open>Host\<close> header with a port
  the namespace is neither the leftmost label nor the host with the apex suffix
  stripped, and the index page stored under \<open>myapp/index.html\<close> is answered with 404.
\<close>

theorem resolver_namespace_counterexample:
  "subdomain_apex domainRoot (Some ''myapp.devploy-backend.avijit.site:3001'') = ''myapp:3001'' \<and>
   leftmost_label ''myapp.devploy-backend.avijit.site:3001'' = ''myapp'' \<and>
   strip_apex_suffix domainRoot ''myapp.devploy-backend.avijit.site:3001'' =
     ''myapp.devploy-backend.avijit.site:3001'' \<and>
   map_of (objects published) ''myapp/index.html'' =
     Some \<lparr>Body = ''<h1>home</h1>'', ContentType = Some ''text/html''\<rparr> \<and>
   fst (serve_part002 (Some ''myapp.devploy-backend.avijit.site:3001'') ''/'' published) =
     \<lparr>status = 404, content_type = ''text/plain; charset=UTF-8'', text_body = ''Not Found''\<rparr>"
  by (simp add: subdomain_apex_def domainRoot_def leftmost_label_def strip_apex_suffix_def
      suffix_to_prefix serve_part002_def serve_apex_def serve_key_def send_GetObject_def
      s3_up_def published_def sys0_def reqPath_def)

text \<open>
  C7, amended: the handler of \<open>part_001\<close> takes the leftmost label of the host as the
  namespace; the handler of \<open>part_002\<close> takes the host with the first occurrence of
  \<open>"." + apex\<close> removed, which is the host with the apex suffix stripped when the
  host is one label followed by that suffix, and the host itself when that text
  does not occur in it. The path is rewritten to \<open>/index.html\<close> exactly when it is
  \<open>/\<close>, and the key is namespace followed by path. When the store answers and
  holds the key, the response is 200 with the stored body and content type,
  \<open>text/html\<close> when none is stored; when the key is absent the response is 404
  \<open>Not Found\<close>, and no other key is tried.
\<close>

theorem resolver_key_and_response:
  "serve_part001 header path s =
     serve_key (leftmost_label (case header of None \<Rightarrow> [] | Some h \<Rightarrow> h) @
                (if path = ''/'' then ''/index.html'' else path)) s \<and>
   serve_apex root header path s =
     serve_key (subdomain_apex root header @ (if path = ''/'' then ''/index.html'' else path)) s \<and>
   (CHR ''.'' \<notin> set l \<longrightarrow>
      subdomain_apex root (Some (l @ ''.'' @ root)) = l \<and>
      strip_apex_suffix root (l @ ''.'' @ root) = l) \<and>
   (\<not> sublist (''.'' @ root) h \<longrightarrow>
      subdomain_apex root (Some h) = h \<and> strip_apex_suffix root h = h) \<and>
   (s3_up s \<and> map_of (objects s) k = Some ob \<longrightarrow>
      fst (serve_key k s) =
        \<lparr>status = 200,
         content_type = (case ContentType ob of
                           None \<Rightarrow> ''text/html''
                         | Some t \<Rightarrow> if t = [] then ''text/html'' else t),
         text_body = Body ob\<rparr>) \<and>
   (map_of (objects s) k = None \<longrightarrow>
      fst (serve_key k s) =
        \<lparr>status = 404, content_type = ''text/plain; charset=UTF-8'', text_body = ''Not Found''\<rparr> \<and>
      trace (snd (serve_key k s)) = trace s @ [S3 (GetObject k)]) \<and>
   subdomain_part001 (Some ''myapp.example.com'') @ reqPath ''/'' = ''myapp/index.html'' \<and>
   subdomain_part001 (Some ''myapp.example.com'') @ reqPath ''/about'' = ''myapp/about'' \<and>
   subdomain_apex ''example.com'' (Some ''myapp.example.com'') @ reqPath ''/'' = ''myapp/index.html'' \<and>
   subdomain_apex ''example.com'' (Some ''myapp.example.com'') @ reqPath ''/about'' = ''myapp/about''"
proof -
  have label: "CHR ''.'' \<notin> set l \<longrightarrow>
      subdomain_apex root (Some (l @ ''.'' @ root)) = l \<and>
      strip_apex_suffix root (l @ ''.'' @ root) = l"
    using remove_first_label [of "CHR ''.''" l root] strip_apex_suffix_label [of root l]
    by (simp add: subdomain_apex_def)
  have absent: "\<not> sublist (''.'' @ root) h \<longrightarrow>
      subdomain_apex root (Some h) = h \<and> strip_apex_suffix root h = h"
    using remove_first_absent [of "''.'' @ root" h] strip_apex_suffix_absent [of root h]
    by (simp add: subdomain_apex_def)
  have found: "s3_up s \<and> map_of (objects s) k = Some ob \<longrightarrow>
      fst (serve_key k s) =
        \<lparr>status = 200,
         content_type = (case ContentType ob of
                           None \<Rightarrow> ''text/html''
                         | Some t \<Rightarrow> if t = [] then ''text/html'' else t),
         text_body = Body ob\<rparr>"
    by (simp add: serve_key_def send_GetObject_def)
  have missing: "map_of (objects s) k = None \<longrightarrow>
      fst (serve_key k s) =
        \<lparr>status = 404, content_type = ''text/plain; charset=UTF-8'', text_body = ''Not Found''\<rparr> \<and>
      trace (snd (serve_key k s)) = trace s @ [S3 (GetObject k)]"
    by (simp add: serve_key_def send_GetObject_def s3_sent_def)
  have examples:
    "subdomain_part001 (Some ''myapp.example.com'') @ reqPath ''/'' = ''myapp/index.html''"
    "subdomain_part001 (Some ''myapp.example.com'') @ reqPath ''/about'' = ''myapp/about''"
    "subdomain_apex ''example.com'' (Some ''myapp.example.com'') @ reqPath ''/'' = ''myapp/index.html''"
    "subdomain_apex ''example.com'' (Some ''myapp.example.com'') @ reqPath ''/about'' = ''myapp/about''"
    by (simp_all add: subdomain_part001_def subdomain_apex_def reqPath_def)
  show ?thesis
    using label absent found missing examples
    by (simp add: serve_part001_def serve_apex_def subdomain_part001_label reqPath_def)
qed

text \<open>
  The amended C7 on the bucket \<open>published\<close>: the index page and a page without a
  stored content type are served, for both handlers, and a folder path is answered
  with 404 although the folder holds an index page.
\<close>

theorem resolver_key_and_response_witness:
  "fst (serve_part001 (Some ''myapp.example.com'') ''/'' published) =
     \<lparr>status = 200, content_type = ''text/html'', text_body = ''<h1>home</h1>''\<rparr> \<and>
   fst (serve_apex ''example.com'' (Some ''myapp.example.com'') ''/about'' published) =
     \<lparr>status = 200, content_type = ''text/html'', text_body = ''about''\<rparr> \<and>
   fst (serve_part002 (Some ''myapp.devploy-backend.avijit.site'') ''/'' published) =
     \<lparr>status = 200, content_type = ''text/html'', text_body = ''<h1>home</h1>''\<rparr> \<and>
   map_of (objects published) ''myapp/foo/index.html'' =
     Some \<lparr>Body = ''foo'', ContentType = Some ''text/html''\<rparr> \<and>
   fst (serve_part001 (Some ''myapp.example.com'') ''/foo/'' published) =
     \<lparr>status = 404, content_type = ''text/plain; charset=UTF-8'', text_body = ''Not Found''\<rparr> \<and>
   subdomain_apex ''example.com'' (Some ''localhost:3001'') = ''localhost:3001''"
proof -
  have up: "s3_up published"
    by (simp add: s3_up_def published_def sys0_def)
  have o1: "map_of (objects published) ''myapp/index.html'' =
      Some \<lparr>Body = ''<h1>home</h1>'', ContentType = Some ''text/html''\<rparr>"
    and o2: "map_of (objects published) ''myapp/about'' = Some \<lparr>Body = ''about'', ContentType = None\<rparr>"
    and o3: "map_of (objects published) ''myapp/foo/'' = None"
    and o4: "map_of (objects published) ''myapp/foo/index.html'' =
      Some \<lparr>Body = ''foo'', ContentType = Some ''text/html''\<rparr>"
    by (simp_all add: published_def sys0_def)
  have nodot: "CHR ''.'' \<notin> set ''myapp''" by simp
  have nosub: "\<not> sublist (''.'' @ ''example.com'') ''localhost:3001''"
    by (simp add: sublist_code)
  note t = resolver_key_and_response
  show ?thesis
    using up o1 o2 o3 o4 nodot nosub
      t [of "Some ''myapp.example.com''" "''/''" published "''example.com''" "''myapp''"
           "''localhost:3001''" "''myapp/index.html''"
           "\<lparr>Body = ''<h1>home</h1>'', ContentType = Some ''text/html''\<rparr>"]
      t [of "Some ''myapp.example.com''" "''/about''" published "''example.com''" "''myapp''"
           "''localhost:3001''" "''myapp/about''" "\<lparr>Body = ''about'', ContentType = None\<rparr>"]
      t [of "Some ''myapp.example.com''" "''/foo/''" published domainRoot "''myapp''"
           "''localhost:3001''" "''myapp/foo/''" "\<lparr>Body = ''about'', ContentType = None\<rparr>"]
      t [of "Some ''myapp.devploy-backend.avijit.site''" "''/''" published domainRoot "''myapp''"
           "''localhost:3001''" "''myapp/index.html''"
           "\<lparr>Body = ''<h1>home</h1>'', ContentType = Some ''text/html''\<rparr>"]
    by (simp add: leftmost_label_def serve_part002_def domainRoot_def)
qed

section \<open>Replacing the artifacts of a project\<close>

subsection \<open>A run whose earlier stages go through\<close>

lemma built_output_stages:
  assumes "built_output w nm url = r"
    and "\<And>e. r \<noteq> Inl (Clone, e)" "\<And>e. r \<noteq> Inl (Manifest, e)"
    and "\<And>e. r \<noteq> Inl (Install, e)" "\<And>e. r \<noteq> Inl (Build, e)"
  obtains fw built where
    "commands_pass w nm url fw built"
    "r = (case readdirSync built (outDir fw) of
            Inl e \<Rightarrow> Inl (Upload, e) | Inr es \<Rightarrow> Inr es)"
proof (cases "git_clone w url")
  case (Inl e)
  with assms(1) have "r = Inl (Clone, e)" by (simp add: built_output_def)
  with assms(2) show ?thesis by blast
next
  case cl: (Inr cloned)
  show ?thesis
  proof (cases "readManifest w cloned")
    case (Inl e)
    with assms(1) cl have "r = Inl (Manifest, e)" by (simp add: built_output_def)
    with assms(3) show ?thesis by blast
  next
    case mf: (Inr pkg)
    obtain r1 t1 where i: "exec w (''cd '' @ tempFolderOf w nm @ '' && npm install'') cloned = (r1, t1)"
      by (cases "exec w (''cd '' @ tempFolderOf w nm @ '' && npm install'') cloned")
    show ?thesis
    proof (cases "execCallback r1")
      case (Inl e)
      with assms(1) cl mf i have "r = Inl (Install, e)" by (simp add: built_output_def)
      with assms(4) show ?thesis by blast
    next
      case ok1: (Inr o1)
      obtain r2 t2 where b: "exec w (''cd '' @ tempFolderOf w nm @ '' && '' @
            buildCommand (detectFramework pkg cloned)) t1 = (r2, t2)"
        by (cases "exec w (''cd '' @ tempFolderOf w nm @ '' && '' @
            buildCommand (detectFramework pkg cloned)) t1")
      show ?thesis
      proof (cases "execCallback r2")
        case (Inl e)
        with assms(1) cl mf i ok1 b have "r = Inl (Build, e)" by (simp add: built_output_def)
        with assms(5) show ?thesis by blast
      next
        case ok2: (Inr o2)
        have "r = (case readdirSync t2 (outDir (detectFramework pkg cloned)) of
            Inl e \<Rightarrow> Inl (Upload, e) | Inr es \<Rightarrow> Inr es)"
          using assms(1) cl mf i ok1 b ok2 by (simp add: built_output_def)
        with commands_passI [OF cl mf i ok1 b ok2] show ?thesis by (rule that)
      qed
    qed
  qed
qed

lemma tryBody_early_failure:
  assumes "built_output w nm url = Inl (stg, e)" and "stg \<noteq> Upload"
  shows "fst (tryBody w bid nm url (tempFolderOf w nm) s) = Inl (stg, e)"
  using assms
  by (auto simp add: built_output_def tryBody_def execPromise_def
      split: sum.splits prod.splits)

text \<open>The bucket after a run whose \<open>try\<close> block returned.\<close>

lemma success_objects:
  assumes ok: "fst (attempt w pid nm url s) = Inr u"
  shows "\<exists>es. built_output w nm url = Inr es \<and>
     objects (startBuild w pid nm url s) =
       foldl (\<lambda>al kv. AList.update (fst kv) (snd kv) al)
         (filter (\<lambda>kv. fst kv \<notin> set (first_page (nm @ ''/'') s)) (objects s))
         (puts w es nm)"
proof -
  define tmp where "tmp = tempFolderOf w nm"
  obtain r0 s0 where i: "insertBuild w pid nm s = (r0, s0)"
    by (cases "insertBuild w pid nm s")
  from ok i obtain bid where r0: "r0 = Inr bid"
    by (cases r0) (simp_all add: attempt_def)
  have o0: "objects s0 = objects s"
    using insertBuild_cases [OF i] by simp
  obtain s' where t: "tryBody w bid nm url tmp s0 = (Inr u, s')"
    using ok i r0 by (cases "tryBody w bid nm url tmp s0") (simp add: attempt_def tmp_def)
  have fin: "startBuild w pid nm url s = s'"
    using i r0 t by (simp add: startBuild_def startBuild_promise_def tmp_def)
  have early: "built_output w nm url \<noteq> Inl (stg, e)" if "stg \<noteq> Upload" for stg e
  proof
    assume "built_output w nm url = Inl (stg, e)"
    from tryBody_early_failure [OF this that, of bid s0] t show False
      by (simp add: tmp_def)
  qed
  show ?thesis
  proof (rule built_output_stages [OF refl, of w nm url])
    show "built_output w nm url \<noteq> Inl (Clone, e)" for e using early by simp
    show "built_output w nm url \<noteq> Inl (Manifest, e)" for e using early by simp
    show "built_output w nm url \<noteq> Inl (Install, e)" for e using early by simp
    show "built_output w nm url \<noteq> Inl (Build, e)" for e using early by simp
  next
    fix fw built
    assume cp: "commands_pass w nm url fw built"
    assume out: "built_output w nm url =
        (case readdirSync built (outDir fw) of
            Inl e \<Rightarrow> Inl (Upload, e) | Inr es \<Rightarrow> Inr es)"
    define s3 where "s3 = after_commands w nm url fw s0"
    note eq = tryBody_after_build [OF cp, where bid = bid and s = s0, folded s3_def tmp_def]
    obtain r4 s4 where d: "deleteFolderFromR2 (nm @ ''/'') s3 = (r4, s4)"
      by (cases "deleteFolderFromR2 (nm @ ''/'') s3")
    from t eq d obtain u4 where r4: "r4 = Inr u4"
      by (cases r4) simp_all
    have o4: "objects s4 = filter (\<lambda>kv. fst kv \<notin> set (first_page (nm @ ''/'') s)) (objects s)"
      using deleteFolderFromR2_Inr [OF d [unfolded r4]]
      by (simp add: first_page_def s3_def after_commands_def o0)
    show ?thesis
    proof (cases "readdirSync built (outDir fw)")
      case (Inl e)
      with t eq d r4 show ?thesis by simp
    next
      case (Inr es)
      obtain r5 s5 where up: "uploadDirToR2 w es nm s4 = (r5, s5)"
        by (cases "uploadDirToR2 w es nm s4")
      from t eq d r4 Inr up obtain u5 where r5: "r5 = Inr u5"
        by (cases r5) simp_all
      define s6 where "s6 = s5\<lparr>trace := trace s5 @ [RmSync tmp]\<rparr>"
      from t eq d r4 Inr up r5 have close: "(case rmSync w tmp of
            Some e \<Rightarrow> (Inl (Remove, e), s6)
          | None \<Rightarrow>
          (case updateStatus bid ''success'' s6 of
            (Inl e, s7) \<Rightarrow> (Inl (Mark, e), s7)
          | (Inr _, s7) \<Rightarrow> (Inr (), s7))) = (Inr u, s')"
        unfolding s6_def by (simp add: Let_def)
      obtain r7 s7 where m: "updateStatus bid ''success'' s6 = (r7, s7)"
        by (cases "updateStatus bid ''success'' s6")
      from close m have "s' = s7"
        by (cases "rmSync w tmp"; cases r7) simp_all
      with updateStatus_cases [OF m] have "objects s' = objects s5"
        by (simp add: s6_def)
      with uploadDirToR2_Inr [OF up [unfolded r5]] o4 out Inr fin show ?thesis
        by simp
    qed
  qed
qed

text \<open>
  The same run when the object store answers every request, the record store answers
  every statement and the scratch directory can be removed.
\<close>

lemma answered_run:
  assumes b: "s3_budget s = None" and db: "answered_all s"
    and rm: "rmSync w (tempFolderOf w nm) = None"
  shows "(built_output w nm url = Inr es \<longrightarrow>
            fst (attempt w pid nm url s) = Inr () \<and>
            objects (startBuild w pid nm url s) =
              foldl (\<lambda>al kv. AList.update (fst kv) (snd kv) al)
                (filter (\<lambda>kv. fst kv \<notin> set (first_page (nm @ ''/'') s)) (objects s))
                (puts w es nm)) \<and>
         (built_output w nm url = Inl (Upload, e) \<longrightarrow>
            fst (attempt w pid nm url s) = Inl (Upload, e) \<and>
            objects (startBuild w pid nm url s) =
              filter (\<lambda>kv. fst kv \<notin> set (first_page (nm @ ''/'') s)) (objects s) \<and>
            filter is_put (calls_of_run w pid nm url s) = [])"
proof -
  define bid where "bid = fresh_id (builds s)"
  define tmp where "tmp = tempFolderOf w nm"
  obtain r0 s0 where i: "insertBuild w pid nm s = (r0, s0)"
    by (cases "insertBuild w pid nm s")
  note fi = insertBuild_cases [OF i]
  from fi answered_all_next [OF db] have r0: "r0 = Inr bid"
    by (cases r0) (simp_all add: bid_def)
  have s0: "objects s0 = objects s" "s3_budget s0 = None"
    "trace s0 = trace s @ [DbInsert bid ''pending'']"
    using fi b by (simp_all add: bid_def)
  have n0: "db_next s0 = Answered"
    using db_next_tl [OF db] fi by simp
  have att: "attempt w pid nm url s = tryBody w bid nm url tmp s0"
    using i r0 by (simp add: attempt_def tmp_def)
  have prom: "startBuild w pid nm url s =
      (case tryBody w bid nm url tmp s0 of
         (Inr _, s') \<Rightarrow> s'
       | (Inl (stg, e), s') \<Rightarrow>
           snd (updateStatus bid ''failed'' (s'\<lparr>trace := trace s' @ [ConsoleLog ''Build Failed'' e]\<rparr>)))"
    using i r0
    by (simp add: startBuild_def startBuild_promise_def tmp_def split: prod.splits sum.splits)
  have goal: ?thesis if out: "built_output w nm url = r" and
      r: "r = Inr es \<or> r = Inl (Upload, e)" for r
  proof (rule built_output_stages [OF out])
    show "r \<noteq> Inl (Clone, e')" "r \<noteq> Inl (Manifest, e')"
      "r \<noteq> Inl (Install, e')" "r \<noteq> Inl (Build, e')" for e'
      using r by auto
  next
    fix fw built
    assume cp: "commands_pass w nm url fw built"
    assume rd: "r = (case readdirSync built (outDir fw) of
            Inl e \<Rightarrow> Inl (Upload, e) | Inr es \<Rightarrow> Inr es)"
    define s3 where "s3 = after_commands w nm url fw s0"
    note eq = tryBody_after_build [OF cp, where bid = bid and s = s0, folded s3_def tmp_def]
    have b3: "s3_budget s3 = None" and o3: "objects s3 = objects s"
      and n3: "db_answers s3 = db_answers s0"
      using s0 by (simp_all add: s3_def after_commands_def)
    note del = deleteFolderFromR2_answered [OF b3, of "nm @ ''/''", unfolded o3, folded first_page_def]
    define s4 where "s4 = s3\<lparr>objects :=
         filter (\<lambda>kv. fst kv \<notin> set (first_page (nm @ ''/'') s)) (objects s),
       trace := trace s3 @ S3 (ListObjectsV2 (nm @ ''/'')) #
         map (\<lambda>k. S3 (DeleteObject k)) (first_page (nm @ ''/'') s)\<rparr>"
    have b4: "s3_budget s4 = None"
      and o4: "objects s4 = filter (\<lambda>kv. fst kv \<notin> set (first_page (nm @ ''/'') s)) (objects s)"
      and n4: "db_answers s4 = db_answers s0"
      using b3 n3 by (simp_all add: s4_def)
    have t4: "filter is_put (drop (length (trace s)) (trace s4)) = []"
    proof -
      have "filter is_put (map (\<lambda>k. S3 (DeleteObject k)) ks) = []" for ks
        by (induction ks) simp_all
      then show ?thesis
        by (simp add: s4_def s3_def after_commands_def s0)
    qed
    show ?thesis
    proof (cases "readdirSync built (outDir fw)")
      case (Inl e')
      then have run: "tryBody w bid nm url tmp s0 = (Inl (Upload, e'), s4)"
        using eq del by (simp add: s4_def)
      define sc where "sc = s4\<lparr>trace := trace s4 @ [ConsoleLog ''Build Failed'' e']\<rparr>"
      obtain rf sf where uf: "updateStatus bid ''failed'' sc = (rf, sf)"
        by (cases "updateStatus bid ''failed'' sc")
      note ff = updateStatus_cases [OF uf]
      have final: "startBuild w pid nm url s = sf"
        using prom run uf by (simp add: sc_def)
      have "filter is_put (calls_of_run w pid nm url s) = []"
        unfolding calls_of_run_def final using ff t4 s0(3)
        by (simp add: sc_def s4_def s3_def after_commands_def)
      moreover have "objects sf = objects s4"
        using ff by (simp add: sc_def)
      ultimately show ?thesis
        using final run rd r Inl out o4 by (auto simp add: att)
    next
      case (Inr es')
      note up = uploadDirToR2_answered [OF b4, of w es' nm]
      define s5 where "s5 = s4\<lparr>objects := foldl (\<lambda>al kv. AList.update (fst kv) (snd kv) al) (objects s4) (puts w es' nm),
           trace := trace s4 @ map (\<lambda>kv. S3 (PutObject (fst kv))) (puts w es' nm)\<rparr>"
      define s6 where "s6 = s5\<lparr>trace := trace s5 @ [RmSync tmp]\<rparr>"
      have n6: "db_next s6 = Answered"
        using n0 n4 by (simp add: db_next_def s6_def s5_def)
      obtain r7 s7 where m: "updateStatus bid ''success'' s6 = (r7, s7)"
        by (cases "updateStatus bid ''success'' s6")
      note f7 = updateStatus_cases [OF m]
      from f7 n6 have r7: "r7 = Inr ()"
        by (cases r7) simp_all
      have run: "tryBody w bid nm url tmp s0 = (Inr (), s7)"
        using eq del up Inr rm m r7
        by (simp add: s4_def [symmetric] s5_def [symmetric] tmp_def [symmetric] s6_def [symmetric])
      have final: "startBuild w pid nm url s = s7"
        using prom run by simp
      have "objects s7 = objects s5"
        using f7 by (simp add: s6_def)
      with final run rd r Inr out o4 show ?thesis
        by (auto simp add: att s5_def)
    qed
  qed
  show ?thesis
  proof (rule conjI; rule impI)
    assume "built_output w nm url = Inr es"
    from goal [OF this] this show "fst (attempt w pid nm url s) = Inr () \<and>
            objects (startBuild w pid nm url s) =
              foldl (\<lambda>al kv. AList.update (fst kv) (snd kv) al)
                (filter (\<lambda>kv. fst kv \<notin> set (first_page (nm @ ''/'') s)) (objects s))
                (puts w es nm)"
      by simp
  next
    assume "built_output w nm url = Inl (Upload, e)"
    from goal [OF this] this show "fst (attempt w pid nm url s) = Inl (Upload, e) \<and>
            objects (startBuild w pid nm url s) =
              filter (\<lambda>kv. fst kv \<notin> set (first_page (nm @ ''/'') s)) (objects s) \<and>
            filter is_put (calls_of_run w pid nm url s) = []"
      by simp
  qed
qed

subsection \<open>A namespace of 1001 objects\<close>

lemma replicate_less: "m < n \<Longrightarrow> replicate m (c :: char) < replicate n c"
proof (induction m arbitrary: n)
  case 0
  then show ?case by (cases n) simp_all
next
  case (Suc m)
  then show ?case by (cases n) simp_all
qed

lemma old_key_less: "m < n \<Longrightarrow> old_key m < old_key n"
  using replicate_less [of m n "CHR ''a''"] by (simp add: old_key_def)

lemma old_key_eq [simp]: "old_key m = old_key n \<longleftrightarrow> m = n"
proof
  assume "old_key m = old_key n"
  then have "length (old_key m) = length (old_key n)" by simp
  then show "m = n" by (simp add: old_key_def)
qed simp

lemma old_key_other: "length k \<noteq> n + 5 \<Longrightarrow> old_key n \<noteq> k"
  by (auto simp add: old_key_def)

lemma prefix_old_key [simp]: "prefix ''app/'' (old_key n)"
  by (simp add: old_key_def)

lemma sorted_old_keys: "sorted (map old_key [i..<j])"
proof -
  have "sorted_wrt (<) [i..<j]" by simp
  then have "sorted_wrt (\<lambda>m n. old_key m \<le> old_key n) [i..<j]"
    by (rule sorted_wrt_mono_rel [rotated]) (simp add: old_key_less less_imp_le)
  then show ?thesis by (simp add: sorted_map)
qed

lemma first_page_old_keys:
  assumes "map fst (objects s) = map old_key [0..<n]" and "k \<le> n"
  shows "take k (sort (filter (prefix ''app/'') (map fst (objects s)))) = map old_key [0..<k]"
proof -
  have "filter (prefix ''app/'') (map old_key [0..<n]) = map old_key [0..<n]"
    by (simp add: filter_id_conv)
  moreover have "sort (map old_key [0..<n]) = map old_key [0..<n]"
    by (rule sorted_sort_id) (rule sorted_old_keys)
  moreover have "take k [0..<n] = [0..<k]"
    using take_upt [of 0 k n] assms(2) by simp
  ultimately show ?thesis
    by (simp add: assms(1) take_map)
qed

lemma survivors_old_keys:
  assumes "k \<le> n"
  shows "filter (\<lambda>kv. fst kv \<notin> set (map old_key [0..<k])) (map (\<lambda>i. (old_key i, ob)) [0..<n]) =
         map (\<lambda>i. (old_key i, ob)) [k..<n]"
proof -
  have split: "[0..<n] = [0..<k] @ [k..<n]"
    using assms upt_add_eq_append [of 0 k "n - k"] by simp
  have a: "filter (\<lambda>i. old_key i \<notin> old_key ` {0..<k}) [0..<k] = []"
    by (simp add: filter_empty_conv)
  have b: "filter (\<lambda>i. old_key i \<notin> old_key ` {0..<k}) [k..<n] = [k..<n]"
    by (auto simp add: filter_id_conv)
  have "filter (\<lambda>i. old_key i \<notin> old_key ` {0..<k}) [0..<n] = [k..<n]"
    unfolding split using a b by simp
  then show ?thesis
    by (simp add: filter_map comp_def)
qed

lemma objects_crowded: "objects crowded = map (\<lambda>n. (old_key n, old_object)) [0..<1001]"
  unfolding crowded_def sys0_def by (simp only: sys.simps)

lemma keys_crowded: "map fst (objects crowded) = map old_key [0..<1001]"
  unfolding objects_crowded by (simp only: map_map comp_def fst_conv)

lemma crowded_simps:
  "s3_budget crowded = None" "builds crowded = []" "trace crowded = []"
  "db_answers crowded = []"
  unfolding crowded_def sys0_def by (simp_all only: sys.simps)

lemma answered_all_crowded: "answered_all crowded"
  by (simp add: answered_all_def crowded_simps)

lemma rmSync_world0: "rmSync world0 tmp = None" "rmSync no_output_dir tmp = None"
  by (simp_all add: world0_def no_output_dir_def)

lemma first_page_crowded: "first_page ''app/'' crowded = map old_key [0..<1000]"
  unfolding first_page_def list_page_limit_def
  by (rule first_page_old_keys [OF keys_crowded]) simp

lemma survivors_crowded:
  "filter (\<lambda>kv. fst kv \<notin> set (first_page ''app/'' crowded)) (objects crowded) =
   [(old_key 1000, old_object)]"
proof -
  have "[1000..<1001] = [1000 :: nat]"
    by (simp add: upt_rec)
  then have "map (\<lambda>i. (old_key i, old_object)) [1000..<1001] = [(old_key 1000, old_object)]"
    by (simp only: list.map)
  moreover have "filter (\<lambda>kv. fst kv \<notin> set (map old_key [0..<1000]))
          (map (\<lambda>i. (old_key i, old_object)) [0..<1001]) =
        map (\<lambda>i. (old_key i, old_object)) [1000..<1001]"
    by (rule survivors_old_keys) simp
  ultimately show ?thesis
    unfolding first_page_crowded objects_crowded by (rule trans [rotated])
qed

lemma namespace_keys_crowded: "length (namespace_keys ''app'' crowded) = 1001"
proof -
  have "filter (prefix ''app/'') (map old_key [0..<n]) = map old_key [0..<n]" for n
    by (simp add: filter_id_conv)
  then have "namespace_keys ''app'' crowded = map old_key [0..<1001]"
    unfolding namespace_keys_def keys_crowded by simp
  then show ?thesis by (simp only: length_map length_upt diff_zero)
qed

lemma built_output_world0: "built_output world0 ''app'' url = Inr site"
  by (simp add: built_output_def world0_def readManifest_def tempFolderOf_def execCallback_def
      exit0_def detectFramework_def declared_def existsSync_def readdirSync_def)

lemma built_output_no_output_dir: "built_output no_output_dir ''app'' url = Inl (Upload, ''ENOENT'')"
  by (simp add: built_output_def no_output_dir_def world0_def readManifest_def tempFolderOf_def
      execCallback_def exit0_def detectFramework_def declared_def existsSync_def readdirSync_def)

lemma status_of_run:
  assumes "answered_all s"
  shows "map build_status (builds (startBuild w pid nm url s)) =
   map build_status (builds s) @
     [case fst (attempt w pid nm url s) of Inl _ \<Rightarrow> ''failed'' | Inr _ \<Rightarrow> ''success'']"
proof (rule startBuild_shape [OF answered_all_next [OF assms], of w pid nm url])
  fix st ex ld pt cl ct
  assume b: "builds (startBuild w pid nm url s) = builds s @
       [\<lparr>build_id = fresh_id (builds s), projectId = pid, build_status = st,
         build_number = 1, build_url = ''https://'' @ nm @ BASE_URL w, build_log = []\<rparr>]"
    and ok: "\<And>u. fst (attempt w pid nm url s) = Inr u \<Longrightarrow>
        st = ''success'' \<and>
        cl = [RmSync (tempFolderOf w nm), DbUpdate (fresh_id (builds s)) ''success''] \<and>
        ct = [] \<and>
        ex = [Exec (''cd '' @ tempFolderOf w nm @ '' && npm install''),
              Exec (''cd '' @ tempFolderOf w nm @ '' && npm run build'')]"
    and ko: "\<And>stg e. fst (attempt w pid nm url s) = Inl (stg, e) \<Longrightarrow>
        stg \<noteq> Create \<and>
        ct = [ConsoleLog ''Build Failed'' e, DbUpdate (fresh_id (builds s)) ''failed''] \<and>
        (refused_none s \<longrightarrow> st = ''failed'') \<and>
        (stage_rank stg < 7 \<longrightarrow> cl = []) \<and>
        (stg = Remove \<longrightarrow> cl = [RmSync (tempFolderOf w nm)]) \<and>
        (stg = Mark \<longrightarrow>
           cl = [RmSync (tempFolderOf w nm), DbUpdate (fresh_id (builds s)) ''success''] \<and>
           \<not> answered_all s) \<and>
        (stage_rank stg < 4 \<longrightarrow> ex = []) \<and>
        (stg = Install \<longrightarrow> ex = [Exec (''cd '' @ tempFolderOf w nm @ '' && npm install'')]) \<and>
        (stage_rank stg < 5 \<longrightarrow> ld = [] \<and> pt = []) \<and>
        (stg = Delete \<longrightarrow> pt = [])"
  show ?thesis
  proof (cases "fst (attempt w pid nm url s)")
    case (Inr u)
    with ok [OF Inr] b show ?thesis by simp
  next
    case (Inl p)
    obtain stg e where "p = (stg, e)" by (cases p)
    with Inl ko [of stg e] b answered_all_refused_none [OF assms] show ?thesis by simp
  qed
qed

text \<open>
  C1 at a namespace of 1001 objects: the run lists once, deletes the 1000 keys of
  the answer, uploads the two files of the new build and ends \<open>success\<close>, and the
  last of the old keys is still in the namespace beside the two new ones.
\<close>

theorem stale_object_survives_deploy:
  "length (namespace_keys ''app'' crowded) = 1001 \<and>
   fst (attempt world0 1 ''app'' ''u'' crowded) = Inr () \<and>
   map build_status (builds (startBuild world0 1 ''app'' ''u'' crowded)) = [''success''] \<and>
   rel_paths site = [''index.html'', ''assets/app.js''] \<and>
   namespace_keys ''app'' (startBuild world0 1 ''app'' ''u'' crowded) =
     [old_key 1000, ''app/index.html'', ''app/assets/app.js''] \<and>
   length (old_key 1000) = 1005"
proof -
  note run = answered_run [OF crowded_simps(1) answered_all_crowded rmSync_world0(1),
      where nm = "''app''" and url = "''u''" and es = site and pid = 1,
      THEN conjunct1, rule_format, OF built_output_world0]
  have ok: "fst (attempt world0 1 ''app'' ''u'' crowded) = Inr ()"
    using run by simp
  have "puts world0 site ''app'' =
      [(''app/index.html'', \<lparr>Body = ''<h1>new</h1>'', ContentType = Some ''text/html''\<rparr>),
       (''app/assets/app.js'', \<lparr>Body = ''main()'', ContentType = Some ''application/octet-stream''\<rparr>)]"
    by (simp add: site_def world0_def)
  then have objs: "objects (startBuild world0 1 ''app'' ''u'' crowded) =
      [(old_key 1000, old_object),
       (''app/index.html'', \<lparr>Body = ''<h1>new</h1>'', ContentType = Some ''text/html''\<rparr>),
       (''app/assets/app.js'', \<lparr>Body = ''main()'', ContentType = Some ''application/octet-stream''\<rparr>)]"
    using run old_key_other [of "''app/index.html''" 1000]
      old_key_other [of "''app/assets/app.js''" 1000]
    by (simp add: survivors_crowded)
  have st: "map build_status (builds (startBuild world0 1 ''app'' ''u'' crowded)) = [''success'']"
    using status_of_run [OF answered_all_crowded, of world0 1 "''app''" "''u''"] ok
    by (simp add: crowded_simps)
  have len: "length (old_key 1000) = 1005"
    by (simp add: old_key_def)
  show ?thesis
    using ok st objs namespace_keys_crowded len
    by (simp add: namespace_keys_def site_def)
qed

text \<open>
  C2 at the same namespace, in a run whose build leaves no output directory: the
  delete stage returns, the upload stage throws before any put, and at that point
  the namespace is not empty: it holds the last of the old keys.
\<close>

theorem stale_object_survives_delete_stage:
  "length (namespace_keys ''app'' crowded) = 1001 \<and>
   fst (deleteFolderFromR2 ''app/'' crowded) = Inr () \<and>
   namespace_keys ''app'' (snd (deleteFolderFromR2 ''app/'' crowded)) = [old_key 1000] \<and>
   fst (attempt no_output_dir 1 ''app'' ''u'' crowded) = Inl (Upload, ''ENOENT'') \<and>
   filter is_put (calls_of_run no_output_dir 1 ''app'' ''u'' crowded) = [] \<and>
   namespace_keys ''app'' (startBuild no_output_dir 1 ''app'' ''u'' crowded) = [old_key 1000]"
proof -
  note run = answered_run [OF crowded_simps(1) answered_all_crowded rmSync_world0(2),
      where nm = "''app''" and url = "''u''" and e = "''ENOENT''" and pid = 1,
      THEN conjunct2, rule_format, OF built_output_no_output_dir]
  have del: "deleteFolderFromR2 ''app/'' crowded =
      (Inr (), crowded\<lparr>objects := [(old_key 1000, old_object)],
         trace := trace crowded @ S3 (ListObjectsV2 ''app/'') #
           map (\<lambda>k. S3 (DeleteObject k)) (first_page ''app/'' crowded)\<rparr>)"
    using deleteFolderFromR2_answered [OF crowded_simps(1), of "''app/''", folded first_page_def]
    by (simp only: survivors_crowded)
  show ?thesis
    using run del namespace_keys_crowded
    by (simp add: namespace_keys_def survivors_crowded)
qed

subsection \<open>A namespace that one listing covers\<close>

lemma first_page_all:
  "length (namespace_keys nm s) \<le> list_page_limit \<Longrightarrow>
   set (first_page (nm @ ''/'') s) = set (namespace_keys nm s)"
  by (simp add: first_page_def namespace_keys_def)

lemma namespace_emptied:
  assumes "length (namespace_keys nm s) \<le> list_page_limit"
  shows "filter (prefix (nm @ ''/''))
           (map fst (filter (\<lambda>kv. fst kv \<notin> set (first_page (nm @ ''/'') s)) (objects s))) = []"
  unfolding first_page_all [OF assms]
  by (auto simp add: filter_empty_conv namespace_keys_def)

text \<open>
  When the namespace holds no more keys than one listing returns, the delete stage
  leaves it empty.
\<close>

theorem delete_stage_empties_namespace:
  "deleteFolderFromR2 (nm @ ''/'') s = (Inr u, s') \<Longrightarrow>
   length (namespace_keys nm s) \<le> list_page_limit \<Longrightarrow>
   namespace_keys nm s' = []"
proof -
  assume d: "deleteFolderFromR2 (nm @ ''/'') s = (Inr u, s')"
    and small: "length (namespace_keys nm s) \<le> list_page_limit"
  have "objects s' = filter (\<lambda>kv. fst kv \<notin> set (first_page (nm @ ''/'') s)) (objects s)"
    using deleteFolderFromR2_Inr [OF d] by (simp add: first_page_def)
  with namespace_emptied [OF small] show ?thesis
    by (simp add: namespace_keys_def)
qed

theorem delete_stage_empties_namespace_witness:
  "deleteFolderFromR2 (''app'' @ ''/'') deployed =
     (Inr (),
      deployed\<lparr>objects := [(''blog/index.html'', old_object)],
        trace := [S3 (ListObjectsV2 ''app/''), S3 (DeleteObject ''app/css/old.css''),
                  S3 (DeleteObject ''app/old.html'')]\<rparr>) \<and>
   length (namespace_keys ''app'' deployed) = 2 \<and>
   namespace_keys ''app''
     (deployed\<lparr>objects := [(''blog/index.html'', old_object)],
        trace := [S3 (ListObjectsV2 ''app/''), S3 (DeleteObject ''app/css/old.css''),
                  S3 (DeleteObject ''app/old.html'')]\<rparr>) = []"
proof -
  have b: "s3_budget deployed = None"
    by (simp add: deployed_def sys0_def)
  have page: "take list_page_limit (sort (filter (prefix ''app/'') (map fst (objects deployed)))) =
      [''app/css/old.css'', ''app/old.html'']"
    by (simp add: deployed_def sys0_def list_page_limit_def)
  have d: "deleteFolderFromR2 (''app'' @ ''/'') deployed =
     (Inr (),
      deployed\<lparr>objects := [(''blog/index.html'', old_object)],
        trace := [S3 (ListObjectsV2 ''app/''), S3 (DeleteObject ''app/css/old.css''),
                  S3 (DeleteObject ''app/old.html'')]\<rparr>)"
    using deleteFolderFromR2_answered [OF b, of "''app/''"]
    by (simp add: page) (simp add: deployed_def sys0_def)
  have n: "length (namespace_keys ''app'' deployed) = 2"
    by (simp add: namespace_keys_def deployed_def sys0_def)
  have "length (namespace_keys ''app'' deployed) \<le> list_page_limit"
    by (simp add: n list_page_limit_def)
  from delete_stage_empties_namespace [OF d this] d n show ?thesis
    by simp
qed

text \<open>
  When the namespace holds no more keys than one listing returns, a run that ends
  \<open>success\<close> leaves in it exactly the keys of the files of the output directory.
\<close>

theorem deploy_replaces_namespace:
  "fst (attempt w pid nm url s) = Inr u \<Longrightarrow>
   length (namespace_keys nm s) \<le> list_page_limit \<Longrightarrow>
   \<exists>es. built_output w nm url = Inr es \<and>
        set (namespace_keys nm (startBuild w pid nm url s)) =
          (\<lambda>p. nm @ ''/'' @ p) ` set (rel_paths es)"
proof -
  assume ok: "fst (attempt w pid nm url s) = Inr u"
    and small: "length (namespace_keys nm s) \<le> list_page_limit"
  from success_objects [OF ok] obtain es where
    out: "built_output w nm url = Inr es" and
    objs: "objects (startBuild w pid nm url s) =
       foldl (\<lambda>al kv. AList.update (fst kv) (snd kv) al)
         (filter (\<lambda>kv. fst kv \<notin> set (first_page (nm @ ''/'') s)) (objects s))
         (puts w es nm)"
    by blast
  define rest where "rest = filter (\<lambda>kv. fst kv \<notin> set (first_page (nm @ ''/'') s)) (objects s)"
  define R where "R = fst ` set rest"
  define P where "P = set (map fst (puts w es nm))"
  have none: "\<forall>k\<in>R. \<not> prefix (nm @ ''/'') k"
    using namespace_emptied [OF small] unfolding rest_def R_def
    by (auto simp add: filter_empty_conv)
  have new: "\<forall>k\<in>P. prefix (nm @ ''/'') k"
    unfolding P_def by (auto simp add: keys_of_puts)
  have keys: "fst ` set (objects (startBuild w pid nm url s)) = R \<union> P"
    unfolding objs rest_def [symmetric] R_def P_def by (rule dom_update_all)
  have "set (namespace_keys nm (startBuild w pid nm url s)) =
        {k \<in> fst ` set (objects (startBuild w pid nm url s)). prefix (nm @ ''/'') k}"
    by (simp add: namespace_keys_def)
  also have "\<dots> = P"
    unfolding keys using none new by blast
  finally have "set (namespace_keys nm (startBuild w pid nm url s)) = set (map fst (puts w es nm))"
    unfolding P_def .
  with out show ?thesis
    by (intro exI [of _ es]) (simp add: keys_of_puts)
qed

theorem deploy_replaces_namespace_witness:
  "fst (attempt world0 1 ''app'' ''u'' deployed) = Inr () \<and>
   namespace_keys ''app'' deployed = [''app/old.html'', ''app/css/old.css''] \<and>
   built_output world0 ''app'' ''u'' = Inr site \<and>
   set (namespace_keys ''app'' (startBuild world0 1 ''app'' ''u'' deployed)) =
     {''app/index.html'', ''app/assets/app.js''}"
proof -
  have b: "s3_budget deployed = None"
    by (simp add: deployed_def sys0_def)
  have db: "answered_all deployed"
    by (simp add: answered_all_def deployed_def sys0_def)
  have ok: "fst (attempt world0 1 ''app'' ''u'' deployed) = Inr ()"
    using answered_run [OF b db rmSync_world0(1), where nm = "''app''" and url = "''u''"
        and es = site and pid = 1] built_output_world0
    by simp
  have n: "namespace_keys ''app'' deployed = [''app/old.html'', ''app/css/old.css'']"
    by (simp add: namespace_keys_def deployed_def sys0_def)
  have small: "length (namespace_keys ''app'' deployed) \<le> list_page_limit"
    by (simp add: n list_page_limit_def)
  from deploy_replaces_namespace [OF ok small] ok n show ?thesis
    by (simp add: built_output_world0 site_def)
qed

text \<open>
  In every run, the calls that delete objects all come before the calls that put
  objects.
\<close>

theorem deletes_precede_puts:
  "\<exists>before after. calls_of_run w pid nm url s = before @ after \<and>
     filter is_put before = [] \<and> filter is_delete after = []"
proof (cases "db_next s = Answered")
  case False
  from startBuild_not_created [OF False, of w pid nm url] show ?thesis
    by (intro exI [of _ "[DbInsert (fresh_id (builds s)) ''pending'']"] exI [of _ "[]"]) simp
next
  case True
  show ?thesis
  proof (rule startBuild_shape [OF True, of w pid nm url])
    fix st ex ld pt cl ct
    assume c: "calls_of_run w pid nm url s =
         DbInsert (fresh_id (builds s)) ''pending'' # GitClone url (tempFolderOf w nm) #
           ex @ ld @ pt @ cl @ ct"
      and k: "list_all is_exec ex" "list_all is_list_or_delete ld" "list_all is_put pt"
      and ok: "\<And>u. fst (attempt w pid nm url s) = Inr u \<Longrightarrow>
          st = ''success'' \<and>
          cl = [RmSync (tempFolderOf w nm), DbUpdate (fresh_id (builds s)) ''success''] \<and>
          ct = [] \<and>
          ex = [Exec (''cd '' @ tempFolderOf w nm @ '' && npm install''),
                Exec (''cd '' @ tempFolderOf w nm @ '' && npm run build'')]"
      and ko: "\<And>stg e. fst (attempt w pid nm url s) = Inl (stg, e) \<Longrightarrow>
          stg \<noteq> Create \<and>
          ct = [ConsoleLog ''Build Failed'' e, DbUpdate (fresh_id (builds s)) ''failed''] \<and>
          (refused_none s \<longrightarrow> st = ''failed'') \<and>
          (stage_rank stg < 7 \<longrightarrow> cl = []) \<and>
          (stg = Remove \<longrightarrow> cl = [RmSync (tempFolderOf w nm)]) \<and>
          (stg = Mark \<longrightarrow>
             cl = [RmSync (tempFolderOf w nm), DbUpdate (fresh_id (builds s)) ''success''] \<and>
             \<not> answered_all s) \<and>
          (stage_rank stg < 4 \<longrightarrow> ex = []) \<and>
          (stg = Install \<longrightarrow> ex = [Exec (''cd '' @ tempFolderOf w nm @ '' && npm install'')]) \<and>
          (stage_rank stg < 5 \<longrightarrow> ld = [] \<and> pt = []) \<and>
          (stg = Delete \<longrightarrow> pt = [])"
    have fin: "filter is_delete (cl @ ct) = []"
    proof (cases "fst (attempt w pid nm url s)")
      case (Inr u)
      from ok [OF this] show ?thesis by simp
    next
      case (Inl p)
      obtain stg e where p: "p = (stg, e)" by (cases p)
      from ko [OF Inl [unfolded p]] have ct: "filter is_delete ct = []"
        and cl: "stg \<noteq> Create" "stage_rank stg < 7 \<longrightarrow> cl = []"
          "stg = Remove \<longrightarrow> cl = [RmSync (tempFolderOf w nm)]"
          "stg = Mark \<longrightarrow>
             cl = [RmSync (tempFolderOf w nm), DbUpdate (fresh_id (builds s)) ''success''] \<and>
             \<not> answered_all s"
        by simp_all
      from closing_calls [OF cl] have "filter is_delete cl = []"
        by auto
      with ct show ?thesis by simp
    qed
    have before: "filter is_put
        (DbInsert (fresh_id (builds s)) ''pending'' # GitClone url (tempFolderOf w nm) # ex @ ld) = []"
      using filter_none [OF k(1), of is_put] filter_none [OF k(2), of is_put]
        exec_kind list_or_delete_kind by simp
    have after: "filter is_delete (pt @ cl @ ct) = []"
      using filter_none [OF k(3), of is_delete] put_kind fin by simp
    show ?thesis
      using c before after
      by (intro exI [of _ "DbInsert (fresh_id (builds s)) ''pending'' #
            GitClone url (tempFolderOf w nm) # ex @ ld"] exI [of _ "pt @ cl @ ct"]) simp
  qed
qed

end
